theory Spec2Isabelle
  imports Main "HOL-Library.AList"
begin

section \<open>JavaScript values\<close>

text \<open>
  The library works on plain JavaScript data: the graph's nodes, links and configuration
  are objects, arrays, strings, numbers and booleans. A value is a tree; an object is the
  list of its own enumerable properties in insertion order, each key at most once.
  Numbers are restricted to integers (no property proved below depends on a fraction, on
  NaN or on an infinity); functions (user callbacks) are not values of the model.
\<close>

datatype jsval =
    JUndefined
  | JNull
  | JBool bool
  | JNum int
  | JStr string
  | JObj "(string \<times> jsval) list"
  | JArr "jsval list"

text \<open>
  What a call can throw: a \<open>TypeError\<close> of the language (a property read on
  \<open>undefined\<close> or \<open>null\<close>), or one of the three errors that
  \<open>throwErr("Graph", ...)\<close> raises, with the values quoted in its message.
\<close>

datatype error =
    TypeError
  | InsufficientDataError
  | InvalidLinkError jsval
  | InvalidLinkValueError jsval jsval

type_synonym props = "(string \<times> jsval) list"

text \<open>Sequencing of calls that may throw: the first error ends the computation.\<close>

definition bindE :: "error + 'a \<Rightarrow> ('a \<Rightarrow> error + 'b) \<Rightarrow> error + 'b" where
  "bindE m f = (case m of Inl e \<Rightarrow> Inl e | Inr v \<Rightarrow> f v)"

fun sequenceE :: "(error + 'a) list \<Rightarrow> error + 'a list" where
  "sequenceE [] = Inr []"
| "sequenceE (m # ms) =
     (case m of
        Inl e \<Rightarrow> Inl e
      | Inr v \<Rightarrow> (case sequenceE ms of Inl e \<Rightarrow> Inl e | Inr vs \<Rightarrow> Inr (v # vs)))"

text \<open>The decimal numeral of an array index, as \<open>Object.keys\<close> lists it.\<close>

function decimal :: "nat \<Rightarrow> string" where
  "decimal n =
     (if n < 10 then [''0123456789'' ! n]
      else decimal (n div 10) @ [''0123456789'' ! (n mod 10)])"
  by pat_completeness auto
termination
  by (relation "measure (\<lambda>n. n)") auto

declare decimal.simps [simp del]

definition joinComma :: "string list \<Rightarrow> string" where
  "joinComma ss = (case ss of [] \<Rightarrow> [] | s # rest \<Rightarrow> foldl (\<lambda>acc t. acc @ '','' @ t) s rest)"

text \<open>
  \<open>ToString\<close>, which also turns a value into a property key. The numbers of the model
  are the integers, printed with all their digits, as the code prints an integer below
  \<open>10^21\<close>; fractions and the exponent form of larger numbers are not modelled.
\<close>

fun toStr :: "jsval \<Rightarrow> string" where
  "toStr JUndefined = ''undefined''"
| "toStr JNull = ''null''"
| "toStr (JBool b) = (if b then ''true'' else ''false'')"
| "toStr (JNum n) = (if n < 0 then ''-'' @ decimal (nat (- n)) else decimal (nat n))"
| "toStr (JStr s) = s"
| "toStr (JObj ps) = ''[object Object]''"
| "toStr (JArr xs) =
     joinComma (map (\<lambda>x. if x = JUndefined \<or> x = JNull then [] else toStr x) xs)"

definition nullish :: "jsval \<Rightarrow> bool" where
  "nullish v = (v = JUndefined \<or> v = JNull)"

text \<open>The method call \<open>v.toString()\<close>: a TypeError on \<open>undefined\<close> and \<open>null\<close>.\<close>

definition toStringMethod :: "jsval \<Rightarrow> error + string" where
  "toStringMethod v = (if nullish v then Inl TypeError else Inr (toStr v))"

fun truthy :: "jsval \<Rightarrow> bool" where
  "truthy JUndefined = False"
| "truthy JNull = False"
| "truthy (JBool b) = b"
| "truthy (JNum n) = (n \<noteq> 0)"
| "truthy (JStr s) = (s \<noteq> [])"
| "truthy (JObj ps) = True"
| "truthy (JArr xs) = True"

fun typeof :: "jsval \<Rightarrow> string" where
  "typeof JUndefined = ''undefined''"
| "typeof JNull = ''object''"
| "typeof (JBool b) = ''boolean''"
| "typeof (JNum n) = ''number''"
| "typeof (JStr s) = ''string''"
| "typeof (JObj ps) = ''object''"
| "typeof (JArr xs) = ''object''"

text \<open>\<open>a || b\<close> and \<open>a && b\<close> on values.\<close>

definition jsOr :: "jsval \<Rightarrow> jsval \<Rightarrow> jsval" where
  "jsOr a b = (if truthy a then a else b)"

definition jsAnd :: "jsval \<Rightarrow> jsval \<Rightarrow> jsval" where
  "jsAnd a b = (if truthy a then b else a)"

text \<open>
  \<open>a === b\<close>. Primitives are compared by value. Two objects (or two arrays) are equal
  when they are one and the same object: the model's values carry no identity, so the
  comparison asks the parameter \<open>same\<close> whether the two operands are the same
  reference, which they can only be when their contents agree.
\<close>

fun strictEq :: "(jsval \<Rightarrow> jsval \<Rightarrow> bool) \<Rightarrow> jsval \<Rightarrow> jsval \<Rightarrow> bool" where
  "strictEq same JUndefined JUndefined = True"
| "strictEq same JNull JNull = True"
| "strictEq same (JBool a) (JBool b) = (a = b)"
| "strictEq same (JNum a) (JNum b) = (a = b)"
| "strictEq same (JStr a) (JStr b) = (a = b)"
| "strictEq same (JObj a) (JObj b) = (a = b \<and> same (JObj a) (JObj b))"
| "strictEq same (JArr a) (JArr b) = (a = b \<and> same (JArr a) (JArr b))"
| "strictEq same a b = False"

text \<open>The reference oracle of a caller none of whose objects are shared.\<close>

definition noSharing :: "jsval \<Rightarrow> jsval \<Rightarrow> bool" where
  "noSharing a b = False"

text \<open>
  The own enumerable properties of a value, in the order of \<open>Object.keys\<close>: an
  object's properties, an array's elements and a string's characters under their indices.
\<close>

fun ownProps :: "jsval \<Rightarrow> props" where
  "ownProps (JObj ps) = ps"
| "ownProps (JArr xs) = zip (map decimal [0..<length xs]) xs"
| "ownProps (JStr s) = zip (map decimal [0..<length s]) (map (\<lambda>c. JStr [c]) s)"
| "ownProps v = []"

definition keysOf :: "jsval \<Rightarrow> string list" where
  "keysOf v = map fst (ownProps v)"

text \<open>\<open>Object.keys(v)\<close> throws on \<open>undefined\<close> and \<open>null\<close>.\<close>

definition objectKeys :: "jsval \<Rightarrow> error + string list" where
  "objectKeys v = (if nullish v then Inl TypeError else Inr (keysOf v))"

fun lengthOf :: "jsval \<Rightarrow> jsval option" where
  "lengthOf (JArr xs) = Some (JNum (int (length xs)))"
| "lengthOf (JStr s) = Some (JNum (int (length s)))"
| "lengthOf v = None"

text \<open>
  \<open>v[k]\<close> on a value that is neither \<open>undefined\<close> nor \<open>null\<close>: the own
  property, the \<open>length\<close> of an array or string, and \<open>undefined\<close> otherwise
  (inherited properties are not modelled).
\<close>

definition lookupProp :: "jsval \<Rightarrow> string \<Rightarrow> jsval" where
  "lookupProp v k =
     (case map_of (ownProps v) k of
        Some x \<Rightarrow> x
      | None \<Rightarrow> (if k = ''length'' then (case lengthOf v of Some n \<Rightarrow> n | None \<Rightarrow> JUndefined)
                 else JUndefined))"

definition getProp :: "jsval \<Rightarrow> string \<Rightarrow> error + jsval" where
  "getProp v k = (if nullish v then Inl TypeError else Inr (lookupProp v k))"

definition hasOwn :: "jsval \<Rightarrow> string \<Rightarrow> bool" where
  "hasOwn v k = (k \<in> set (keysOf v) \<or> (k = ''length'' \<and> lengthOf v \<noteq> None))"

definition hasOwnProperty :: "jsval \<Rightarrow> string \<Rightarrow> error + bool" where
  "hasOwnProperty v k = (if nullish v then Inl TypeError else Inr (hasOwn v k))"

text \<open>\<open>o[k] = v\<close> on an object: an existing key keeps its place, a new one comes last.\<close>

definition setProp :: "props \<Rightarrow> string \<Rightarrow> jsval \<Rightarrow> props" where
  "setProp ps k v = AList.update k v ps"

text \<open>
  \<open>Object.assign(target, s1, ..., sn)\<close>: the own enumerable properties of each source,
  in turn, are written to the target; \<open>undefined\<close> and \<open>null\<close> sources have none.
\<close>

definition assignFrom :: "props \<Rightarrow> jsval \<Rightarrow> props" where
  "assignFrom target source = foldl (\<lambda>t (k, v). setProp t k v) target (ownProps source)"

definition objectAssign :: "props \<Rightarrow> jsval list \<Rightarrow> props" where
  "objectAssign target sources = foldl assignFrom target sources"

section \<open>utils\<close>

definition MAX_DEPTH :: nat where
  "MAX_DEPTH = 20"

definition isEmptyObject :: "jsval \<Rightarrow> bool" where
  "isEmptyObject v = (truthy v \<and> typeof v = ''object'' \<and> keysOf v = [])"

definition isPropertyNestedObject :: "jsval \<Rightarrow> string \<Rightarrow> bool" where
  "isPropertyNestedObject v k =
     (truthy v \<and> hasOwn v k \<and> typeof (lookupProp v k) = ''object''
        \<and> lookupProp v k \<noteq> JNull \<and> \<not> isEmptyObject (lookupProp v k))"

text \<open>
  The loop of \<open>isDeepEqual\<close> over the keys of \<open>o1\<close>. For a key, \<open>nested k\<close> is the
  result of the recursive comparison when both properties are nested objects above the
  depth limit, and \<open>None\<close> otherwise; then \<open>flat k\<close> is the direct comparison \<open>r\<close>,
  and the loop breaks when it is false.
\<close>

fun compareLoop ::
  "(string \<Rightarrow> (error + bool) option) \<Rightarrow> (string \<Rightarrow> bool) \<Rightarrow> string list \<Rightarrow> bool list
     \<Rightarrow> error + bool list" where
  "compareLoop nested flat [] diffs = Inr diffs"
| "compareLoop nested flat (k # ks) diffs =
     (case nested k of
        Some (Inl e) \<Rightarrow> Inl e
      | Some (Inr b) \<Rightarrow> compareLoop nested flat ks (diffs @ [b])
      | None \<Rightarrow>
          (let r = flat k in
           if r then compareLoop nested flat ks (diffs @ [r]) else Inr (diffs @ [r])))"

function isDeepEqual ::
  "(jsval \<Rightarrow> jsval \<Rightarrow> bool) \<Rightarrow> jsval \<Rightarrow> jsval \<Rightarrow> nat \<Rightarrow> error + bool" where
  "isDeepEqual same o1 o2 depth =
     (if depth = 0 \<and> strictEq same o1 o2 then Inr True
      else if (isEmptyObject o1 \<and> \<not> isEmptyObject o2) \<or> (\<not> isEmptyObject o1 \<and> isEmptyObject o2)
      then Inr False
      else
        bindE (objectKeys o1) (\<lambda>o1Keys.
        bindE (objectKeys o2) (\<lambda>o2Keys.
          if length o1Keys \<noteq> length o2Keys then Inr False
          else
            bindE
              (compareLoop
                 (\<lambda>k. if isPropertyNestedObject o1 k \<and> isPropertyNestedObject o2 k
                          \<and> depth < MAX_DEPTH
                       then Some (isDeepEqual same (lookupProp o1 k) (lookupProp o2 k) (depth + 1))
                       else None)
                 (\<lambda>k. (isEmptyObject (lookupProp o1 k) \<and> isEmptyObject (lookupProp o2 k))
                       \<or> (hasOwn o2 k \<and> strictEq same (lookupProp o2 k) (lookupProp o1 k)))
                 o1Keys [])
              (\<lambda>diffs. Inr (False \<notin> set diffs)))))"
  by pat_completeness auto
termination
  by (relation "measure (\<lambda>(same, o1, o2, depth). MAX_DEPTH - depth)") auto

declare isDeepEqual.simps [simp del]

text \<open>
  \<open>merge(o1, o2, _depth)\<close>. An argument left \<open>undefined\<close> defaults to \<open>{}\<close>. The
  result is written key by key over \<open>Object.keys(o1)\<close>; a throw inside the loop ends it.
\<close>

function merge :: "jsval \<Rightarrow> jsval \<Rightarrow> nat \<Rightarrow> error + jsval" where
  "merge a1 a2 depth =
     (let o1 = (if a1 = JUndefined then JObj [] else a1);
          o2 = (if a2 = JUndefined then JObj [] else a2)
      in
        if length (keysOf (jsOr o1 (JObj []))) = 0
        then Inr (if truthy o2 \<and> \<not> isEmptyObject o2 then o2 else JObj [])
        else
          bindE
            (sequenceE
               (map (\<lambda>k.
                   bindE (getProp o2 k) (\<lambda>v2.
                     if truthy v2 \<and> typeof v2 = ''object'' \<and> typeof (lookupProp o1 k) = ''object''
                          \<and> depth < MAX_DEPTH
                     then
                       bindE (merge (lookupProp o1 k) v2 (depth + 1)) (\<lambda>r.
                       bindE (hasOwnProperty (lookupProp o1 k) ''length'') (\<lambda>h1.
                         Inr (k, if h1 \<and> hasOwn v2 ''length''
                                 then JArr (map (lookupProp r) (keysOf r))
                                 else r)))
                     else Inr (k, if hasOwn o2 k then v2 else lookupProp o1 k)))
                 (keysOf o1)))
            (\<lambda>entries. Inr (JObj entries)))"
  by pat_completeness auto
termination
  by (relation "measure (\<lambda>(a1, a2, depth). MAX_DEPTH - depth)") auto

declare merge.simps [simp del]

text \<open>\<open>pick(o, props)\<close>: the reduce over \<open>props\<close>, starting from \<open>{}\<close>.\<close>

fun pickLoop :: "jsval \<Rightarrow> string list \<Rightarrow> props \<Rightarrow> error + props" where
  "pickLoop v [] acc = Inr acc"
| "pickLoop v (k # ks) acc =
     bindE (hasOwnProperty v k) (\<lambda>h.
       pickLoop v ks (if h then setProp acc k (lookupProp v k) else acc))"

definition pick :: "jsval \<Rightarrow> string list \<Rightarrow> error + props" where
  "pick v ps = pickLoop v ps []"

definition antiPick :: "jsval \<Rightarrow> string list \<Rightarrow> error + props" where
  "antiPick v ps =
     bindE (objectKeys v) (\<lambda>ks. pick v (filter (\<lambda>k. k \<notin> set ps) ks))"

section \<open>Graph/helper\<close>

definition NODE_PROPS_WHITELIST :: "string list" where
  "NODE_PROPS_WHITELIST = [''id'', ''highlighted'', ''x'', ''y'', ''index'', ''vy'', ''vx'']"

definition LINK_CUSTOM_PROPS_WHITELIST :: "string list" where
  "LINK_CUSTOM_PROPS_WHITELIST = [''color'', ''opacity'', ''strokeWidth'', ''label'']"

definition NODE_PROPERTIES_DISCARD_TO_COMPARE :: "string list" where
  "NODE_PROPERTIES_DISCARD_TO_COMPARE = [''x'', ''y'', ''vx'', ''vy'', ''index'']"

text \<open>
  The adjacency matrix: for a node id, the object that maps the ids of its neighbours to
  the value of the connection. Every row the code stores is an object. The matrix and
  its rows are the own properties of objects created as \<open>{}\<close>.
\<close>

type_synonym matrix = "(string \<times> props) list"

definition rowOf :: "matrix \<Rightarrow> string \<Rightarrow> props" where
  "rowOf m k = (case map_of m k of Some r \<Rightarrow> r | None \<Rightarrow> [])"

text \<open>
  The names that an object created as \<open>{}\<close> inherits from \<open>Object.prototype\<close>. Under
  each of them a read finds a value, a function or, for \<open>__proto__\<close>, the prototype
  itself, although the object has no such property of its own; all these values are
  truthy.
\<close>

definition objectPrototypeNames :: "string list" where
  "objectPrototypeNames =
     [''constructor'', ''__defineGetter__'', ''__defineSetter__'', ''hasOwnProperty'',
      ''__lookupGetter__'', ''__lookupSetter__'', ''isPrototypeOf'', ''propertyIsEnumerable'',
      ''toString'', ''valueOf'', ''__proto__'', ''toLocaleString'']"

text \<open>
  \<open>if (!links[k]) links[k] = {}\<close>: a row is created when \<open>links[k]\<close> is falsy, that is
  when \<open>k\<close> is neither a row of the matrix nor a name inherited from \<open>Object.prototype\<close>.
\<close>

definition ensureRow :: "matrix \<Rightarrow> string \<Rightarrow> matrix" where
  "ensureRow links k =
     (if map_of links k = None \<and> k \<notin> set objectPrototypeNames then AList.update k [] links
      else links)"

text \<open>
  \<open>links[a][b] = v\<close>, after \<open>links[a]\<close> has been found truthy. On a row of the matrix
  the assignment sets the entry \<open>b\<close>; for the name \<open>__proto__\<close> it reaches the setter
  inherited from \<open>Object.prototype\<close> and gives the row no property. When \<open>links[a]\<close> is
  not a row but a value inherited from \<open>Object.prototype\<close>, the assignment is made on
  that shared value and the matrix stays as it is; what becomes of the shared value
  (the assignment may also be refused there) is outside this model, and the statements
  on the matrix leave such endpoints out.
\<close>

definition assignEntry :: "matrix \<Rightarrow> string \<Rightarrow> string \<Rightarrow> jsval \<Rightarrow> matrix" where
  "assignEntry links a b v =
     (case map_of links a of
        None \<Rightarrow> links
      | Some row \<Rightarrow> if b = ''__proto__'' then links else AList.update a (setProp row b v) links)"

text \<open>
  \<open>l.source.id !== undefined && l.source.id !== null ? l.source.id : l.source\<close>, for
  \<open>side\<close> one of \<open>source\<close> and \<open>target\<close>.
\<close>

definition endpointId :: "jsval \<Rightarrow> string \<Rightarrow> error + jsval" where
  "endpointId l side =
     bindE (getProp l side) (\<lambda>e.
     bindE (getProp e ''id'') (\<lambda>i.
       Inr (if \<not> nullish i then i else e)))"

text \<open>One step of the reduce of \<open>_initializeLinks\<close>.\<close>

definition initializeLinksStep :: "jsval \<Rightarrow> matrix \<Rightarrow> jsval \<Rightarrow> error + matrix" where
  "initializeLinksStep config links l =
     bindE (endpointId l ''source'') (\<lambda>source.
     bindE (endpointId l ''target'') (\<lambda>target.
       let s = toStr source;
           t = toStr target;
           links1 = ensureRow links s;
           links2 = ensureRow links1 t
       in
         bindE (getProp config ''collapsible'') (\<lambda>collapsible.
           let v = (if truthy (jsAnd collapsible (lookupProp l ''isHidden'')) then JNum 0
                    else jsOr (lookupProp l ''value'') (JNum 1));
               links3 = assignEntry links2 s t v
           in
             if \<not> truthy (lookupProp config ''directed'')
             then Inr (assignEntry links3 t s v)
             else Inr links3)))"

fun initializeLinksLoop :: "jsval \<Rightarrow> jsval list \<Rightarrow> matrix \<Rightarrow> error + matrix" where
  "initializeLinksLoop config [] links = Inr links"
| "initializeLinksLoop config (l # ls) links =
     bindE (initializeLinksStep config links l) (\<lambda>links'. initializeLinksLoop config ls links')"

definition initializeLinks :: "jsval list \<Rightarrow> jsval \<Rightarrow> error + matrix" where
  "initializeLinks graphLinks config = initializeLinksLoop config graphLinks []"

text \<open>
  The body of the loop of \<open>_initializeNodes\<close> on one node, which it mutates:
  \<open>highlighted\<close> is set to false, \<open>x\<close> and \<open>y\<close> are set to 0 when absent.
\<close>

definition initializeNode :: "props \<Rightarrow> props" where
  "initializeNode node =
     (let n1 = setProp node ''highlighted'' (JBool False);
          n2 = (if \<not> hasOwn (JObj n1) ''x'' then setProp n1 ''x'' (JNum 0) else n1);
          n3 = (if \<not> hasOwn (JObj n2) ''y'' then setProp n2 ''y'' (JNum 0) else n2)
      in n3)"

text \<open>
  The loop of \<open>_initializeNodes\<close>, on the nodes still to come and the node map built so
  far. The node map is given by the properties that the assignments
  \<open>nodes[node.id.toString()] = node\<close> create. For the one key \<open>__proto__\<close> the code's
  assignment creates none (it makes the node the prototype of the map); the map of the
  model keeps the node under that key, and the statements on the node map leave the id
  \<open>__proto__\<close> out.
\<close>

fun initializeNodesLoop :: "props list \<Rightarrow> props \<Rightarrow> error + props" where
  "initializeNodesLoop [] nodes = Inr nodes"
| "initializeNodesLoop (node # rest) nodes =
     (let n = initializeNode node in
      bindE (toStringMethod (lookupProp (JObj n) ''id'')) (\<lambda>key.
        initializeNodesLoop rest (setProp nodes key (JObj n))))"

definition initializeNodes :: "props list \<Rightarrow> error + props" where
  "initializeNodes graphNodes = initializeNodesLoop graphNodes []"

definition nonzero :: "jsval \<Rightarrow> bool" where
  "nonzero w = (w \<noteq> JNum 0)"

text \<open>
  Modelled from the spec: \<open>computeNodeDegree\<close> of \<open>collapse.helper\<close> is not among the
  sources. The spec: it returns \<open>{inDegree, outDegree}\<close> by counting, over the full
  adjacency matrix, incoming edges (any node whose row contains \<open>nodeId\<close> with nonzero
  weight) and outgoing edges (nonzero entries in \<open>nodeId\<close>'s own row).
\<close>

definition computeNodeDegree :: "string \<Rightarrow> matrix \<Rightarrow> nat \<times> nat" where
  "computeNodeDegree nodeId adjacency =
     (length (filter (\<lambda>(src, row). case map_of row nodeId of Some w \<Rightarrow> nonzero w | None \<Rightarrow> False)
                adjacency),
      length (filter (\<lambda>(tgt, w). nonzero w) (rowOf adjacency nodeId)))"

definition tagOrphanNodes :: "props \<Rightarrow> matrix \<Rightarrow> props" where
  "tagOrphanNodes nodes linksMatrix =
     foldl (\<lambda>acc nodeId.
         let (inDegree, outDegree) = computeNodeDegree nodeId linksMatrix;
             node = lookupProp (JObj nodes) nodeId;
             taggedNode = (if inDegree = 0 \<and> outDegree = 0
                           then JObj (objectAssign [] [node, JObj [(''_orphan'', JBool True)]])
                           else node)
         in setProp acc nodeId taggedNode)
       [] (keysOf (JObj nodes))"

text \<open>
  \<open>_mapDataLinkToD3Link(link, index, d3Links, config, state)\<close>; the third and the fifth
  argument default to \<open>[]\<close> and \<open>{}\<close> when \<open>undefined\<close>.
\<close>

definition mapDataLinkToD3Link ::
  "(jsval \<Rightarrow> jsval \<Rightarrow> bool) \<Rightarrow> jsval \<Rightarrow> nat \<Rightarrow> jsval \<Rightarrow> jsval \<Rightarrow> jsval \<Rightarrow> error + props" where
  "mapDataLinkToD3Link same link index d3LinksArg config stateArg =
     (let d3Links = (if d3LinksArg = JUndefined then JArr [] else d3LinksArg);
          state = (if stateArg = JUndefined then JObj [] else stateArg)
      in
        bindE (getProp d3Links (decimal index)) (\<lambda>d3Link.
        bindE (pick link LINK_CUSTOM_PROPS_WHITELIST) (\<lambda>customProps.
          if truthy d3Link then
            bindE (getProp state ''config'') (\<lambda>stateConfig.
            bindE (if truthy stateConfig
                   then (if truthy (lookupProp stateConfig ''directed'')
                         then bindE (getProp config ''directed'') (\<lambda>directed.
                                Inr (JBool (\<not> strictEq same directed (lookupProp stateConfig ''directed''))))
                         else Inr (lookupProp stateConfig ''directed''))
                   else Inr stateConfig) (\<lambda>toggledDirected.
              let refinedD3Link = objectAssign [] [d3Link, JObj customProps] in
              if truthy toggledDirected
              then Inr (objectAssign [] [JObj refinedD3Link, JObj [(''isHidden'', JBool False)]])
              else
                bindE (getProp config ''collapsible'') (\<lambda>collapsible.
                  Inr (if truthy collapsible then refinedD3Link
                       else objectAssign [] [JObj refinedD3Link, JObj [(''isHidden'', JBool False)]]))))
          else
            Inr (objectAssign
                   [(''index'', JNum (int index)),
                    (''source'', JObj [(''id'', lookupProp link ''source''), (''highlighted'', JBool False)]),
                    (''target'', JObj [(''id'', lookupProp link ''target''), (''highlighted'', JBool False)])]
                   [JObj customProps]))))"

text \<open>
  \<open>data.nodes.find(function (n) { return n.id === l[side]; })\<close>: the first node for
  which the callback holds, \<open>undefined\<close> when there is none.
\<close>

fun findNode :: "(jsval \<Rightarrow> jsval \<Rightarrow> bool) \<Rightarrow> jsval list \<Rightarrow> jsval \<Rightarrow> string \<Rightarrow> error + jsval" where
  "findNode same [] l side = Inr JUndefined"
| "findNode same (n # ns) l side =
     bindE (getProp n ''id'') (\<lambda>i.
     bindE (getProp l side) (\<lambda>v.
       if strictEq same i v then Inr n else findNode same ns l side))"

text \<open>The body \<open>_loop(i)\<close> of the validation, on the link \<open>l = data.links[i]\<close>.\<close>

definition validateLink :: "(jsval \<Rightarrow> jsval \<Rightarrow> bool) \<Rightarrow> jsval list \<Rightarrow> jsval \<Rightarrow> error + unit" where
  "validateLink same dataNodes l =
     bindE (findNode same dataNodes l ''source'') (\<lambda>foundSource.
       if \<not> truthy foundSource
       then bindE (getProp l ''source'') (\<lambda>s. Inl (InvalidLinkError s))
       else
         bindE (findNode same dataNodes l ''target'') (\<lambda>foundTarget.
           if \<not> truthy foundTarget
           then bindE (getProp l ''target'') (\<lambda>t. Inl (InvalidLinkError t))
           else if truthy l \<and> lookupProp l ''value'' \<noteq> JUndefined
                  \<and> typeof (lookupProp l ''value'') \<noteq> ''number''
           then Inl (InvalidLinkValueError (lookupProp l ''source'') (lookupProp l ''target''))
           else Inr ()))"

fun validateLinks :: "(jsval \<Rightarrow> jsval \<Rightarrow> bool) \<Rightarrow> jsval list \<Rightarrow> jsval list \<Rightarrow> error + unit" where
  "validateLinks same dataNodes [] = Inr ()"
| "validateLinks same dataNodes (l # ls) =
     bindE (validateLink same dataNodes l) (\<lambda>u. validateLinks same dataNodes ls)"

text \<open>
  \<open>_validateGraphData(data)\<close>; \<open>data.nodes\<close> is \<open>None\<close> when the sequence is absent,
  \<open>data.links\<close> is an array.
\<close>

definition validateGraphData ::
  "(jsval \<Rightarrow> jsval \<Rightarrow> bool) \<Rightarrow> jsval list option \<Rightarrow> jsval list \<Rightarrow> error + unit" where
  "validateGraphData same dataNodes dataLinks =
     (case dataNodes of
        None \<Rightarrow> Inl InsufficientDataError
      | Some ns \<Rightarrow>
          if length ns = 0 then Inl InsufficientDataError
          else validateLinks same ns dataLinks)"

text \<open>
  The relational operators \<open>a < b\<close> and \<open>a > b\<close>. An object or array operand is
  first turned into its string; two strings are compared by their characters; otherwise
  both operands become numbers, and a comparison with NaN (the number of \<open>undefined\<close>
  and of a string that is no numeral) is false. Of the numerals, those of the model's
  integers are read: an optional sign and decimal digits, the empty string being 0.
  Surrounding white space, fractions, exponents and the prefixes \<open>0x\<close>, \<open>0o\<close> and \<open>0b\<close>,
  which the code also reads, are not modelled: such a string counts as no numeral here.
\<close>

fun digitsToNat :: "string \<Rightarrow> nat \<Rightarrow> nat option" where
  "digitsToNat [] acc = Some acc"
| "digitsToNat (c # cs) acc =
     (if of_char c \<ge> (48 :: nat) \<and> of_char c \<le> (57 :: nat)
      then digitsToNat cs (10 * acc + (of_char c - 48))
      else None)"

definition stringToNumber :: "string \<Rightarrow> int option" where
  "stringToNumber s =
     (case s of
        [] \<Rightarrow> Some 0
      | c # cs \<Rightarrow>
          if c = CHR ''-'' \<and> cs \<noteq> [] then map_option (\<lambda>n. - int n) (digitsToNat cs 0)
          else if c = CHR ''+'' \<and> cs \<noteq> [] then map_option int (digitsToNat cs 0)
          else map_option int (digitsToNat s 0))"

fun toPrimitive :: "jsval \<Rightarrow> jsval" where
  "toPrimitive (JObj ps) = JStr (toStr (JObj ps))"
| "toPrimitive (JArr xs) = JStr (toStr (JArr xs))"
| "toPrimitive v = v"

fun toNumber :: "jsval \<Rightarrow> int option" where
  "toNumber JUndefined = None"
| "toNumber JNull = Some 0"
| "toNumber (JBool b) = Some (if b then 1 else 0)"
| "toNumber (JNum n) = Some n"
| "toNumber (JStr s) = stringToNumber s"
| "toNumber v = None"

fun stringLess :: "string \<Rightarrow> string \<Rightarrow> bool" where
  "stringLess [] [] = False"
| "stringLess [] (d # ds) = True"
| "stringLess (c # cs) [] = False"
| "stringLess (c # cs) (d # ds) =
     (if (of_char c :: nat) < of_char d then True
      else if (of_char d :: nat) < of_char c then False
      else stringLess cs ds)"

definition jsLess :: "jsval \<Rightarrow> jsval \<Rightarrow> bool" where
  "jsLess a b =
     (case (toPrimitive a, toPrimitive b) of
        (JStr x, JStr y) \<Rightarrow> stringLess x y
      | (pa, pb) \<Rightarrow>
          (case (toNumber pa, toNumber pb) of
             (Some m, Some n) \<Rightarrow> m < n
           | _ \<Rightarrow> False))"

definition jsGreater :: "jsval \<Rightarrow> jsval \<Rightarrow> bool" where
  "jsGreater a b = jsLess b a"

text \<open>
  Modelled from the spec: the force simulation of \<open>d3-force\<close> is a collaborator outside
  the sources, consumed as \<open>create(width, height, gravityStrength) \<rightarrow> handle\<close>. The handle
  of \<open>_createForceSimulation(width, height, gravity)\<close> records its three arguments.
\<close>

datatype simulationHandle = Simulation jsval jsval jsval

definition createForceSimulation :: "jsval \<Rightarrow> jsval \<Rightarrow> jsval \<Rightarrow> simulationHandle" where
  "createForceSimulation width height gravity = Simulation width height gravity"

text \<open>The object that \<open>initializeGraphState\<close> returns.\<close>

record graphState =
  stateId :: string
  config :: props
  links :: matrix
  d3Links :: "props list"
  nodes :: props
  d3Nodes :: "props list"
  highlightedNode :: string
  simulation :: simulationHandle
  newGraphElements :: bool
  configUpdated :: bool
  transform :: int

text \<open>
  The callback of \<open>data.nodes.map\<close> when a previous state with a node map is given:
  the fields of the whitelist are carried over from the state's node of the same id.
\<close>

definition carryOverNode :: "jsval \<Rightarrow> jsval \<Rightarrow> error + props" where
  "carryOverNode state n =
     bindE (getProp n ''id'') (\<lambda>i.
       let stateNode = lookupProp (lookupProp state ''nodes'') (toStr i) in
       if truthy stateNode
       then bindE (pick stateNode NODE_PROPS_WHITELIST) (\<lambda>picked.
              Inr (objectAssign [] [n, JObj picked]))
       else Inr (objectAssign [] [n]))"

text \<open>\<open>id.replace(/ /g, "_")\<close>.\<close>

definition formatId :: "string \<Rightarrow> string" where
  "formatId s = map (\<lambda>c. if c = CHR '' '' then CHR ''_'' else c) s"

text \<open>The clamp of \<open>focusZoom\<close> into \<open>[minZoom, maxZoom]\<close>, written to \<open>newConfig\<close>.\<close>

definition clampFocusZoom :: "props \<Rightarrow> props" where
  "clampFocusZoom newConfig =
     (let minZoom = lookupProp (JObj newConfig) ''minZoom'';
          maxZoom = lookupProp (JObj newConfig) ''maxZoom'';
          focusZoom = lookupProp (JObj newConfig) ''focusZoom''
      in
        if jsGreater focusZoom maxZoom then setProp newConfig ''focusZoom'' maxZoom
        else if jsLess focusZoom minZoom then setProp newConfig ''focusZoom'' minZoom
        else newConfig)"

text \<open>
  The object \<open>graph\<close> of \<open>initializeGraphState\<close>, as the pair of its \<open>nodes\<close> and
  \<open>links\<close>: built over the previous state when it has a node map, and from copies of the
  input otherwise.
\<close>

definition buildGraph ::
  "(jsval \<Rightarrow> jsval \<Rightarrow> bool) \<Rightarrow> jsval list \<Rightarrow> jsval list \<Rightarrow> jsval \<Rightarrow> jsval
     \<Rightarrow> error + (props list \<times> props list)" where
  "buildGraph same dataNodes dataLinks cfg state =
     (if truthy (jsAnd state (lookupProp state ''nodes''))
      then
        bindE (sequenceE (map (carryOverNode state) dataNodes)) (\<lambda>graphNodes.
        bindE (sequenceE
                 (map (\<lambda>(l, index).
                         mapDataLinkToD3Link same l index
                           (jsAnd state (lookupProp state ''d3Links'')) cfg state)
                    (zip dataLinks [0..<length dataLinks]))) (\<lambda>graphLinks.
          Inr (graphNodes, graphLinks)))
      else Inr (map (\<lambda>n. objectAssign [] [n]) dataNodes,
                map (\<lambda>l. objectAssign [] [l]) dataLinks))"

text \<open>
  \<open>initializeGraphState({data, id, config}, state)\<close>. The default configuration
  (\<open>graph.config\<close>, not among the sources) is the parameter \<open>defaultConfig\<close>; \<open>data.nodes\<close>
  and \<open>data.links\<close> are the arguments \<open>dataNodes\<close> and \<open>dataLinks\<close>, \<open>id\<close> is a string,
  \<open>config\<close> and \<open>state\<close> are \<open>undefined\<close> when not given.
\<close>

definition initializeGraphState ::
  "(jsval \<Rightarrow> jsval \<Rightarrow> bool) \<Rightarrow> jsval \<Rightarrow> jsval list option \<Rightarrow> jsval list \<Rightarrow> string \<Rightarrow> jsval \<Rightarrow> jsval
     \<Rightarrow> error + graphState" where
  "initializeGraphState same defaultConfig dataNodes dataLinks gid cfg state =
     bindE (validateGraphData same dataNodes dataLinks) (\<lambda>u.
     bindE (buildGraph same (case dataNodes of Some xs \<Rightarrow> xs | None \<Rightarrow> []) dataLinks cfg state)
       (\<lambda>(graphNodes, graphLinks).
     bindE (merge defaultConfig (jsOr cfg (JObj [])) 0) (\<lambda>merged.
     let newConfig = objectAssign [] [merged] in
     bindE (initializeLinks (map JObj graphLinks) (JObj newConfig)) (\<lambda>linksMatrix.
     bindE (initializeNodes graphNodes) (\<lambda>initialized.
       let nodeMap = tagOrphanNodes initialized linksMatrix;
           formatedId = formatId gid;
           sim = createForceSimulation
                   (lookupProp (JObj newConfig) ''width'')
                   (lookupProp (JObj newConfig) ''height'')
                   (jsAnd (lookupProp (JObj newConfig) ''d3'')
                      (lookupProp (lookupProp (JObj newConfig) ''d3'') ''gravity''))
       in
         Inr \<lparr> stateId = formatedId,
               config = clampFocusZoom newConfig,
               links = linksMatrix,
               d3Links = graphLinks,
               nodes = nodeMap,
               d3Nodes = map initializeNode graphNodes,
               highlightedNode = [],
               simulation = sim,
               newGraphElements = False,
               configUpdated = False,
               transform = 1 \<rparr>)))))"

text \<open>
  A state as the next call reads it: \<open>state.nodes\<close>, \<open>state.d3Links\<close> and
  \<open>state.config\<close>.
\<close>

definition stateToJs :: "graphState \<Rightarrow> jsval" where
  "stateToJs st =
     JObj [(''config'', JObj (config st)),
           (''d3Links'', JArr (map JObj (d3Links st))),
           (''nodes'', JObj (nodes st))]"



text \<open>
  The oracle \<open>same\<close>, told that \<open>x\<close> and \<open>y\<close> are two different objects: one of
  them has just been allocated.
\<close>

definition distinctRefs ::
  "(jsval \<Rightarrow> jsval \<Rightarrow> bool) \<Rightarrow> jsval \<Rightarrow> jsval \<Rightarrow> jsval \<Rightarrow> jsval \<Rightarrow> bool" where
  "distinctRefs same x y = (\<lambda>a b. same a b \<and> (a, b) \<noteq> (x, y))"

text \<open>
  \<open>checkForGraphElementsChanges(nextProps, currentState)\<close>, on \<open>nextProps.data.nodes\<close>,
  \<open>nextProps.data.links\<close>, \<open>currentState.d3Nodes\<close> and \<open>currentState.d3Links\<close>. The
  result is the pair \<open>(graphElementsUpdated, newGraphElements)\<close>. The arrays that
  \<open>map\<close> returns are new objects.
\<close>

definition checkForGraphElementsChanges ::
  "(jsval \<Rightarrow> jsval \<Rightarrow> bool) \<Rightarrow> jsval list \<Rightarrow> jsval list \<Rightarrow> jsval list \<Rightarrow> jsval list
     \<Rightarrow> error + (bool \<times> bool)" where
  "checkForGraphElementsChanges same nextDataNodes nextDataLinks stateNodes stateLinks =
     bindE (sequenceE (map (\<lambda>n. antiPick n NODE_PROPERTIES_DISCARD_TO_COMPARE) nextDataNodes))
       (\<lambda>nextNodes.
     let nextLinks = JArr nextDataLinks in
     bindE (sequenceE (map (\<lambda>n. antiPick n NODE_PROPERTIES_DISCARD_TO_COMPARE) stateNodes))
       (\<lambda>stateD3Nodes.
     bindE (sequenceE
              (map (\<lambda>l. bindE (endpointId l ''source'') (\<lambda>s.
                         bindE (endpointId l ''target'') (\<lambda>t.
                           Inr [(''source'', s), (''target'', t)])))
                 stateLinks))
       (\<lambda>stateD3Links.
     let a1 = JArr (map JObj nextNodes);
         a2 = JArr (map JObj stateD3Nodes);
         a3 = JArr (map JObj stateD3Links)
     in
     bindE (isDeepEqual (distinctRefs same a1 a2) a1 a2 0) (\<lambda>nodesEqual.
     bindE (if nodesEqual then isDeepEqual (distinctRefs same nextLinks a3) nextLinks a3 0
            else Inr False) (\<lambda>bothEqual.
     let graphElementsUpdated = (\<not> bothEqual) in
     if length nextNodes \<noteq> length stateD3Nodes \<or> length nextDataLinks \<noteq> length stateD3Links
     then Inr (graphElementsUpdated, True)
     else
       let i1 = JArr (map (\<lambda>n. JObj [(''id'', lookupProp (JObj n) ''id'')]) nextNodes);
           i2 = JArr (map (\<lambda>n. JObj [(''id'', lookupProp (JObj n) ''id'')]) stateD3Nodes)
       in
       bindE (isDeepEqual (distinctRefs same i1 i2) i1 i2 0) (\<lambda>idsEqual.
         if \<not> idsEqual then Inr (graphElementsUpdated, True)
         else
           let a4 = JArr (map (\<lambda>l. JObj [(''source'', lookupProp (JObj l) ''source''),
                                         (''target'', lookupProp (JObj l) ''target'')])
                            stateD3Links)
           in
           bindE (isDeepEqual (distinctRefs same nextLinks a4) nextLinks a4 0) (\<lambda>linksEqual.
             Inr (graphElementsUpdated, \<not> linksEqual))))))))"

section \<open>Graph/builder\<close>

text \<open>
  What \<open>buildLinkProps\<close> takes from outside the sources: the path and marker helpers
  (\<open>link.helper\<close>, \<open>marker.helper\<close>), two constants of \<open>graph.const\<close>, and the
  arithmetic of the language on numbers (\<open>*\<close>, \<open>/\<close>, \<open>+\<close>), none of which throws.
\<close>

record builderEnv =
  buildLinkPathDefinition :: "jsval \<Rightarrow> jsval \<Rightarrow> jsval"
  getMarkerId :: "jsval \<Rightarrow> jsval \<Rightarrow> jsval \<Rightarrow> jsval"
  KEYWORDS_SAME :: jsval
  LINK_CLASS_NAME :: jsval
  times :: "jsval \<Rightarrow> jsval \<Rightarrow> jsval"
  divide :: "jsval \<Rightarrow> jsval \<Rightarrow> jsval"
  plus :: "jsval \<Rightarrow> jsval \<Rightarrow> jsval"

text \<open>\<open>m[a][b]\<close> on the adjacency matrix: a TypeError when the row \<open>m[a]\<close> is missing.\<close>

definition matrixEntry :: "matrix \<Rightarrow> string \<Rightarrow> string \<Rightarrow> error + jsval" where
  "matrixEntry m a b =
     (case map_of m a of
        None \<Rightarrow> Inl TypeError
      | Some row \<Rightarrow> Inr (lookupProp (JObj row) b))"

definition buildLinkProps ::
  "(jsval \<Rightarrow> jsval \<Rightarrow> bool) \<Rightarrow> builderEnv \<Rightarrow> jsval \<Rightarrow> props \<Rightarrow> matrix \<Rightarrow> jsval \<Rightarrow> jsval \<Rightarrow> jsval
     \<Rightarrow> jsval \<Rightarrow> jsval \<Rightarrow> error + props" where
  "buildLinkProps same env link nodeMap linksMatrix cfg linkCallbacks hNode hLink zoom =
     bindE (getProp link ''source'') (\<lambda>source.
     bindE (getProp link ''target'') (\<lambda>target.
     let sourceNode = lookupProp (JObj nodeMap) (toStr source);
         targetNode = lookupProp (JObj nodeMap) (toStr target);
         x1 = jsOr (jsAnd sourceNode (lookupProp sourceNode ''x'')) (JNum 0);
         y1 = jsOr (jsAnd sourceNode (lookupProp sourceNode ''y'')) (JNum 0);
         x2 = jsOr (jsAnd targetNode (lookupProp targetNode ''x'')) (JNum 0);
         y2 = jsOr (jsAnd targetNode (lookupProp targetNode ''y'')) (JNum 0)
     in
     bindE (getProp cfg ''link'') (\<lambda>cfgLink.
     bindE (getProp cfgLink ''type'') (\<lambda>linkType.
     let d = buildLinkPathDefinition env
               (JObj [(''source'', JObj [(''x'', x1), (''y'', y1)]),
                      (''target'', JObj [(''x'', x2), (''y'', y2)])])
               linkType;
         degree = lookupProp cfg ''highlightDegree'';
         mainNodeParticipates =
           (if strictEq noSharing degree (JNum 0) then False
            else if strictEq noSharing degree (JNum 2) then True
            else strictEq same source hNode \<or> strictEq same target hNode)
     in
     bindE (if mainNodeParticipates
            then bindE (getProp sourceNode ''highlighted'') (\<lambda>h1.
                   if truthy h1 then getProp targetNode ''highlighted'' else Inr h1)
            else Inr (JBool False)) (\<lambda>reasonNode.
     let reasonLink =
           JBool (strictEq same source (jsAnd hLink (lookupProp hLink ''source''))
                  \<and> strictEq same target (jsAnd hLink (lookupProp hLink ''target'')));
         highlight = jsOr reasonNode reasonLink;
         opacity =
           (if truthy (jsOr hNode (jsAnd hLink (lookupProp hLink ''source'')))
            then (if truthy highlight then lookupProp cfgLink ''opacity''
                  else lookupProp cfg ''highlightOpacity'')
            else jsOr (lookupProp link ''opacity'') (lookupProp cfgLink ''opacity''));
         stroke =
           (if truthy highlight
            then (if strictEq same (lookupProp cfgLink ''highlightColor'') (KEYWORDS_SAME env)
                  then lookupProp cfgLink ''color''
                  else lookupProp cfgLink ''highlightColor'')
            else jsOr (lookupProp link ''color'') (lookupProp cfgLink ''color''));
         strokeWidth0 =
           times env (jsOr (lookupProp link ''strokeWidth'') (lookupProp cfgLink ''strokeWidth''))
             (divide env (JNum 1) zoom)
     in
     bindE (if truthy (lookupProp cfgLink ''semanticStrokeWidth'')
            then
              bindE (matrixEntry linksMatrix (toStr source) (toStr target)) (\<lambda>v1.
              bindE (if truthy v1 then Inr v1
                     else bindE (matrixEntry linksMatrix (toStr target) (toStr source)) (\<lambda>v2.
                            Inr (jsOr v2 (JNum 1)))) (\<lambda>linkValue.
                Inr (plus env strokeWidth0
                       (divide env (times env linkValue strokeWidth0) (JNum 10)))))
            else Inr strokeWidth0) (\<lambda>strokeWidth.
     let markerId = (if truthy (lookupProp cfg ''directed'')
                     then getMarkerId env highlight zoom cfg else JNull);
         t = divide env (JNum 1) zoom;
         renderLabel = truthy (lookupProp cfgLink ''renderLabel'');
         label = (if renderLabel
                  then lookupProp link (toStr (lookupProp cfgLink ''labelProperty'')) else JNull);
         fontSize = (if renderLabel
                     then jsOr (lookupProp link ''fontSize'') (lookupProp cfgLink ''fontSize'')
                     else JNull);
         fontColor = (if renderLabel
                      then jsOr (lookupProp link ''fontColor'') (lookupProp cfgLink ''fontColor'')
                      else JNull);
         fontWeight = (if renderLabel
                       then (if truthy highlight then lookupProp cfgLink ''highlightFontWeight''
                             else lookupProp cfgLink ''fontWeight'')
                       else JNull)
     in
     bindE (getProp linkCallbacks ''onClickLink'') (\<lambda>onClickLink.
       Inr [(''markerId'', markerId),
            (''d'', d),
            (''source'', source),
            (''target'', target),
            (''strokeWidth'', strokeWidth),
            (''stroke'', stroke),
            (''label'', label),
            (''mouseCursor'', lookupProp cfgLink ''mouseCursor''),
            (''fontColor'', fontColor),
            (''fontSize'', times env fontSize t),
            (''fontWeight'', fontWeight),
            (''className'', LINK_CLASS_NAME env),
            (''opacity'', opacity),
            (''onClickLink'', onClickLink),
            (''onRightClickLink'', lookupProp linkCallbacks ''onRightClickLink''),
            (''onMouseOverLink'', lookupProp linkCallbacks ''onMouseOverLink''),
            (''onMouseOutLink'', lookupProp linkCallbacks ''onMouseOutLink'')])))))))"

section \<open>updateNodeHighlightedValue on a store\<close>

text \<open>
  Whether a function mutates its argument is a question about references. Here objects
  live in a store, a list of objects addressed by their index; a value is a primitive or
  the address of an object; \<open>Object.assign\<close> and \<open>obj[key] = v\<close> write to the store, an
  object literal allocates at the next free address.
\<close>

datatype hval =
    HUndefined
  | HNull
  | HBool bool
  | HNum int
  | HStr string
  | HRef nat

type_synonym hobj = "(string \<times> hval) list"

type_synonym heap = "hobj list"

fun hTruthy :: "hval \<Rightarrow> bool" where
  "hTruthy HUndefined = False"
| "hTruthy HNull = False"
| "hTruthy (HBool b) = b"
| "hTruthy (HNum n) = (n \<noteq> 0)"
| "hTruthy (HStr s) = (s \<noteq> [])"
| "hTruthy (HRef a) = True"

definition hNullish :: "hval \<Rightarrow> bool" where
  "hNullish v = (v = HUndefined \<or> v = HNull)"

text \<open>The own enumerable properties of a value: those of the object at its address.\<close>

fun heapProps :: "heap \<Rightarrow> hval \<Rightarrow> hobj" where
  "heapProps h (HRef a) = (if a < length h then h ! a else [])"
| "heapProps h (HStr s) = zip (map decimal [0..<length s]) (map (\<lambda>c. HStr [c]) s)"
| "heapProps h v = []"

definition heapLookup :: "heap \<Rightarrow> hval \<Rightarrow> string \<Rightarrow> hval" where
  "heapLookup h v k =
     (case map_of (heapProps h v) k of
        Some x \<Rightarrow> x
      | None \<Rightarrow> (case v of
                   HStr s \<Rightarrow> (if k = ''length'' then HNum (int (length s)) else HUndefined)
                 | _ \<Rightarrow> HUndefined))"

definition heapGet :: "heap \<Rightarrow> hval \<Rightarrow> string \<Rightarrow> error + hval" where
  "heapGet h v k = (if hNullish v then Inl TypeError else Inr (heapLookup h v k))"

text \<open>An object literal with the given properties.\<close>

definition allocate :: "heap \<Rightarrow> hobj \<Rightarrow> heap \<times> nat" where
  "allocate h ps = (h @ [ps], length h)"

text \<open>\<open>obj[k] = v\<close> on the object at address \<open>a\<close>.\<close>

definition heapSet :: "heap \<Rightarrow> nat \<Rightarrow> string \<Rightarrow> hval \<Rightarrow> heap" where
  "heapSet h a k v = (if a < length h then h[a := AList.update k v (h ! a)] else h)"

text \<open>\<open>Object.assign(target, s1, ..., sn)\<close> with the target at address \<open>a\<close>.\<close>

definition heapAssignFrom :: "nat \<Rightarrow> heap \<Rightarrow> hval \<Rightarrow> heap" where
  "heapAssignFrom a h source = foldl (\<lambda>h' (k, v). heapSet h' a k v) h (heapProps h source)"

definition heapAssign :: "heap \<Rightarrow> nat \<Rightarrow> hval list \<Rightarrow> heap" where
  "heapAssign h a sources = foldl (heapAssignFrom a) h sources"

text \<open>
  \<open>Object.assign({}, old, { highlighted: value })\<close>: a new object with the properties of
  \<open>old\<close> and the new flag.
\<close>

definition highlightedCopy :: "heap \<Rightarrow> hval \<Rightarrow> hval \<Rightarrow> heap \<times> nat" where
  "highlightedCopy h old val =
     (let (h1, target) = allocate h [];
          (h2, flag) = allocate h1 [(''highlighted'', val)]
      in (heapAssign h2 target [old, HRef flag], target))"

text \<open>\<open>_defineProperty({}, key, v)\<close>.\<close>

definition defineProperty :: "heap \<Rightarrow> string \<Rightarrow> hval \<Rightarrow> heap \<times> nat" where
  "defineProperty h k v = (let (h1, obj) = allocate h [] in (heapSet h1 obj k v, obj))"

text \<open>
  The callback of the reduce, whose accumulator is the object \<open>updatedNodes\<close> at address
  \<open>acc\<close>: \<open>Object.assign(acc, _defineProperty({}, linkId, updatedNode))\<close>.
\<close>

definition highlightNeighbour :: "hval \<Rightarrow> nat \<Rightarrow> heap \<Rightarrow> string \<Rightarrow> heap" where
  "highlightNeighbour val acc h linkId =
     (let (h1, updatedNode) = highlightedCopy h (heapLookup h (HRef acc) linkId) val;
          (h2, single) = defineProperty h1 linkId (HRef updatedNode)
      in heapAssign h2 acc [HRef single])"

definition updateNodeHighlightedValueH ::
  "heap \<Rightarrow> hval \<Rightarrow> hval \<Rightarrow> hval \<Rightarrow> string \<Rightarrow> hval \<Rightarrow> error + (heap \<times> hval \<times> string)" where
  "updateNodeHighlightedValueH h nodesRef linksRef cfg nodeId valueArg =
     (let val = (if valueArg = HUndefined then HBool False else valueArg);
          highlighted = (if hTruthy val then nodeId else [])
      in
        bindE (heapGet h nodesRef nodeId) (\<lambda>old.
        let (h1, node) = highlightedCopy h old val;
            (h2, updatedNodes) = allocate h1 [];
            (h3, single) = defineProperty h2 nodeId (HRef node);
            h4 = heapAssign h3 updatedNodes [nodesRef, HRef single]
        in
          bindE (heapGet h4 linksRef nodeId) (\<lambda>row.
            if hTruthy row then
              bindE (heapGet h4 cfg ''highlightDegree'') (\<lambda>degree.
                if degree \<noteq> HNum 0
                then Inr (foldl (highlightNeighbour val updatedNodes) h4
                            (map fst (heapProps h4 row)),
                          HRef updatedNodes, highlighted)
                else Inr (h4, HRef updatedNodes, highlighted))
            else Inr (h4, HRef updatedNodes, highlighted))))"

section \<open>Notions used in the statements\<close>

definition isNumberOrBoolean :: "jsval \<Rightarrow> bool" where
  "isNumberOrBoolean v = (case v of JNum n \<Rightarrow> True | JBool b \<Rightarrow> True | _ \<Rightarrow> False)"

text \<open>A default configuration to run the functions on.\<close>

definition exampleConfig :: jsval where
  "exampleConfig =
     JObj [(''directed'', JBool False), (''collapsible'', JBool True),
           (''highlightDegree'', JNum 1), (''minZoom'', JNum 1), (''maxZoom'', JNum 8),
           (''focusZoom'', JNum 1), (''width'', JNum 800), (''height'', JNum 400)]"

text \<open>
  The data contract of the input: nodes and links are objects (as every object, with
  each key at most once). A value matches a node
  when it is strictly equal to the node's id; a link passes the validation when both its
  endpoints match a node and its value, if it declares one, is a number.
\<close>

definition plainObject :: "jsval \<Rightarrow> bool" where
  "plainObject v = (case v of JObj ps \<Rightarrow> distinct (map fst ps) | _ \<Rightarrow> False)"

definition matchesNode :: "(jsval \<Rightarrow> jsval \<Rightarrow> bool) \<Rightarrow> jsval list \<Rightarrow> jsval \<Rightarrow> bool" where
  "matchesNode same ns v = list_ex (\<lambda>n. strictEq same (lookupProp n ''id'') v) ns"

definition numericIfDeclared :: "jsval \<Rightarrow> bool" where
  "numericIfDeclared v = (v = JUndefined \<or> typeof v = ''number'')"

definition linkPasses :: "(jsval \<Rightarrow> jsval \<Rightarrow> bool) \<Rightarrow> jsval list \<Rightarrow> jsval \<Rightarrow> bool" where
  "linkPasses same ns l =
     (plainObject l \<and> matchesNode same ns (lookupProp l ''source'')
        \<and> matchesNode same ns (lookupProp l ''target'')
        \<and> numericIfDeclared (lookupProp l ''value''))"

text \<open>The \<open>highlighted\<close> flag of the node that a node map holds under a key.\<close>

definition highlightedFlag :: "props \<Rightarrow> string \<Rightarrow> jsval" where
  "highlightedFlag nodeMap k = lookupProp (lookupProp (JObj nodeMap) k) ''highlighted''"

text \<open>A store extends another when it keeps every object of it as it is.\<close>

definition extends :: "heap \<Rightarrow> heap \<Rightarrow> bool" where
  "extends h h' = (length h \<le> length h' \<and> take (length h) h' = h)"

text \<open>
  A store to run the function on: the node map \<open>{A: node, B: node}\<close> at address 0, the
  nodes A and B at 1 and 2, the matrix \<open>{A: row}\<close> at 3, the row \<open>{B: 1}\<close> at 4 and the
  configuration at 5.
\<close>

definition exampleStore :: heap where
  "exampleStore =
     [[(''A'', HRef 1), (''B'', HRef 2)],
      [(''id'', HStr ''A'')],
      [(''id'', HStr ''B'')],
      [(''A'', HRef 4)],
      [(''B'', HNum 1)],
      [(''highlightDegree'', HNum 1)]]"

text \<open>
  A node of a valid input is an object whose id is a string or a number; its key in the
  node map is the id as a string. The first initialization is the call on a state that
  has no node map (in particular, on no state).
\<close>

definition primitiveId :: "jsval \<Rightarrow> bool" where
  "primitiveId v = (case v of JStr s \<Rightarrow> True | JNum n \<Rightarrow> True | _ \<Rightarrow> False)"

definition validNode :: "jsval \<Rightarrow> bool" where
  "validNode n = (plainObject n \<and> primitiveId (lookupProp n ''id''))"

definition nodeKey :: "jsval \<Rightarrow> string" where
  "nodeKey n = toStr (lookupProp n ''id'')"

definition firstInitialization :: "jsval \<Rightarrow> bool" where
  "firstInitialization state = (\<not> truthy (jsAnd state (lookupProp state ''nodes'')))"

definition linkEndpoints :: "jsval list \<Rightarrow> string list" where
  "linkEndpoints ls =
     concat (map (\<lambda>l. [toStr (lookupProp l ''source''), toStr (lookupProp l ''target'')]) ls)"

text \<open>The \<open>_orphan\<close> flag of the node that the state's node map holds under a key.\<close>

definition orphanFlag :: "graphState \<Rightarrow> string \<Rightarrow> jsval" where
  "orphanFlag st k = lookupProp (lookupProp (JObj (nodes st)) k) ''_orphan''"

definition notHidden :: "jsval \<Rightarrow> bool" where
  "notHidden l = (\<not> truthy (lookupProp l ''isHidden''))"

text \<open>Whether the matrix has an entry for \<open>b\<close> in the row of \<open>a\<close>.\<close>

definition hasEntry :: "matrix \<Rightarrow> string \<Rightarrow> string \<Rightarrow> bool" where
  "hasEntry m a b = (case map_of m a of None \<Rightarrow> False | Some row \<Rightarrow> b \<in> fst ` set row)"

definition nonzeroRows :: "matrix \<Rightarrow> bool" where
  "nonzeroRows m = (\<forall>a row. map_of m a = Some row \<longrightarrow> (\<forall>w \<in> snd ` set row. nonzero w))"

text \<open>
  The node that the previous state holds for an input node, \<open>state.nodes[n.id]\<close>. A
  previous state is consistent when each node of its node map that has an id is stored
  under that id, as in every state that \<open>initializeGraphState\<close> returns.
\<close>

definition stateNode :: "jsval \<Rightarrow> jsval \<Rightarrow> jsval" where
  "stateNode state n = lookupProp (lookupProp state ''nodes'') (nodeKey n)"

definition consistentState :: "jsval \<Rightarrow> bool" where
  "consistentState state =
     list_all (\<lambda>(k, sn). if truthy sn \<and> hasOwn sn ''id''
                         then primitiveId (lookupProp sn ''id'') \<and> toStr (lookupProp sn ''id'') = k
                         else True)
       (ownProps (lookupProp state ''nodes''))"

definition positionFields :: "string list" where
  "positionFields = [''x'', ''y'', ''vx'', ''vy'']"

text \<open>
  An ordinary name is one that an object does not inherit from \<open>Object.prototype\<close>: as an
  endpoint of a link it is looked up in the matrix among the rows alone.
\<close>

definition ordinaryName :: "string \<Rightarrow> bool" where
  "ordinaryName k = (k \<notin> set objectPrototypeNames)"

text \<open>
  A row \<open>row\<close> of the node \<open>a\<close> is zero around \<open>k\<close> when its entry for \<open>k\<close>, if any, is 0
  and, in case \<open>a\<close> is \<open>k\<close> itself, all its entries are 0; a matrix is, when all its rows
  are. Every link incident to \<open>k\<close> is hidden.
\<close>

definition zeroRow :: "string \<Rightarrow> string \<Rightarrow> props \<Rightarrow> bool" where
  "zeroRow k a row =
     ((case map_of row k of Some w \<Rightarrow> w = JNum 0 | None \<Rightarrow> True)
      \<and> (if a = k then list_all (\<lambda>(b, w). w = JNum 0) row else True))"

definition zeroEntries :: "matrix \<Rightarrow> string \<Rightarrow> bool" where
  "zeroEntries m k = list_all (\<lambda>(a, row). zeroRow k a row) m"

definition incidentHidden :: "string \<Rightarrow> jsval list \<Rightarrow> bool" where
  "incidentHidden k ls =
     list_all (\<lambda>l. if toStr (lookupProp l ''source'') = k \<or> toStr (lookupProp l ''target'') = k
                    then truthy (lookupProp l ''isHidden'') else True) ls"

section \<open>Basic facts\<close>

lemma keysOf_simps [simp]:
  "keysOf (JNum n) = []" "keysOf (JBool b) = []" "keysOf JUndefined = []" "keysOf JNull = []"
  "keysOf (JObj ps) = map fst ps"
  by (simp_all add: keysOf_def)

lemma keysOf_falsy: "\<not> truthy v \<Longrightarrow> keysOf v = []"
  by (cases v) (auto simp: keysOf_def)

lemma bindE_Inr_iff: "bindE m f = Inr r \<longleftrightarrow> (\<exists>v. m = Inr v \<and> f v = Inr r)"
  by (cases m) (auto simp: bindE_def)

lemma bindE_Inl_iff: "bindE m f = Inl e \<longleftrightarrow> (m = Inl e \<or> (\<exists>v. m = Inr v \<and> f v = Inl e))"
  by (cases m) (auto simp: bindE_def)

lemma setProp_keys [simp]: "fst ` set (setProp ps k v) = insert k (fst ` set ps)"
proof -
  have "set (map fst (AList.update k v ps)) = insert k (set (map fst ps))"
    by (auto simp: update_keys)
  then show ?thesis by (simp add: setProp_def)
qed

lemma assignFrom_keys [simp]: "fst ` set (assignFrom t s) = fst ` set t \<union> set (keysOf s)"
proof -
  have "fst ` set (foldl (\<lambda>t (k, v). setProp t k v) t ps) = fst ` set t \<union> fst ` set ps" for ps
    by (induction ps arbitrary: t) (simp_all add: split_beta)
  then show ?thesis by (simp add: assignFrom_def keysOf_def)
qed

lemma objectAssign_keys [simp]:
  "fst ` set (objectAssign t ss) = fst ` set t \<union> (\<Union>s \<in> set ss. set (keysOf s))"
  unfolding objectAssign_def
  by (induction ss arbitrary: t) (simp_all add: Un_assoc)

lemma lookupProp_absent: "k \<notin> set (map fst ps) \<Longrightarrow> lookupProp (JObj ps) k = JUndefined"
  by (auto simp: lookupProp_def map_of_eq_None_iff[THEN iffD2] split: option.splits)

lemma jsLess_undefined [simp]: "jsLess a JUndefined = False" "jsLess JUndefined b = False"
  by (auto simp: jsLess_def split: jsval.splits option.splits prod.splits)

lemma clampFocusZoom_keys [simp]: "fst ` set (clampFocusZoom c) = fst ` set c"
proof (cases "''focusZoom'' \<in> set (map fst c)")
  case True
  then show ?thesis
    by (auto simp: clampFocusZoom_def Let_def)
next
  case False
  then have "lookupProp (JObj c) ''focusZoom'' = JUndefined" by (rule lookupProp_absent)
  then show ?thesis
    by (simp add: clampFocusZoom_def Let_def jsGreater_def)
qed

lemma lookupProp_JObj: "lookupProp (JObj ps) k = (case map_of ps k of Some x \<Rightarrow> x | None \<Rightarrow> JUndefined)"
  by (simp add: lookupProp_def split: option.splits)

lemma map_of_setProp [simp]: "map_of (setProp ps k v) = (map_of ps)(k \<mapsto> v)"
  by (simp add: setProp_def update_conv')

lemma map_of_assignLoop:
  "map_of (foldl (\<lambda>t (k, v). setProp t k v) t ps) = map_of t ++ map_of (rev ps)"
  by (induction ps arbitrary: t) (auto simp: split_beta)

lemma map_of_assignFrom: "map_of (assignFrom t s) = map_of t ++ map_of (rev (ownProps s))"
  by (simp add: assignFrom_def map_of_assignLoop)

lemma distinct_map_of_rev: "distinct (map fst xs) \<Longrightarrow> map_of (rev xs) = map_of xs"
proof (induction xs)
  case Nil
  then show ?case by simp
next
  case (Cons p xs)
  then have "fst p \<notin> dom (map_of xs)"
    by (auto simp: dom_map_of_conv_image_fst)
  then have "[fst p \<mapsto> snd p] ++ map_of xs = (map_of xs)(fst p \<mapsto> snd p)"
    by (auto simp: map_add_def fun_eq_iff split: option.splits)
  with Cons show ?case by (cases p) simp
qed

lemma map_of_assignFrom_distinct:
  "distinct (map fst (ownProps s)) \<Longrightarrow> map_of (assignFrom t s) = map_of t ++ map_of (ownProps s)"
  by (simp add: map_of_assignFrom distinct_map_of_rev)

lemma map_of_objectAssign_two:
  "map_of (objectAssign t [a, b]) = map_of t ++ map_of (rev (ownProps a)) ++ map_of (rev (ownProps b))"
  by (simp add: objectAssign_def map_of_assignFrom)

lemma map_of_objectAssign_one:
  "map_of (objectAssign t [a]) = map_of t ++ map_of (rev (ownProps a))"
  by (simp add: objectAssign_def map_of_assignFrom)

text \<open>What a successful call of \<open>initializeGraphState\<close> has computed on its way.\<close>

lemma initializeGraphState_Inr:
  assumes "initializeGraphState same dc dn dl gid cfg state = Inr st"
  obtains ns graphNodes graphLinks merged linksMatrix initialized where
    "validateGraphData same dn dl = Inr ()"
    "dn = Some ns" "ns \<noteq> []"
    "buildGraph same ns dl cfg state = Inr (graphNodes, graphLinks)"
    "merge dc (jsOr cfg (JObj [])) 0 = Inr merged"
    "initializeLinks (map JObj graphLinks) (JObj (objectAssign [] [merged])) = Inr linksMatrix"
    "initializeNodes graphNodes = Inr initialized"
    "nodes st = tagOrphanNodes initialized linksMatrix"
    "links st = linksMatrix"
    "config st = clampFocusZoom (objectAssign [] [merged])"
    "d3Nodes st = map initializeNode graphNodes"
    "d3Links st = graphLinks"
    "highlightedNode st = []"
proof -
  from assms have v: "validateGraphData same dn dl = Inr ()"
    by (auto simp: initializeGraphState_def bindE_Inr_iff)
  then obtain ns where ns: "dn = Some ns" "ns \<noteq> []"
    by (auto simp: validateGraphData_def split: option.splits if_splits)
  from assms v ns show ?thesis
    by (auto simp: initializeGraphState_def bindE_Inr_iff Let_def intro!: that)
qed

lemma sequenceE_map_fst:
  assumes "sequenceE (map f ks) = Inr es" "\<And>k p. f k = Inr p \<Longrightarrow> fst p = k"
  shows "map fst es = ks"
  using assms
proof (induction ks arbitrary: es)
  case Nil
  then show ?case by simp
next
  case (Cons k ks)
  then show ?case
    by (auto split: sum.splits)
qed

section \<open>utils: isDeepEqual\<close>

lemma isDeepEqual_no_keys:
  assumes "keysOf o1 = []" "keysOf o2 = []" "\<not> nullish o1" "\<not> nullish o2"
    "isEmptyObject o1 = isEmptyObject o2"
  shows "isDeepEqual same o1 o2 d = Inr True"
  using assms
  by (subst isDeepEqual.simps) (auto simp: objectKeys_def bindE_def)

lemma isDeepEqual_numbers_booleans:
  assumes "isNumberOrBoolean o1" "isNumberOrBoolean o2"
  shows "isDeepEqual same o1 o2 d = Inr True"
proof -
  from assms have "keysOf o1 = []" "keysOf o2 = []" "\<not> nullish o1" "\<not> nullish o2"
    "\<not> isEmptyObject o1" "\<not> isEmptyObject o2"
    by (auto simp: isNumberOrBoolean_def nullish_def isEmptyObject_def split: jsval.splits)
  then show ?thesis by (simp add: isDeepEqual_no_keys)
qed

lemma isDeepEqual_False_cause:
  assumes "isDeepEqual same o1 o2 d = Inr False"
  shows "keysOf o1 \<noteq> [] \<or> keysOf o2 \<noteq> [] \<or> isEmptyObject o1 \<noteq> isEmptyObject o2"
proof (rule ccontr)
  assume "\<not> ?thesis"
  with assms show False
    by (subst (asm) isDeepEqual.simps) (auto simp: objectKeys_def bindE_def split: if_splits)
qed

text \<open>
  Claim C10, as amended. For any two arguments that are numbers or booleans, at any depth
  and whether or not they are equal, \<open>isDeepEqual\<close> returns true: both have an empty
  own-key set, so the loop over the keys never runs and nothing is recorded in \<open>diffs\<close>.
  A result of false has one of two causes: an argument with enumerable own properties, or
  the guard before the loop, which answers false when exactly one of the arguments is an
  empty object.
\<close>

theorem isDeepEqual_primitives_true:
  "(isNumberOrBoolean a \<and> isNumberOrBoolean b \<longrightarrow> isDeepEqual same a b d = Inr True)
   \<and> (isDeepEqual same o1 o2 d' = Inr False \<longrightarrow>
        keysOf o1 \<noteq> [] \<or> keysOf o2 \<noteq> [] \<or> isEmptyObject o1 \<noteq> isEmptyObject o2)"
  using isDeepEqual_numbers_booleans isDeepEqual_False_cause by blast

text \<open>
  The theorem at \<open>isDeepEqual(1, 2)\<close> and at \<open>isDeepEqual({a: 1}, {a: 2})\<close>: the first is
  true, the second is false and its arguments have own keys.
\<close>

theorem isDeepEqual_primitives_true_witness:
  "isDeepEqual noSharing (JNum 1) (JNum 2) 0 = Inr True
   \<and> isDeepEqual noSharing (JObj [(''a'', JNum 1)]) (JObj [(''a'', JNum 2)]) 0 = Inr False
   \<and> keysOf (JObj [(''a'', JNum 1)]) \<noteq> []"
proof -
  have f: "isDeepEqual noSharing (JObj [(''a'', JNum 1)]) (JObj [(''a'', JNum 2)]) 0 = Inr False"
    by code_simp
  have n: "isNumberOrBoolean (JNum 1) \<and> isNumberOrBoolean (JNum 2)"
    by (simp add: isNumberOrBoolean_def)
  from n f
    isDeepEqual_primitives_true
      [of "JNum 1" "JNum 2" noSharing 0 "JObj [(''a'', JNum 1)]" "JObj [(''a'', JNum 2)]" 0]
  show ?thesis by simp
qed

text \<open>
  The claim as stated fails at \<open>isDeepEqual({}, 1)\<close>: neither argument has an enumerable
  own property, and the inequality is detected all the same.
\<close>

theorem isDeepEqual_empty_object_counterexample:
  "isDeepEqual noSharing (JObj []) (JNum 1) 0 = Inr False
   \<and> keysOf (JObj []) = [] \<and> keysOf (JNum 1) = []"
proof -
  have "isDeepEqual noSharing (JObj []) (JNum 1) 0 = Inr False"
    by code_simp
  then show ?thesis by simp
qed

section \<open>utils: merge\<close>

lemma merge_keys:
  assumes "keysOf a1 \<noteq> []" "merge a1 a2 d = Inr r"
  shows "\<exists>entries. r = JObj entries \<and> map fst entries = keysOf a1"
proof -
  from assms(1) have t: "truthy a1" using keysOf_falsy by blast
  then have u: "a1 \<noteq> JUndefined" by auto
  have j: "jsOr a1 (JObj []) = a1" using t by (simp add: jsOr_def)
  define o2 where "o2 = (if a2 = JUndefined then JObj [] else a2)"
  define f where "f = (\<lambda>k.
                   bindE (getProp o2 k) (\<lambda>v2.
                     if truthy v2 \<and> typeof v2 = ''object'' \<and> typeof (lookupProp a1 k) = ''object''
                          \<and> d < MAX_DEPTH
                     then
                       bindE (merge (lookupProp a1 k) v2 (d + 1)) (\<lambda>r.
                       bindE (hasOwnProperty (lookupProp a1 k) ''length'') (\<lambda>h1.
                         Inr (k, if h1 \<and> hasOwn v2 ''length''
                                 then JArr (map (lookupProp r) (keysOf r))
                                 else r)))
                     else Inr (k, if hasOwn o2 k then v2 else lookupProp a1 k)))"
  have m: "merge a1 a2 d = bindE (sequenceE (map f (keysOf a1))) (\<lambda>entries. Inr (JObj entries))"
    unfolding f_def o2_def
    by (subst merge.simps) (simp add: u j assms(1) Let_def)
  have f: "fst p = k" if "f k = Inr p" for k p
    using that unfolding f_def bindE_def
    by (auto split: sum.splits if_splits)
  from m assms(2) obtain es where "sequenceE (map f (keysOf a1)) = Inr es" "r = JObj es"
    by (auto simp: bindE_def split: sum.splits)
  with f show ?thesis using sequenceE_map_fst by blast
qed

lemma initializeGraphState_config_keys:
  assumes "keysOf dc \<noteq> []" "initializeGraphState same dc dn dl gid cfg state = Inr st"
  shows "fst ` set (config st) = set (keysOf dc)"
proof -
  from assms(2) obtain merged where
    m: "merge dc (jsOr cfg (JObj [])) 0 = Inr merged"
    and c: "config st = clampFocusZoom (objectAssign [] [merged])"
    by (rule initializeGraphState_Inr)
  from merge_keys[OF assms(1) m] obtain es where "merged = JObj es" "map fst es = keysOf dc"
    by blast
  then have "fst ` set es = set (keysOf dc)"
    by (metis set_map)
  with c \<open>merged = JObj es\<close> show ?thesis by simp
qed

text \<open>
  Claim C9. When the base has keys, a result of \<open>merge(base, override)\<close> has exactly the
  keys of the base, so a key of the override that the base lacks is not a property of the
  result. In \<open>initializeGraphState\<close> the base is the default configuration: the keys of
  the returned state's \<open>config\<close> are those of the default configuration, whatever keys the
  user's configuration has.
\<close>

theorem merge_keeps_only_base_keys:
  "(keysOf base \<noteq> [] \<and> merge base override d = Inr r \<longrightarrow>
      keysOf r = keysOf base \<and> (\<forall>k. k \<notin> set (keysOf base) \<longrightarrow> \<not> hasOwn r k))
   \<and> (keysOf defaultConfig \<noteq> []
        \<and> initializeGraphState same defaultConfig dn dl gid cfg state = Inr st \<longrightarrow>
      fst ` set (config st) = set (keysOf defaultConfig))"
proof (intro conjI impI)
  assume a: "keysOf base \<noteq> [] \<and> merge base override d = Inr r"
  then obtain es where es: "r = JObj es" "map fst es = keysOf base"
    using merge_keys by blast
  then show "keysOf r = keysOf base" by simp
  from es show "\<forall>k. k \<notin> set (keysOf base) \<longrightarrow> \<not> hasOwn r k"
    by (auto simp: hasOwn_def)
next
  assume "keysOf defaultConfig \<noteq> []
    \<and> initializeGraphState same defaultConfig dn dl gid cfg state = Inr st"
  then show "fst ` set (config st) = set (keysOf defaultConfig)"
    using initializeGraphState_config_keys by blast
qed

text \<open>
  The theorem at \<open>merge({a: 1}, {a: 5, b: 2})\<close>, which is \<open>{a: 5}\<close>, and at an
  initialization whose user configuration is \<open>{foo: 1, directed: true}\<close>: \<open>foo\<close> is not a
  key of the state's configuration.
\<close>

theorem merge_keeps_only_base_keys_witness:
  "merge (JObj [(''a'', JNum 1)]) (JObj [(''a'', JNum 5), (''b'', JNum 2)]) 0
     = Inr (JObj [(''a'', JNum 5)])
   \<and> \<not> hasOwn (JObj [(''a'', JNum 5)]) ''b''
   \<and> (\<exists>st. initializeGraphState noSharing exampleConfig (Some [JObj [(''id'', JStr ''A'')]]) []
              ''g'' (JObj [(''foo'', JNum 1), (''directed'', JBool True)]) JUndefined = Inr st
          \<and> fst ` set (config st) = set (keysOf exampleConfig)
          \<and> ''foo'' \<notin> fst ` set (config st))"
proof -
  let ?base = "JObj [(''a'', JNum 1)]"
  let ?over = "JObj [(''a'', JNum 5), (''b'', JNum 2)]"
  let ?call = "initializeGraphState noSharing exampleConfig (Some [JObj [(''id'', JStr ''A'')]]) []
                 ''g'' (JObj [(''foo'', JNum 1), (''directed'', JBool True)]) JUndefined"
  have m: "merge ?base ?over 0 = Inr (JObj [(''a'', JNum 5)])"
    by code_simp
  have k: "keysOf ?base \<noteq> []" "keysOf exampleConfig \<noteq> []" "''b'' \<notin> set (keysOf ?base)"
    "''foo'' \<notin> set (keysOf exampleConfig)"
    by (simp_all add: exampleConfig_def)
  have "\<not> isl ?call"
    by code_simp
  then obtain st where st: "?call = Inr st"
    by (cases ?call) auto
  note t1 = merge_keeps_only_base_keys
      [of ?base ?over 0 "JObj [(''a'', JNum 5)]" exampleConfig noSharing
          "Some [JObj [(''id'', JStr ''A'')]]" "[]" "''g''"
          "JObj [(''foo'', JNum 1), (''directed'', JBool True)]" JUndefined st]
  from t1 m k(1,3) have "\<not> hasOwn (JObj [(''a'', JNum 5)]) ''b''"
    by blast
  moreover from t1 k(2) st have "fst ` set (config st) = set (keysOf exampleConfig)"
    by blast
  ultimately show ?thesis
    using m st k(4) by auto
qed

section \<open>Validation\<close>

lemma plainObject_getProp [simp]: "plainObject v \<Longrightarrow> getProp v k = Inr (lookupProp v k)"
  by (auto simp: plainObject_def getProp_def nullish_def split: jsval.splits)

lemma plainObject_truthy [simp]: "plainObject v \<Longrightarrow> truthy v"
  by (auto simp: plainObject_def split: jsval.splits)

lemma findNode_objects:
  assumes "list_all plainObject ns" "plainObject l"
  shows "\<exists>r. findNode same ns l side = Inr r
             \<and> (truthy r \<longleftrightarrow> matchesNode same ns (lookupProp l side))"
  using assms
  by (induction ns) (auto simp: bindE_def matchesNode_def)

lemma validateLink_objects:
  assumes "list_all plainObject ns" "plainObject l"
  shows "validateLink same ns l =
           (if \<not> matchesNode same ns (lookupProp l ''source'')
            then Inl (InvalidLinkError (lookupProp l ''source''))
            else if \<not> matchesNode same ns (lookupProp l ''target'')
            then Inl (InvalidLinkError (lookupProp l ''target''))
            else if \<not> numericIfDeclared (lookupProp l ''value'')
            then Inl (InvalidLinkValueError (lookupProp l ''source'') (lookupProp l ''target''))
            else Inr ())"
proof -
  from findNode_objects[OF assms, of same "''source''"] obtain r1 where
    r1: "findNode same ns l ''source'' = Inr r1"
        "truthy r1 \<longleftrightarrow> matchesNode same ns (lookupProp l ''source'')" by blast
  from findNode_objects[OF assms, of same "''target''"] obtain r2 where
    r2: "findNode same ns l ''target'' = Inr r2"
        "truthy r2 \<longleftrightarrow> matchesNode same ns (lookupProp l ''target'')" by blast
  show ?thesis
    using r1 r2 assms(2)
    by (auto simp: validateLink_def bindE_def numericIfDeclared_def)
qed

lemma validateLink_passes:
  "list_all plainObject ns \<Longrightarrow> linkPasses same ns l \<Longrightarrow> validateLink same ns l = Inr ()"
  by (simp add: validateLink_objects linkPasses_def)

lemma validateLinks_first_failure:
  assumes "list_all plainObject ns" "list_all (linkPasses same ns) pre"
  shows "validateLinks same ns (pre @ l # post) =
           bindE (validateLink same ns l) (\<lambda>u. validateLinks same ns post)"
  using assms
proof (induction pre)
  case Nil
  then show ?case by simp
next
  case (Cons p pre)
  then have "validateLink same ns p = Inr ()"
    by (simp add: validateLink_passes)
  with Cons show ?case by (simp add: bindE_def)
qed

lemma validateLinks_all_pass:
  "list_all plainObject ns \<Longrightarrow> list_all (linkPasses same ns) ls \<Longrightarrow> validateLinks same ns ls = Inr ()"
  by (induction ls) (auto simp: validateLink_passes bindE_def)

lemma initializeGraphState_invalid:
  assumes "validateGraphData same dn dl = Inl e"
  shows "initializeGraphState same dc dn dl gid cfg state = Inl e"
  using assms by (simp add: initializeGraphState_def bindE_def)

lemma validation_first_failing_link:
  assumes "ns \<noteq> []" "list_all plainObject ns" "list_all (linkPasses same ns) pre" "plainObject l"
  shows "validateGraphData same (Some ns) (pre @ l # post) =
           (if \<not> matchesNode same ns (lookupProp l ''source'')
            then Inl (InvalidLinkError (lookupProp l ''source''))
            else if \<not> matchesNode same ns (lookupProp l ''target'')
            then Inl (InvalidLinkError (lookupProp l ''target''))
            else if \<not> numericIfDeclared (lookupProp l ''value'')
            then Inl (InvalidLinkValueError (lookupProp l ''source'') (lookupProp l ''target''))
            else validateLinks same ns post)"
  using assms
  by (simp add: validateGraphData_def validateLinks_first_failure validateLink_objects bindE_def)

text \<open>
  Claim C2, as amended. \<open>initializeGraphState\<close> fails with InsufficientDataError whenever
  the nodes sequence is empty or absent, whatever the links are. Otherwise the links are
  checked in sequence and, for each link, its source, then its target, then its value;
  the call fails at the first check that does not pass: with InvalidLinkError (naming the
  endpoint) when the source or target id matches no node, and with InvalidLinkValueError
  (naming both endpoints) when the link declares a value that is not a number. Hence, on
  nodes and links that are objects, a link that does not pass always makes the call fail
  with one of these two errors. A failure is raised by the validation, before anything is
  built: the call returns an error and no state.
\<close>

theorem initializeGraphState_validation_errors:
  "(dn = None \<or> dn = Some [] \<longrightarrow>
      initializeGraphState same dc dn dl gid cfg state = Inl InsufficientDataError)
   \<and> (ns \<noteq> [] \<and> list_all plainObject ns \<and> list_all (linkPasses same ns) pre \<and> plainObject l \<longrightarrow>
        (\<not> matchesNode same ns (lookupProp l ''source'') \<longrightarrow>
           initializeGraphState same dc (Some ns) (pre @ l # post) gid cfg state
             = Inl (InvalidLinkError (lookupProp l ''source'')))
        \<and> (matchesNode same ns (lookupProp l ''source'')
             \<and> \<not> matchesNode same ns (lookupProp l ''target'') \<longrightarrow>
           initializeGraphState same dc (Some ns) (pre @ l # post) gid cfg state
             = Inl (InvalidLinkError (lookupProp l ''target'')))
        \<and> (matchesNode same ns (lookupProp l ''source'')
             \<and> matchesNode same ns (lookupProp l ''target'')
             \<and> \<not> numericIfDeclared (lookupProp l ''value'') \<longrightarrow>
           initializeGraphState same dc (Some ns) (pre @ l # post) gid cfg state
             = Inl (InvalidLinkValueError (lookupProp l ''source'') (lookupProp l ''target''))))
   \<and> (ns \<noteq> [] \<and> list_all plainObject ns \<and> list_all plainObject ls
        \<and> \<not> list_all (linkPasses same ns) ls \<longrightarrow>
        (\<exists>v. initializeGraphState same dc (Some ns) ls gid cfg state = Inl (InvalidLinkError v))
        \<or> (\<exists>v w. initializeGraphState same dc (Some ns) ls gid cfg state
                   = Inl (InvalidLinkValueError v w)))"
proof (intro conjI impI)
  assume "dn = None \<or> dn = Some []"
  then have "validateGraphData same dn dl = Inl InsufficientDataError"
    by (auto simp: validateGraphData_def)
  then show "initializeGraphState same dc dn dl gid cfg state = Inl InsufficientDataError"
    by (rule initializeGraphState_invalid)
next
  assume a: "ns \<noteq> [] \<and> list_all plainObject ns \<and> list_all (linkPasses same ns) pre \<and> plainObject l"
    and b: "\<not> matchesNode same ns (lookupProp l ''source'')"
  from a b have "validateGraphData same (Some ns) (pre @ l # post)
                   = Inl (InvalidLinkError (lookupProp l ''source''))"
    by (simp add: validation_first_failing_link)
  then show "initializeGraphState same dc (Some ns) (pre @ l # post) gid cfg state
               = Inl (InvalidLinkError (lookupProp l ''source''))"
    by (rule initializeGraphState_invalid)
next
  assume a: "ns \<noteq> [] \<and> list_all plainObject ns \<and> list_all (linkPasses same ns) pre \<and> plainObject l"
    and b: "matchesNode same ns (lookupProp l ''source'')
              \<and> \<not> matchesNode same ns (lookupProp l ''target'')"
  from a b have "validateGraphData same (Some ns) (pre @ l # post)
                   = Inl (InvalidLinkError (lookupProp l ''target''))"
    by (simp add: validation_first_failing_link)
  then show "initializeGraphState same dc (Some ns) (pre @ l # post) gid cfg state
               = Inl (InvalidLinkError (lookupProp l ''target''))"
    by (rule initializeGraphState_invalid)
next
  assume a: "ns \<noteq> [] \<and> list_all plainObject ns \<and> list_all (linkPasses same ns) pre \<and> plainObject l"
    and b: "matchesNode same ns (lookupProp l ''source'')
              \<and> matchesNode same ns (lookupProp l ''target'')
              \<and> \<not> numericIfDeclared (lookupProp l ''value'')"
  from a b have "validateGraphData same (Some ns) (pre @ l # post)
                   = Inl (InvalidLinkValueError (lookupProp l ''source'') (lookupProp l ''target''))"
    by (simp add: validation_first_failing_link)
  then show "initializeGraphState same dc (Some ns) (pre @ l # post) gid cfg state
               = Inl (InvalidLinkValueError (lookupProp l ''source'') (lookupProp l ''target''))"
    by (rule initializeGraphState_invalid)
next
  assume a: "ns \<noteq> [] \<and> list_all plainObject ns \<and> list_all plainObject ls
               \<and> \<not> list_all (linkPasses same ns) ls"
  then have "\<exists>x \<in> set ls. \<not> linkPasses same ns x"
    by (simp add: list_all_iff)
  then obtain pre l post where
    sp: "ls = pre @ l # post" "\<not> linkPasses same ns l" "\<forall>y \<in> set pre. \<not> \<not> linkPasses same ns y"
    using split_list_first_prop[of ls "\<lambda>x. \<not> linkPasses same ns x"] by blast
  from a sp have l: "plainObject l" and pre: "list_all (linkPasses same ns) pre"
    by (auto simp: list_all_iff)
  from a pre l have v: "validateGraphData same (Some ns) ls =
           (if \<not> matchesNode same ns (lookupProp l ''source'')
            then Inl (InvalidLinkError (lookupProp l ''source''))
            else if \<not> matchesNode same ns (lookupProp l ''target'')
            then Inl (InvalidLinkError (lookupProp l ''target''))
            else if \<not> numericIfDeclared (lookupProp l ''value'')
            then Inl (InvalidLinkValueError (lookupProp l ''source'') (lookupProp l ''target''))
            else validateLinks same ns post)"
    unfolding sp(1) by (simp add: validation_first_failing_link)
  from sp(2) l have "\<not> matchesNode same ns (lookupProp l ''source'')
      \<or> \<not> matchesNode same ns (lookupProp l ''target'')
      \<or> \<not> numericIfDeclared (lookupProp l ''value'')"
    by (auto simp: linkPasses_def)
  with v have "(\<exists>v. validateGraphData same (Some ns) ls = Inl (InvalidLinkError v))
        \<or> (\<exists>v w. validateGraphData same (Some ns) ls = Inl (InvalidLinkValueError v w))"
    by auto
  then show "(\<exists>v. initializeGraphState same dc (Some ns) ls gid cfg state = Inl (InvalidLinkError v))
        \<or> (\<exists>v w. initializeGraphState same dc (Some ns) ls gid cfg state
                   = Inl (InvalidLinkValueError v w))"
    using initializeGraphState_invalid by blast
qed

text \<open>
  The theorem on the nodes A and B: no nodes at all; the links A-B and then A-B with the
  value \<open>"x"\<close>; and the single link Z-A.
\<close>

theorem initializeGraphState_validation_errors_witness:
  "initializeGraphState noSharing exampleConfig (Some []) [] ''g'' JUndefined JUndefined
     = Inl InsufficientDataError
   \<and> initializeGraphState noSharing exampleConfig
       (Some [JObj [(''id'', JStr ''A'')], JObj [(''id'', JStr ''B'')]])
       ([JObj [(''source'', JStr ''A''), (''target'', JStr ''B'')]]
          @ JObj [(''source'', JStr ''A''), (''target'', JStr ''B''), (''value'', JStr ''x'')] # [])
       ''g'' JUndefined JUndefined
     = Inl (InvalidLinkValueError (JStr ''A'') (JStr ''B''))
   \<and> initializeGraphState noSharing exampleConfig
       (Some [JObj [(''id'', JStr ''A'')], JObj [(''id'', JStr ''B'')]])
       ([] @ JObj [(''source'', JStr ''Z''), (''target'', JStr ''A'')] # [])
       ''g'' JUndefined JUndefined
     = Inl (InvalidLinkError (JStr ''Z''))"
proof -
  let ?ns = "[JObj [(''id'', JStr ''A'')], JObj [(''id'', JStr ''B'')]]"
  let ?ok = "JObj [(''source'', JStr ''A''), (''target'', JStr ''B'')]"
  let ?bad = "JObj [(''source'', JStr ''A''), (''target'', JStr ''B''), (''value'', JStr ''x'')]"
  let ?z = "JObj [(''source'', JStr ''Z''), (''target'', JStr ''A'')]"
  have h: "?ns \<noteq> [] \<and> list_all plainObject ?ns \<and> list_all (linkPasses noSharing ?ns) [?ok]
             \<and> plainObject ?bad"
    by (simp add: plainObject_def linkPasses_def matchesNode_def lookupProp_def
        numericIfDeclared_def)
  have h': "?ns \<noteq> [] \<and> list_all plainObject ?ns \<and> list_all (linkPasses noSharing ?ns) []
             \<and> plainObject ?z"
    by (simp add: plainObject_def)
  have b: "matchesNode noSharing ?ns (lookupProp ?bad ''source'')
           \<and> matchesNode noSharing ?ns (lookupProp ?bad ''target'')
           \<and> \<not> numericIfDeclared (lookupProp ?bad ''value'')"
    by (simp add: matchesNode_def lookupProp_def numericIfDeclared_def)
  have z: "\<not> matchesNode noSharing ?ns (lookupProp ?z ''source'')"
    by (simp add: matchesNode_def lookupProp_def)
  have v: "lookupProp ?bad ''source'' = JStr ''A''" "lookupProp ?bad ''target'' = JStr ''B''"
    "lookupProp ?z ''source'' = JStr ''Z''"
    by (simp_all add: lookupProp_def)
  note t = initializeGraphState_validation_errors
  from t[of "Some []" noSharing exampleConfig "[]" "''g''" JUndefined JUndefined]
  have 1: "initializeGraphState noSharing exampleConfig (Some []) [] ''g'' JUndefined JUndefined
             = Inl InsufficientDataError"
    by simp
  from t[of "Some []" noSharing exampleConfig "[]" "''g''" JUndefined JUndefined ?ns "[?ok]" ?bad "[]"]
    h b v
  have 2: "initializeGraphState noSharing exampleConfig (Some ?ns) ([?ok] @ ?bad # [])
             ''g'' JUndefined JUndefined = Inl (InvalidLinkValueError (JStr ''A'') (JStr ''B''))"
    by metis
  from t[of "Some []" noSharing exampleConfig "[]" "''g''" JUndefined JUndefined ?ns "[]" ?z "[]"]
    h' z v
  have 3: "initializeGraphState noSharing exampleConfig (Some ?ns) ([] @ ?z # [])
             ''g'' JUndefined JUndefined = Inl (InvalidLinkError (JStr ''Z''))"
    by metis
  from 1 2 3 show ?thesis by blast
qed

text \<open>
  The claim as stated fails where two of its conditions hold at once. With no nodes, the
  source of the link Z-A matches no node, and the error is InsufficientDataError. On the
  node A, the second link has a source that matches no node, and the error is the
  InvalidLinkValueError of the first link.
\<close>

theorem initializeGraphState_validation_order_counterexample:
  "\<not> matchesNode noSharing [] (JStr ''Z'')
   \<and> initializeGraphState noSharing exampleConfig (Some [])
       [JObj [(''source'', JStr ''Z''), (''target'', JStr ''A'')]] ''g'' JUndefined JUndefined
     = Inl InsufficientDataError
   \<and> \<not> matchesNode noSharing [JObj [(''id'', JStr ''A'')]] (JStr ''Z'')
   \<and> initializeGraphState noSharing exampleConfig (Some [JObj [(''id'', JStr ''A'')]])
       [JObj [(''source'', JStr ''A''), (''target'', JStr ''A''), (''value'', JStr ''x'')],
        JObj [(''source'', JStr ''Z''), (''target'', JStr ''A'')]] ''g'' JUndefined JUndefined
     = Inl (InvalidLinkValueError (JStr ''A'') (JStr ''A''))"
  by code_simp

section \<open>Highlighting\<close>

lemma highlighted_copy_map [simp]:
  "map_of (objectAssign [] [old, JObj [(''highlighted'', v)]]) ''highlighted'' = Some v"
  by (simp add: map_of_objectAssign_two)

lemma highlighted_copy [simp]:
  "lookupProp (JObj (objectAssign [] [old, JObj [(''highlighted'', v)]])) ''highlighted'' = v"
  by (simp add: lookupProp_JObj)

lemma strictEq_zero [simp]: "strictEq noSharing d (JNum 0) \<longleftrightarrow> d = JNum 0"
  by (cases d) auto









section \<open>Highlighting on the store\<close>

lemma extends_refl [simp]: "extends h h"
  by (simp add: extends_def)

lemma extends_allocate: "allocate h ps = (h', a) \<Longrightarrow> extends h h' \<and> a = length h \<and> length h' = Suc (length h)"
  by (auto simp: allocate_def extends_def)

lemma heapSet_length [simp]: "length (heapSet h a k v) = length h"
  by (simp add: heapSet_def)

lemma heapSet_fresh: "length h0 \<le> a \<Longrightarrow> extends h0 h \<Longrightarrow> extends h0 (heapSet h a k v)"
  by (auto simp: heapSet_def extends_def)

lemma heapAssignFrom_length [simp]: "length (heapAssignFrom a h s) = length h"
proof -
  have "length (foldl (\<lambda>h' (k, v). heapSet h' a k v) h ps) = length h" for ps
    by (induction ps arbitrary: h) (auto simp: split_beta)
  then show ?thesis by (simp add: heapAssignFrom_def)
qed

lemma heapAssignFrom_fresh:
  assumes "length h0 \<le> a" "extends h0 h"
  shows "extends h0 (heapAssignFrom a h s)"
proof -
  have "extends h0 (foldl (\<lambda>h' (k, v). heapSet h' a k v) h ps)" for ps
    using assms by (induction ps arbitrary: h) (auto simp: split_beta heapSet_fresh)
  then show ?thesis by (simp add: heapAssignFrom_def)
qed

lemma heapAssign_length [simp]: "length (heapAssign h a ss) = length h"
  unfolding heapAssign_def by (induction ss arbitrary: h) auto

lemma heapAssign_fresh:
  "length h0 \<le> a \<Longrightarrow> extends h0 h \<Longrightarrow> extends h0 (heapAssign h a ss)"
  unfolding heapAssign_def
  by (induction ss arbitrary: h) (auto simp: heapAssignFrom_fresh)

lemma highlightedCopy_fresh:
  assumes "highlightedCopy h old val = (h', a)" "extends h0 h"
  shows "extends h0 h' \<and> length h \<le> a \<and> a < length h' \<and> length h \<le> length h'"
proof -
  from assms(2) have l: "length h0 \<le> length h" by (simp add: extends_def)
  have e1: "extends h0 (h @ [[]] @ [[(''highlighted'', val)]])"
    using assms(2) by (auto simp: extends_def)
  from assms(1) have h': "h' = heapAssign (h @ [[]] @ [[(''highlighted'', val)]]) (length h) [old, HRef (Suc (length h))]"
    and a: "a = length h"
    by (auto simp: highlightedCopy_def allocate_def Let_def)
  from heapAssign_fresh[OF l e1] h' a show ?thesis by auto
qed

lemma defineProperty_fresh:
  assumes "defineProperty h k v = (h', a)" "extends h0 h"
  shows "extends h0 h' \<and> a = length h \<and> length h' = Suc (length h)"
proof -
  from assms(2) have l: "length h0 \<le> length h" by (simp add: extends_def)
  have e1: "extends h0 (h @ [[]])" using assms(2) by (auto simp: extends_def)
  from assms(1) have "h' = heapSet (h @ [[]]) (length h) k v" "a = length h"
    by (auto simp: defineProperty_def allocate_def Let_def)
  with heapSet_fresh[OF l e1] show ?thesis by auto
qed

lemma highlightNeighbour_fresh:
  assumes "length h0 \<le> acc" "extends h0 h"
  shows "extends h0 (highlightNeighbour val acc h linkId) \<and> length h \<le> length (highlightNeighbour val acc h linkId)"
proof -
  obtain h1 n where c: "highlightedCopy h (heapLookup h (HRef acc) linkId) val = (h1, n)"
    by fastforce
  obtain h2 s where d: "defineProperty h1 linkId (HRef n) = (h2, s)"
    by fastforce
  from highlightedCopy_fresh[OF c assms(2)] have 1: "extends h0 h1" "length h \<le> length h1" by auto
  from defineProperty_fresh[OF d 1(1)] have 2: "extends h0 h2" "length h1 \<le> length h2" by auto
  have "highlightNeighbour val acc h linkId = heapAssign h2 acc [HRef s]"
    using c d by (simp add: highlightNeighbour_def)
  with heapAssign_fresh[OF assms(1) 2(1)] 1 2 show ?thesis by auto
qed

lemma foldl_highlightNeighbour_fresh:
  assumes "length h0 \<le> acc" "extends h0 h"
  shows "extends h0 (foldl (highlightNeighbour val acc) h ks)
         \<and> length h \<le> length (foldl (highlightNeighbour val acc) h ks)"
  using assms
proof (induction ks arbitrary: h)
  case Nil
  then show ?case by simp
next
  case (Cons k ks)
  from highlightNeighbour_fresh[OF Cons.prems] have
    1: "extends h0 (highlightNeighbour val acc h k)"
    and 2: "length h \<le> length (highlightNeighbour val acc h k)" by auto
  from Cons.IH[OF Cons.prems(1) 1] 2 show ?case by auto
qed

lemma updateNodeHighlightedValueH_shape:
  assumes "updateNodeHighlightedValueH h nodesRef linksRef cfg nodeId valueArg = Inr (h', r, hn)"
  obtains old h1 node h3 single ks val where
    "highlightedCopy h old val = (h1, node)"
    "defineProperty (h1 @ [[]]) nodeId (HRef node) = (h3, single)"
    "r = HRef (length h1)"
    "h' = foldl (highlightNeighbour val (length h1))
            (heapAssign h3 (length h1) [nodesRef, HRef single]) ks"
proof -
  define val where "val = (if valueArg = HUndefined then HBool False else valueArg)"
  from assms obtain old where old: "heapGet h nodesRef nodeId = Inr old"
    by (auto simp: updateNodeHighlightedValueH_def bindE_Inr_iff Let_def)
  obtain h1 node where c: "highlightedCopy h old val = (h1, node)" by fastforce
  obtain h3 single where d: "defineProperty (h1 @ [[]]) nodeId (HRef node) = (h3, single)"
    by fastforce
  let ?h4 = "heapAssign h3 (length h1) [nodesRef, HRef single]"
  let ?hn = "if hTruthy val then nodeId else []"
  have "updateNodeHighlightedValueH h nodesRef linksRef cfg nodeId valueArg =
          bindE (heapGet ?h4 linksRef nodeId) (\<lambda>row.
            if hTruthy row then
              bindE (heapGet ?h4 cfg ''highlightDegree'') (\<lambda>degree.
                if degree \<noteq> HNum 0
                then Inr (foldl (highlightNeighbour val (length h1)) ?h4
                            (map fst (heapProps ?h4 row)),
                          HRef (length h1), ?hn)
                else Inr (?h4, HRef (length h1), ?hn))
            else Inr (?h4, HRef (length h1), ?hn))"
    unfolding updateNodeHighlightedValueH_def val_def[symmetric] Let_def
    by (simp add: old c d bindE_def allocate_def)
  with assms have
    "r = HRef (length h1) \<and> (h' = foldl (highlightNeighbour val (length h1)) ?h4 []
        \<or> (\<exists>ks. h' = foldl (highlightNeighbour val (length h1)) ?h4 ks))"
    by (auto simp: bindE_Inr_iff split: if_splits)
  then obtain ks where "r = HRef (length h1)"
    "h' = foldl (highlightNeighbour val (length h1)) ?h4 ks"
    by blast
  with c d show ?thesis by (rule that)
qed

text \<open>
  Claim C7. When \<open>updateNodeHighlightedValue\<close> returns, every object that the store
  held before the call, and so the node map given and every node record reachable from
  it, is in the store unchanged; the node map returned is a new object, at an address that
  was not in use before the call.
\<close>

theorem updateNodeHighlightedValue_copy_on_write:
  assumes "updateNodeHighlightedValueH h nodesRef linksRef cfg nodeId valueArg = Inr (h', r, hn)"
  shows "length h \<le> length h' \<and> (\<forall>a < length h. h' ! a = h ! a)
         \<and> (\<exists>a. r = HRef a \<and> length h \<le> a \<and> a < length h')"
proof -
  have "extends h h' \<and> (\<exists>a. r = HRef a \<and> length h \<le> a \<and> a < length h')"
  proof -
    from assms obtain old h1 node h3 single ks val where
      c: "highlightedCopy h old val = (h1, node)"
      and d: "defineProperty (h1 @ [[]]) nodeId (HRef node) = (h3, single)"
      and r: "r = HRef (length h1)"
      and h': "h' = foldl (highlightNeighbour val (length h1))
              (heapAssign h3 (length h1) [nodesRef, HRef single]) ks"
      by (rule updateNodeHighlightedValueH_shape)
    let ?h4 = "heapAssign h3 (length h1) [nodesRef, HRef single]"
    from highlightedCopy_fresh[OF c extends_refl] have 1: "extends h h1" "length h \<le> length h1" by auto
    have 2: "extends h (h1 @ [[]])" using 1 by (auto simp: extends_def)
    from defineProperty_fresh[OF d 2] have 3: "extends h h3" "length h3 = Suc (length (h1 @ [[]]))"
      by auto
    from heapAssign_fresh[OF 1(2) 3(1)] have 4: "extends h ?h4" .
    have l4: "length h1 < length ?h4" using 3 by simp
    from foldl_highlightNeighbour_fresh[OF 1(2) 4, of val ks] h'
    have 5: "extends h h'" "length ?h4 \<le> length h'" by auto
    from l4 5(2) have "length h1 < length h'" by linarith
    with 5(1) r 1(2) show ?thesis by blast
  qed
  moreover have "h' ! a = h ! a" if "extends h h'" "a < length h" for a
  proof -
    from that have "take (length h) h' ! a = h' ! a" by simp
    with that show ?thesis by (simp add: extends_def)
  qed
  ultimately show ?thesis by (auto simp: extends_def)
qed

text \<open>
  The theorem on the example store, highlighting A with \<open>highlightDegree = 1\<close>: the six
  objects of the store are unchanged, the map returned is a new object, and in it A and
  its neighbour B are highlighted.
\<close>

theorem updateNodeHighlightedValue_copy_on_write_witness:
  "\<exists>h' a. updateNodeHighlightedValueH exampleStore (HRef 0) (HRef 3) (HRef 5) ''A'' (HBool True)
             = Inr (h', HRef a, ''A'')
          \<and> length exampleStore \<le> length h'
          \<and> take (length exampleStore) h' = exampleStore
          \<and> length exampleStore \<le> a \<and> a < length h'
          \<and> heapLookup h' (heapLookup h' (HRef a) ''A'') ''highlighted'' = HBool True
          \<and> heapLookup h' (heapLookup h' (HRef a) ''B'') ''highlighted'' = HBool True"
proof -
  let ?call = "updateNodeHighlightedValueH exampleStore (HRef 0) (HRef 3) (HRef 5) ''A'' (HBool True)"
  have "case ?call of
          Inl e \<Rightarrow> False
        | Inr (h', r, hn) \<Rightarrow>
            hn = ''A''
            \<and> heapLookup h' (heapLookup h' r ''A'') ''highlighted'' = HBool True
            \<and> heapLookup h' (heapLookup h' r ''B'') ''highlighted'' = HBool True"
    by code_simp
  then obtain h' r where c: "?call = Inr (h', r, ''A'')"
    and hl: "heapLookup h' (heapLookup h' r ''A'') ''highlighted'' = HBool True"
      "heapLookup h' (heapLookup h' r ''B'') ''highlighted'' = HBool True"
    by (auto split: sum.splits)
  from updateNodeHighlightedValue_copy_on_write[OF c] obtain a where
    f: "length exampleStore \<le> length h'" "\<forall>a < length exampleStore. h' ! a = exampleStore ! a"
      "r = HRef a" "length exampleStore \<le> a" "a < length h'"
    by blast
  from f(1,2) have "take (length exampleStore) h' = exampleStore"
    by (simp add: list_eq_iff_nth_eq)
  with c hl f show ?thesis by blast
qed

section \<open>Changes of the graph elements\<close>

text \<open>
  Claim C6 on the code. The next input and the current state hold the same two nodes A
  and B and the same link from A to B with the value 2: nothing has changed. The state's
  links are reduced to their \<open>source\<close> and \<open>target\<close> before the comparison and the
  input's links are not, so the link of the input, which has the property \<open>value\<close>,
  is unequal to the link of the state, and both flags are true. The second call differs
  from the state in the colour of A only, and \<open>newGraphElements\<close> is true as well.
\<close>

theorem checkForGraphElementsChanges_unchanged_input:
  "checkForGraphElementsChanges noSharing
     [JObj [(''id'', JStr ''A'')], JObj [(''id'', JStr ''B'')]]
     [JObj [(''source'', JStr ''A''), (''target'', JStr ''B''), (''value'', JNum 2)]]
     [JObj [(''id'', JStr ''A'')], JObj [(''id'', JStr ''B'')]]
     [JObj [(''source'', JStr ''A''), (''target'', JStr ''B''), (''value'', JNum 2)]]
     = Inr (True, True)
   \<and> checkForGraphElementsChanges noSharing
     [JObj [(''id'', JStr ''A''), (''color'', JStr ''red'')], JObj [(''id'', JStr ''B'')]]
     [JObj [(''source'', JStr ''A''), (''target'', JStr ''B''), (''value'', JNum 2)]]
     [JObj [(''id'', JStr ''A'')], JObj [(''id'', JStr ''B'')]]
     [JObj [(''source'', JStr ''A''), (''target'', JStr ''B''), (''value'', JNum 2)]]
     = Inr (True, True)"
  by code_simp

text \<open>The flag \<open>newGraphElements\<close> of the first call.\<close>

theorem checkForGraphElementsChanges_unchanged_input_witness:
  "snd (projr (checkForGraphElementsChanges noSharing
     [JObj [(''id'', JStr ''A'')], JObj [(''id'', JStr ''B'')]]
     [JObj [(''source'', JStr ''A''), (''target'', JStr ''B''), (''value'', JNum 2)]]
     [JObj [(''id'', JStr ''A'')], JObj [(''id'', JStr ''B'')]]
     [JObj [(''source'', JStr ''A''), (''target'', JStr ''B''), (''value'', JNum 2)]]))"
  using checkForGraphElementsChanges_unchanged_input by simp

section \<open>Link properties\<close>

text \<open>
  Claim C8 on the code. The link from A to B is built while the node map and the
  adjacency matrix are empty. With \<open>highlightDegree = 2\<close> the link takes part in the
  highlight, and \<open>nodes[source].highlighted\<close> reads a property of \<open>undefined\<close>. With
  \<open>semanticStrokeWidth\<close> on (and both nodes present), \<open>links[source][target]\<close> reads a
  property of the row \<open>links[source]\<close>, which is \<open>undefined\<close>. Both calls raise a
  TypeError, whatever the collaborators return.
\<close>

theorem buildLinkProps_raises:
  "buildLinkProps same env (JObj [(''source'', JStr ''A''), (''target'', JStr ''B'')]) [] []
     (JObj [(''highlightDegree'', JNum 2), (''link'', JObj [(''type'', JStr ''STRAIGHT'')])])
     (JObj []) (JStr ''A'') JUndefined (JNum 1) = Inl TypeError
   \<and> buildLinkProps same env (JObj [(''source'', JStr ''A''), (''target'', JStr ''B'')])
     [(''A'', JObj [(''id'', JStr ''A'')]), (''B'', JObj [(''id'', JStr ''B'')])] []
     (JObj [(''highlightDegree'', JNum 1),
            (''link'', JObj [(''type'', JStr ''STRAIGHT''), (''semanticStrokeWidth'', JBool True)])])
     (JObj []) (JStr []) JUndefined (JNum 1) = Inl TypeError"
  by (simp add: buildLinkProps_def bindE_def getProp_def lookupProp_def nullish_def Let_def
      matrixEntry_def jsOr_def jsAnd_def)

section \<open>Initialization: the node map and the adjacency matrix\<close>

lemma decimal_digits: "set (decimal n) \<subseteq> set ''0123456789''"
proof (induction n rule: decimal.induct)
  case (1 n)
  have d: "''0123456789'' ! m \<in> set ''0123456789''" if "m < 10" for m
    using that by (intro nth_mem) simp
  show ?case
  proof (cases "n < 10")
    case True
    then show ?thesis using d[of n] by (subst decimal.simps) simp
  next
    case False
    have "n mod 10 < 10" by simp
    from d[OF this] 1[OF False] False show ?thesis
      by (subst decimal.simps) simp
  qed
qed

lemma decimal_not_id: "decimal n \<noteq> ''id''"
proof
  assume "decimal n = ''id''"
  then have "CHR ''i'' \<in> set (decimal n)" by simp
  with decimal_digits[of n] show False by auto
qed

lemma map_of_zip_decimal_id: "map_of (zip (map decimal ns) xs) ''id'' = None"
proof -
  have "''id'' \<notin> set (map decimal ns)"
  proof
    assume "''id'' \<in> set (map decimal ns)"
    then obtain n where "decimal n = ''id''" by auto
    with decimal_not_id show False by blast
  qed
  then have "''id'' \<notin> fst ` set (zip (map decimal ns) xs)"
    by (metis (no_types, opaque_lifting) in_set_zipE image_iff prod.collapse)
  then show ?thesis by (simp add: map_of_eq_None_iff)
qed

lemma primitiveId_no_id: "primitiveId v \<Longrightarrow> getProp v ''id'' = Inr JUndefined"
  by (cases v) (auto simp: primitiveId_def getProp_def nullish_def lookupProp_def map_of_zip_decimal_id)

lemma primitiveId_not_nullish: "primitiveId v \<Longrightarrow> \<not> nullish v"
  by (cases v) (auto simp: primitiveId_def nullish_def)


lemma plainObject_copy:
  assumes "plainObject v"
  shows "lookupProp (JObj (objectAssign [] [v])) k = lookupProp v k"
proof -
  from assms obtain ps where v: "v = JObj ps" "distinct (map fst ps)"
    by (auto simp: plainObject_def split: jsval.splits)
  then show ?thesis
    by (simp add: lookupProp_JObj map_of_objectAssign_one distinct_map_of_rev)
qed

lemma update_keys_set [simp]: "fst ` set (AList.update k v al) = insert k (fst ` set al)"
proof -
  have "set (map fst (AList.update k v al)) = insert k (set (map fst al))"
    by (auto simp: update_keys)
  then show ?thesis by simp
qed

lemma getProp_JObj: "getProp (JObj l) k = Inr (lookupProp (JObj l) k)"
  by (simp add: getProp_def nullish_def)

lemma endpointId_primitive:
  assumes "primitiveId (lookupProp (JObj l) side)"
  shows "endpointId (JObj l) side = Inr (lookupProp (JObj l) side)"
  using assms
  by (simp add: endpointId_def getProp_JObj nullish_def bindE_def primitiveId_no_id)

lemma proto_inherited: "\<not> ordinaryName ''__proto__''"
  by (simp add: ordinaryName_def objectPrototypeNames_def)

text \<open>On ordinary endpoints the step creates the two rows and sets the entries.\<close>

lemma initializeLinksStep_ordinary:
  assumes s: "primitiveId (lookupProp (JObj l) ''source'')"
    and t: "primitiveId (lookupProp (JObj l) ''target'')"
    and os: "ordinaryName (toStr (lookupProp (JObj l) ''source''))"
    and ot: "ordinaryName (toStr (lookupProp (JObj l) ''target''))"
  shows "initializeLinksStep (JObj c) lm (JObj l) =
     (let S = toStr (lookupProp (JObj l) ''source'');
          T = toStr (lookupProp (JObj l) ''target'');
          v = (if truthy (jsAnd (lookupProp (JObj c) ''collapsible'') (lookupProp (JObj l) ''isHidden''))
               then JNum 0 else jsOr (lookupProp (JObj l) ''value'') (JNum 1));
          lm1 = (if map_of lm S = None then AList.update S [] lm else lm);
          lm2 = (if map_of lm1 T = None then AList.update T [] lm1 else lm1);
          lm3 = AList.update S (setProp (rowOf lm2 S) T v) lm2
      in Inr (if \<not> truthy (lookupProp (JObj c) ''directed'')
              then AList.update T (setProp (rowOf lm3 T) S v) lm3 else lm3))"
proof -
  define S where "S = toStr (lookupProp (JObj l) ''source'')"
  define T where "T = toStr (lookupProp (JObj l) ''target'')"
  from os ot have o: "S \<notin> set objectPrototypeNames" "T \<notin> set objectPrototypeNames"
    by (simp_all add: ordinaryName_def S_def T_def)
  from os ot proto_inherited have p: "S \<noteq> ''__proto__''" "T \<noteq> ''__proto__''"
    unfolding S_def T_def by auto
  have e1: "ensureRow m S = (if map_of m S = None then AList.update S [] m else m)" for m
    using o by (simp add: ensureRow_def)
  have e2: "ensureRow m T = (if map_of m T = None then AList.update T [] m else m)" for m
    using o by (simp add: ensureRow_def)
  have a1: "assignEntry m S T v = AList.update S (setProp (rowOf m S) T v) m"
    if "map_of m S \<noteq> None" for m v
    using that p by (auto simp: assignEntry_def rowOf_def)
  have a2: "assignEntry m T S v = AList.update T (setProp (rowOf m T) S v) m"
    if "map_of m T \<noteq> None" for m v
    using that p by (auto simp: assignEntry_def rowOf_def)
  define lm1 where "lm1 = (if map_of lm S = None then AList.update S [] lm else lm)"
  define lm2 where "lm2 = (if map_of lm1 T = None then AList.update T [] lm1 else lm1)"
  have r2: "map_of lm2 S \<noteq> None" "map_of lm2 T \<noteq> None"
    by (auto simp: lm2_def lm1_def update_conv')
  have r3: "map_of (AList.update S r lm2) T \<noteq> None" for r
    using r2 by (auto simp: update_conv')
  define v where "v = (if truthy (jsAnd (lookupProp (JObj c) ''collapsible'') (lookupProp (JObj l) ''isHidden''))
               then JNum 0 else jsOr (lookupProp (JObj l) ''value'') (JNum 1))"
  have "initializeLinksStep (JObj c) lm (JObj l) =
          (if \<not> truthy (lookupProp (JObj c) ''directed'')
           then Inr (assignEntry (assignEntry (ensureRow (ensureRow lm S) T) S T v) T S v)
           else Inr (assignEntry (ensureRow (ensureRow lm S) T) S T v))"
    unfolding initializeLinksStep_def endpointId_primitive[OF s] endpointId_primitive[OF t]
      getProp_JObj bindE_def Let_def S_def T_def v_def
    by simp
  also have "ensureRow (ensureRow lm S) T = lm2"
    by (simp add: e1 e2 lm1_def lm2_def)
  also have "assignEntry lm2 S T v = AList.update S (setProp (rowOf lm2 S) T v) lm2"
    by (rule a1[OF r2(1)])
  also have "assignEntry (AList.update S (setProp (rowOf lm2 S) T v) lm2) T S v
               = AList.update T (setProp (rowOf (AList.update S (setProp (rowOf lm2 S) T v) lm2) T) S v)
                   (AList.update S (setProp (rowOf lm2 S) T v) lm2)"
    by (rule a2[OF r3])
  finally show ?thesis
    unfolding Let_def lm2_def lm1_def S_def T_def v_def by simp
qed

lemma initializeLinksStep_keys:
  assumes "primitiveId (lookupProp (JObj l) ''source'')" "primitiveId (lookupProp (JObj l) ''target'')"
    "ordinaryName (toStr (lookupProp (JObj l) ''source''))"
    "ordinaryName (toStr (lookupProp (JObj l) ''target''))"
  shows "\<exists>lm'. initializeLinksStep (JObj c) lm (JObj l) = Inr lm'
          \<and> fst ` set lm' = fst ` set lm
               \<union> {toStr (lookupProp (JObj l) ''source''), toStr (lookupProp (JObj l) ''target'')}"
proof -
  have k: "map_of m k = None \<longleftrightarrow> k \<notin> fst ` set m" for m :: matrix and k
    by (simp add: map_of_eq_None_iff)
  show ?thesis
    unfolding initializeLinksStep_ordinary[OF assms]
    by (auto simp: Let_def k)
qed

lemma initializeLinksLoop_keys:
  assumes "list_all (\<lambda>l. primitiveId (lookupProp (JObj l) ''source'')
                        \<and> primitiveId (lookupProp (JObj l) ''target'')
                        \<and> ordinaryName (toStr (lookupProp (JObj l) ''source''))
                        \<and> ordinaryName (toStr (lookupProp (JObj l) ''target''))) ls"
  shows "\<exists>lm'. initializeLinksLoop (JObj c) (map JObj ls) lm = Inr lm'
          \<and> fst ` set lm' = fst ` set lm \<union> set (linkEndpoints (map JObj ls))"
  using assms
proof (induction ls arbitrary: lm)
  case Nil
  then show ?case by (simp add: linkEndpoints_def)
next
  case (Cons l ls)
  from Cons.prems initializeLinksStep_keys[of l c lm] obtain lm1 where
    1: "initializeLinksStep (JObj c) lm (JObj l) = Inr lm1"
       "fst ` set lm1 = fst ` set lm
               \<union> {toStr (lookupProp (JObj l) ''source''), toStr (lookupProp (JObj l) ''target'')}"
    by auto
  from Cons.IH[of lm1] Cons.prems obtain lm' where
    2: "initializeLinksLoop (JObj c) (map JObj ls) lm1 = Inr lm'"
       "fst ` set lm' = fst ` set lm1 \<union> set (linkEndpoints (map JObj ls))"
    by auto
  from 1 2 show ?case
    by (auto simp: bindE_def linkEndpoints_def)
qed


lemma initializeNode_id [simp]:
  "lookupProp (JObj (initializeNode g)) ''id'' = lookupProp (JObj g) ''id''"
  by (simp add: initializeNode_def Let_def lookupProp_JObj)

lemma initializeNodesLoop_keys:
  assumes "list_all (\<lambda>g. \<not> nullish (lookupProp (JObj g) ''id'')) gs"
  shows "\<exists>nm. initializeNodesLoop gs acc = Inr nm
          \<and> fst ` set nm = fst ` set acc \<union> (\<lambda>g. toStr (lookupProp (JObj g) ''id'')) ` set gs"
  using assms
proof (induction gs arbitrary: acc)
  case Nil
  then show ?case by simp
next
  case (Cons g gs)
  let ?acc1 = "setProp acc (toStr (lookupProp (JObj g) ''id'')) (JObj (initializeNode g))"
  from Cons.IH[of ?acc1] Cons.prems obtain nm where
    "initializeNodesLoop gs ?acc1 = Inr nm"
    "fst ` set nm = fst ` set ?acc1 \<union> (\<lambda>g. toStr (lookupProp (JObj g) ''id'')) ` set gs"
    by auto
  with Cons.prems show ?case
    by (auto simp: Let_def toStringMethod_def bindE_def)
qed

lemma foldl_setProp_keys:
  "fst ` set (foldl (\<lambda>acc k. setProp acc k (f acc k)) acc ks) = fst ` set acc \<union> set ks"
  by (induction ks arbitrary: acc) auto

lemma tagOrphanNodes_keys [simp]: "fst ` set (tagOrphanNodes nm lm) = fst ` set nm"
proof -
  have "tagOrphanNodes nm lm =
          foldl (\<lambda>acc k. setProp acc k
                   (if computeNodeDegree k lm = (0, 0)
                    then JObj (objectAssign [] [lookupProp (JObj nm) k, JObj [(''_orphan'', JBool True)]])
                    else lookupProp (JObj nm) k))
            [] (map fst nm)"
    unfolding tagOrphanNodes_def
    by (simp add: Let_def split_beta prod_eq_iff keysOf_def)
  then show ?thesis
    by (simp add: foldl_setProp_keys)
qed

lemma strictEq_primitive: "strictEq same a b \<Longrightarrow> primitiveId a \<Longrightarrow> b = a"
  by (cases a; cases b) (auto simp: primitiveId_def)

lemma matchesNode_primitive:
  assumes "list_all validNode ns" "matchesNode same ns v"
  shows "primitiveId v"
proof -
  from assms(2) obtain n where "n \<in> set ns" "strictEq same (lookupProp n ''id'') v"
    by (auto simp: matchesNode_def list_ex_iff)
  moreover from this assms(1) have "primitiveId (lookupProp n ''id'')"
    by (auto simp: list_all_iff validNode_def)
  ultimately show ?thesis using strictEq_primitive by metis
qed

lemma linkPasses_copy:
  assumes "list_all validNode ns" "linkPasses same ns l"
  shows "primitiveId (lookupProp (JObj (objectAssign [] [l])) ''source'')
         \<and> primitiveId (lookupProp (JObj (objectAssign [] [l])) ''target'')
         \<and> lookupProp (JObj (objectAssign [] [l])) ''source'' = lookupProp l ''source''
         \<and> lookupProp (JObj (objectAssign [] [l])) ''target'' = lookupProp l ''target''"
  using assms
  by (auto simp: linkPasses_def plainObject_copy matchesNode_primitive)

section \<open>Initialization: orphan nodes\<close>

lemma sequenceE_map_mem:
  assumes "sequenceE (map f xs) = Inr ys" "y \<in> set ys"
  shows "\<exists>x \<in> set xs. f x = Inr y"
  using assms
  by (induction xs arbitrary: ys) (auto split: sum.splits)

lemma sequenceE_map_mem':
  assumes "sequenceE (map f xs) = Inr ys" "x \<in> set xs"
  shows "\<exists>y \<in> set ys. f x = Inr y"
  using assms
  by (induction xs arbitrary: ys) (auto split: sum.splits)

lemma buildGraph_node:
  assumes "buildGraph same ns dl cfg state = Inr (gn, gl)" "g \<in> set gn"
  shows "\<exists>n \<in> set ns. (if firstInitialization state then g = objectAssign [] [n]
                          else carryOverNode state n = Inr g)"
  using assms
  by (auto simp: buildGraph_def firstInitialization_def bindE_Inr_iff
      dest: sequenceE_map_mem split: if_splits)

lemma buildGraph_node':
  assumes "buildGraph same ns dl cfg state = Inr (gn, gl)" "n \<in> set ns"
  shows "\<exists>g \<in> set gn. (if firstInitialization state then g = objectAssign [] [n]
                          else carryOverNode state n = Inr g)"
  using assms
  by (auto simp: buildGraph_def firstInitialization_def bindE_Inr_iff
      dest: sequenceE_map_mem' split: if_splits)

lemma pickLoop_keys:
  "pickLoop v ks acc = Inr r \<Longrightarrow> fst ` set r \<subseteq> fst ` set acc \<union> set ks"
proof (induction ks arbitrary: acc)
  case Nil
  then show ?case by simp
next
  case (Cons k ks)
  from Cons.prems obtain h where
    r: "pickLoop v ks (if h then setProp acc k (lookupProp v k) else acc) = Inr r"
    by (auto simp: bindE_Inr_iff)
  have "fst ` set (if h then setProp acc k (lookupProp v k) else acc) \<subseteq> insert k (fst ` set acc)"
    by auto
  with Cons.IH[OF r] show ?case by auto
qed

lemma pick_keys: "pick v ks = Inr r \<Longrightarrow> fst ` set r \<subseteq> set ks"
  using pickLoop_keys[of v ks "[]" r] by (simp add: pick_def)

lemma carryOverNode_keys:
  assumes "carryOverNode state n = Inr g"
  shows "fst ` set g \<subseteq> set (keysOf n) \<union> set NODE_PROPS_WHITELIST"
proof -
  from assms have "g = objectAssign [] [n]
      \<or> (\<exists>sn picked. pick sn NODE_PROPS_WHITELIST = Inr picked \<and> g = objectAssign [] [n, JObj picked])"
    by (auto simp: carryOverNode_def bindE_Inr_iff Let_def split: if_splits)
  then show ?thesis
  proof
    assume "g = objectAssign [] [n]"
    then have "fst ` set g = set (keysOf n)" by simp
    then show ?thesis by blast
  next
    assume "\<exists>sn picked. pick sn NODE_PROPS_WHITELIST = Inr picked \<and> g = objectAssign [] [n, JObj picked]"
    then obtain sn picked where p: "pick sn NODE_PROPS_WHITELIST = Inr picked"
      and g: "g = objectAssign [] [n, JObj picked]" by blast
    from g have "fst ` set g = set (keysOf n) \<union> fst ` set picked" by simp
    with pick_keys[OF p] show ?thesis by blast
  qed
qed

lemma graph_node_no_orphan:
  assumes "buildGraph same ns dl cfg state = Inr (gn, gl)" "g \<in> set gn"
    "list_all (\<lambda>n. \<not> hasOwn n ''_orphan'') ns"
  shows "''_orphan'' \<notin> fst ` set g"
proof -
  from buildGraph_node[OF assms(1,2)] obtain n where n: "n \<in> set ns"
    "if firstInitialization state then g = objectAssign [] [n] else carryOverNode state n = Inr g"
    by blast
  from n(1) assms(3) have no: "''_orphan'' \<notin> set (keysOf n)"
    by (auto simp: list_all_iff hasOwn_def)
  show ?thesis
  proof (cases "firstInitialization state")
    case True
    with n no show ?thesis by simp
  next
    case False
    with n have "fst ` set g \<subseteq> set (keysOf n) \<union> set NODE_PROPS_WHITELIST"
      using carryOverNode_keys by simp
    with no show ?thesis by (auto simp: NODE_PROPS_WHITELIST_def)
  qed
qed

lemma initializeNode_keys [simp]:
  "fst ` set (initializeNode g) = fst ` set g \<union> {''highlighted'', ''x'', ''y''}"
  by (auto simp: initializeNode_def Let_def hasOwn_def)

lemma initializeNodesLoop_values:
  assumes "initializeNodesLoop gs acc = Inr nm" "map_of nm k = Some v"
  shows "map_of acc k = Some v
         \<or> (\<exists>g \<in> set gs. v = JObj (initializeNode g) \<and> toStr (lookupProp (JObj g) ''id'') = k)"
  using assms
proof (induction gs arbitrary: acc)
  case Nil
  then show ?case by simp
next
  case (Cons g gs)
  from Cons.prems(1) obtain key where
    key: "toStringMethod (lookupProp (JObj g) ''id'') = Inr key"
    and r: "initializeNodesLoop gs (setProp acc key (JObj (initializeNode g))) = Inr nm"
    by (auto simp: Let_def bindE_Inr_iff)
  from key have k: "key = toStr (lookupProp (JObj g) ''id'')"
    by (auto simp: toStringMethod_def split: if_splits)
  from Cons.IH[OF r Cons.prems(2)] k show ?case
    by (auto split: if_splits)
qed

lemma foldl_setProp_lookup:
  "map_of (foldl (\<lambda>acc k. setProp acc k (F k)) acc ks) k
     = (if k \<in> set ks then Some (F k) else map_of acc k)"
  by (induction ks arbitrary: acc) auto

lemma tagOrphanNodes_lookup:
  "map_of (tagOrphanNodes nm lm) k =
     map_option (\<lambda>v. if computeNodeDegree k lm = (0, 0)
                     then JObj (objectAssign [] [v, JObj [(''_orphan'', JBool True)]])
                     else v)
       (map_of nm k)"
proof -
  have "tagOrphanNodes nm lm =
          foldl (\<lambda>acc k. setProp acc k
                   (if computeNodeDegree k lm = (0, 0)
                    then JObj (objectAssign [] [lookupProp (JObj nm) k, JObj [(''_orphan'', JBool True)]])
                    else lookupProp (JObj nm) k))
            [] (map fst nm)"
    unfolding tagOrphanNodes_def
    by (simp add: Let_def split_beta prod_eq_iff keysOf_def)
  then show ?thesis
    by (cases "map_of nm k")
      (auto simp: foldl_setProp_lookup lookupProp_JObj map_of_eq_None_iff
        dest: map_of_SomeD intro: rev_image_eqI)
qed

lemma orphan_copy [simp]:
  "map_of (objectAssign [] [v, JObj [(''_orphan'', w)]]) ''_orphan'' = Some w"
  by (simp add: map_of_objectAssign_two)

lemma set_update_subset: "set (AList.update k v al) \<subseteq> insert (k, v) (set al)"
  by (induction al) auto

lemma snd_setProp_subset: "snd ` set (setProp ps k v) \<subseteq> insert v (snd ` set ps)"
  using set_update_subset[of k v ps] by (fastforce simp: setProp_def)

lemma map_of_update_matrix [simp]: "map_of (AList.update k v (al :: matrix)) = (map_of al)(k \<mapsto> v)"
  by (rule update_conv')

lemma jsOr_nonzero: "nonzero (jsOr v (JNum 1))"
  by (cases v) (auto simp: jsOr_def nonzero_def)

lemma nonzeroRows_rowOf:
  assumes "nonzeroRows m"
  shows "\<forall>w \<in> snd ` set (rowOf m k). nonzero w"
proof (cases "map_of m k")
  case None
  then show ?thesis by (simp add: rowOf_def)
next
  case (Some row)
  with assms have "\<forall>w \<in> snd ` set row. nonzero w"
    unfolding nonzeroRows_def by blast
  with Some show ?thesis by (simp add: rowOf_def)
qed

lemma nonzeroRows_update:
  assumes "nonzeroRows m" "\<forall>w \<in> snd ` set row. nonzero w"
  shows "nonzeroRows (AList.update k row m)"
  using assms unfolding nonzeroRows_def by (simp add: update_conv')

lemma initializeLinksStep_entries:
  assumes s: "primitiveId (lookupProp (JObj l) ''source'')"
    and t: "primitiveId (lookupProp (JObj l) ''target'')"
    and os: "ordinaryName (toStr (lookupProp (JObj l) ''source''))"
    and ot: "ordinaryName (toStr (lookupProp (JObj l) ''target''))"
    and h: "\<not> truthy (lookupProp (JObj l) ''isHidden'')"
    and d: "distinct (map fst lm)" and nz: "nonzeroRows lm"
  shows "\<exists>lm'. initializeLinksStep (JObj c) lm (JObj l) = Inr lm'
          \<and> distinct (map fst lm') \<and> nonzeroRows lm'
          \<and> (\<forall>a b. hasEntry lm' a b \<longleftrightarrow>
                hasEntry lm a b
                \<or> (a = toStr (lookupProp (JObj l) ''source'') \<and> b = toStr (lookupProp (JObj l) ''target''))
                \<or> (\<not> truthy (lookupProp (JObj c) ''directed'')
                    \<and> a = toStr (lookupProp (JObj l) ''target'') \<and> b = toStr (lookupProp (JObj l) ''source'')))"
proof -
  define S where "S = toStr (lookupProp (JObj l) ''source'')"
  define T where "T = toStr (lookupProp (JObj l) ''target'')"
  define v where "v = jsOr (lookupProp (JObj l) ''value'') (JNum 1)"
  define lm1 where "lm1 = (if map_of lm S = None then AList.update S [] lm else lm)"
  define lm2 where "lm2 = (if map_of lm1 T = None then AList.update T [] lm1 else lm1)"
  define lm3 where "lm3 = AList.update S (setProp (rowOf lm2 S) T v) lm2"
  define lm4 where "lm4 = AList.update T (setProp (rowOf lm3 T) S v) lm3"
  have hid: "\<not> truthy (jsAnd x (lookupProp (JObj l) ''isHidden''))" for x
    using h by (simp add: jsAnd_def)
  have step: "initializeLinksStep (JObj c) lm (JObj l)
                = Inr (if \<not> truthy (lookupProp (JObj c) ''directed'') then lm4 else lm3)"
    unfolding initializeLinksStep_ordinary[OF s t os ot] Let_def
      lm1_def lm2_def lm3_def lm4_def S_def T_def v_def
    by (simp add: hid)
  have v: "nonzero v" by (simp add: v_def jsOr_nonzero)
  have d1: "distinct (map fst lm1)" using d by (simp add: lm1_def distinct_update)
  have d2: "distinct (map fst lm2)" using d1 by (simp add: lm2_def distinct_update)
  have d3: "distinct (map fst lm3)" using d2 by (simp add: lm3_def distinct_update)
  have d4: "distinct (map fst lm4)" using d3 by (simp add: lm4_def distinct_update)
  have n1: "nonzeroRows lm1" using nz by (simp add: lm1_def nonzeroRows_update)
  have n2: "nonzeroRows lm2" using n1 by (simp add: lm2_def nonzeroRows_update)
  have "\<forall>w \<in> snd ` set (setProp (rowOf lm2 S) T v). nonzero w"
    using nonzeroRows_rowOf[OF n2, of S] v snd_setProp_subset[of "rowOf lm2 S" T v] by blast
  with n2 have n3: "nonzeroRows lm3" by (simp add: lm3_def nonzeroRows_update)
  have "\<forall>w \<in> snd ` set (setProp (rowOf lm3 T) S v). nonzero w"
    using nonzeroRows_rowOf[OF n3, of T] v snd_setProp_subset[of "rowOf lm3 T" S v] by blast
  with n3 have n4: "nonzeroRows lm4" by (simp add: lm4_def nonzeroRows_update)
  have e1: "hasEntry lm1 a b = hasEntry lm a b" for a b
    by (auto simp: lm1_def hasEntry_def split: option.splits)
  have e2: "hasEntry lm2 a b = hasEntry lm1 a b" for a b
    by (auto simp: lm2_def hasEntry_def split: option.splits)
  have e3: "hasEntry lm3 a b \<longleftrightarrow> hasEntry lm2 a b \<or> (a = S \<and> b = T)" for a b
    by (auto simp: lm3_def hasEntry_def rowOf_def split: option.splits)
  have e4: "hasEntry lm4 a b \<longleftrightarrow> hasEntry lm3 a b \<or> (a = T \<and> b = S)" for a b
    by (auto simp: lm4_def hasEntry_def rowOf_def split: option.splits)
  have f3: "hasEntry lm3 a b \<longleftrightarrow> hasEntry lm a b \<or> (a = S \<and> b = T)" for a b
    by (simp add: e1 e2 e3)
  have f4: "hasEntry lm4 a b \<longleftrightarrow> hasEntry lm a b \<or> (a = S \<and> b = T) \<or> (a = T \<and> b = S)" for a b
    by (simp add: e4 f3)
  show ?thesis
  proof (cases "truthy (lookupProp (JObj c) ''directed'')")
    case True
    with step d3 n3 f3 show ?thesis
      unfolding S_def[symmetric] T_def[symmetric] by simp
  next
    case False
    with step d4 n4 f4 show ?thesis
      unfolding S_def[symmetric] T_def[symmetric] by simp
  qed
qed


lemma initializeLinksLoop_entries:
  assumes "list_all (\<lambda>l. primitiveId (lookupProp (JObj l) ''source'')
                       \<and> primitiveId (lookupProp (JObj l) ''target'')
                       \<and> ordinaryName (toStr (lookupProp (JObj l) ''source''))
                       \<and> ordinaryName (toStr (lookupProp (JObj l) ''target''))
                       \<and> \<not> truthy (lookupProp (JObj l) ''isHidden'')) gl"
    and "distinct (map fst lm)" and "nonzeroRows lm"
  shows "\<exists>lm'. initializeLinksLoop (JObj c) (map JObj gl) lm = Inr lm'
          \<and> distinct (map fst lm') \<and> nonzeroRows lm'
          \<and> (\<forall>a b. hasEntry lm' a b \<longleftrightarrow>
                hasEntry lm a b
                \<or> (\<exists>l \<in> set gl.
                      (a = toStr (lookupProp (JObj l) ''source'') \<and> b = toStr (lookupProp (JObj l) ''target''))
                      \<or> (\<not> truthy (lookupProp (JObj c) ''directed'')
                          \<and> a = toStr (lookupProp (JObj l) ''target'')
                          \<and> b = toStr (lookupProp (JObj l) ''source''))))"
  using assms
proof (induction gl arbitrary: lm)
  case Nil
  then show ?case by simp
next
  case (Cons l gl)
  from Cons.prems have p: "primitiveId (lookupProp (JObj l) ''source'')"
    "primitiveId (lookupProp (JObj l) ''target'')"
    "ordinaryName (toStr (lookupProp (JObj l) ''source''))"
    "ordinaryName (toStr (lookupProp (JObj l) ''target''))"
    "\<not> truthy (lookupProp (JObj l) ''isHidden'')"
    by simp_all
  from initializeLinksStep_entries[OF p Cons.prems(2,3), of c] obtain lm1 where
    1: "initializeLinksStep (JObj c) lm (JObj l) = Inr lm1" "distinct (map fst lm1)" "nonzeroRows lm1"
    and e1: "\<And>a b. hasEntry lm1 a b \<longleftrightarrow>
                hasEntry lm a b
                \<or> (a = toStr (lookupProp (JObj l) ''source'') \<and> b = toStr (lookupProp (JObj l) ''target''))
                \<or> (\<not> truthy (lookupProp (JObj c) ''directed'')
                    \<and> a = toStr (lookupProp (JObj l) ''target'') \<and> b = toStr (lookupProp (JObj l) ''source''))"
    by blast
  from Cons.prems(1) have r: "list_all (\<lambda>l. primitiveId (lookupProp (JObj l) ''source'')
                       \<and> primitiveId (lookupProp (JObj l) ''target'')
                       \<and> ordinaryName (toStr (lookupProp (JObj l) ''source''))
                       \<and> ordinaryName (toStr (lookupProp (JObj l) ''target''))
                       \<and> \<not> truthy (lookupProp (JObj l) ''isHidden'')) gl" by simp
  from Cons.IH[OF r 1(2,3)] obtain lm' where
    2: "initializeLinksLoop (JObj c) (map JObj gl) lm1 = Inr lm'" "distinct (map fst lm')"
       "nonzeroRows lm'"
    and e2: "\<And>a b. hasEntry lm' a b \<longleftrightarrow>
                hasEntry lm1 a b
                \<or> (\<exists>l \<in> set gl.
                      (a = toStr (lookupProp (JObj l) ''source'') \<and> b = toStr (lookupProp (JObj l) ''target''))
                      \<or> (\<not> truthy (lookupProp (JObj c) ''directed'')
                          \<and> a = toStr (lookupProp (JObj l) ''target'')
                          \<and> b = toStr (lookupProp (JObj l) ''source'')))"
    by blast
  have "initializeLinksLoop (JObj c) (map JObj (l # gl)) lm = Inr lm'"
    using 1(1) 2(1) by (simp add: bindE_def)
  moreover have "hasEntry lm' a b \<longleftrightarrow>
                hasEntry lm a b
                \<or> (\<exists>l \<in> set (l # gl).
                      (a = toStr (lookupProp (JObj l) ''source'') \<and> b = toStr (lookupProp (JObj l) ''target''))
                      \<or> (\<not> truthy (lookupProp (JObj c) ''directed'')
                          \<and> a = toStr (lookupProp (JObj l) ''target'')
                          \<and> b = toStr (lookupProp (JObj l) ''source'')))" for a b
    unfolding e2 e1 by auto
  ultimately show ?case using 2(2,3) by blast
qed

lemma degree_zero_iff:
  assumes d: "distinct (map fst lm)" and nz: "nonzeroRows lm"
  shows "computeNodeDegree k lm = (0, 0) \<longleftrightarrow> (\<forall>a. \<not> hasEntry lm a k) \<and> (\<forall>b. \<not> hasEntry lm k b)"
proof -
  let ?P = "\<lambda>(src :: string, row :: props). case map_of row k of Some w \<Rightarrow> nonzero w | None \<Rightarrow> False"
  have p: "?P (a, row) \<longleftrightarrow> k \<in> fst ` set row" if "map_of lm a = Some row" for a row
  proof
    assume "?P (a, row)"
    then obtain w where "map_of row k = Some w" by (auto split: option.splits)
    then show "k \<in> fst ` set row" by (metis domI dom_map_of_conv_image_fst)
  next
    assume "k \<in> fst ` set row"
    then obtain w where w: "map_of row k = Some w"
      by (metis domD dom_map_of_conv_image_fst)
    then have "(k, w) \<in> set row" by (rule map_of_SomeD)
    then have "w \<in> snd ` set row" by force
    with nz that have "nonzero w" unfolding nonzeroRows_def by blast
    with w show "?P (a, row)" by simp
  qed
  have m: "(a, row) \<in> set lm \<longleftrightarrow> map_of lm a = Some row" for a row
    using d by simp
  have "length (filter ?P lm) = 0 \<longleftrightarrow> (\<forall>x \<in> set lm. \<not> ?P x)"
    by (simp add: filter_empty_conv)
  also have "\<dots> \<longleftrightarrow> (\<forall>a row. map_of lm a = Some row \<longrightarrow> \<not> ?P (a, row))"
    using m by auto
  also have "\<dots> \<longleftrightarrow> (\<forall>a row. map_of lm a = Some row \<longrightarrow> k \<notin> fst ` set row)"
    using p by blast
  also have "\<dots> \<longleftrightarrow> (\<forall>a. \<not> hasEntry lm a k)"
    by (auto simp: hasEntry_def split: option.splits)
  finally have i: "length (filter ?P lm) = 0 \<longleftrightarrow> (\<forall>a. \<not> hasEntry lm a k)" .
  have "length (filter (\<lambda>(t, w). nonzero w) (rowOf lm k)) = 0
          \<longleftrightarrow> (\<forall>x \<in> set (rowOf lm k). \<not> nonzero (snd x))"
    by (auto simp: filter_empty_conv)
  also have "\<dots> \<longleftrightarrow> rowOf lm k = []"
  proof
    assume a: "\<forall>x \<in> set (rowOf lm k). \<not> nonzero (snd x)"
    show "rowOf lm k = []"
    proof (rule ccontr)
      assume "rowOf lm k \<noteq> []"
      then obtain x where x: "x \<in> set (rowOf lm k)" by (cases "rowOf lm k") auto
      with nonzeroRows_rowOf[OF nz, of k] have "nonzero (snd x)" by simp
      with a x show False by blast
    qed
  qed simp
  also have "\<dots> \<longleftrightarrow> (\<forall>b. \<not> hasEntry lm k b)"
  proof (cases "map_of lm k")
    case None
    then show ?thesis by (simp add: rowOf_def hasEntry_def)
  next
    case (Some row)
    have "row = [] \<longleftrightarrow> (\<forall>b. b \<notin> fst ` set row)"
      by (cases row) auto
    with Some show ?thesis by (simp add: rowOf_def hasEntry_def)
  qed
  finally have o: "length (filter (\<lambda>(t, w). nonzero w) (rowOf lm k)) = 0
                    \<longleftrightarrow> (\<forall>b. \<not> hasEntry lm k b)" .
  show ?thesis
    unfolding computeNodeDegree_def using i o by simp
qed

lemma first_initialization_degree:
  assumes r: "initializeGraphState same dc (Some ns) dl gid cfg state = Inr st"
    and fi: "firstInitialization state"
    and vn: "list_all validNode ns"
    and lp: "list_all (linkPasses same ns) dl"
    and ord: "list_all ordinaryName (linkEndpoints dl)"
    and nh: "list_all notHidden dl"
  shows "computeNodeDegree k (links st) = (0, 0) \<longleftrightarrow> k \<notin> set (linkEndpoints dl)"
proof -
  from r obtain ns' gn gl merged lm where
    "Some ns = Some ns'"
    and g: "buildGraph same ns' dl cfg state = Inr (gn, gl)"
    and il: "initializeLinks (map JObj gl) (JObj (objectAssign [] [merged])) = Inr lm"
    and l: "links st = lm"
    by (rule initializeGraphState_Inr)
  from g fi have gl: "gl = map (\<lambda>l. objectAssign [] [l]) dl"
    by (simp add: buildGraph_def firstInitialization_def)
  have c: "\<forall>l \<in> set dl.
         primitiveId (lookupProp (JObj (objectAssign [] [l])) ''source'')
         \<and> primitiveId (lookupProp (JObj (objectAssign [] [l])) ''target'')
         \<and> lookupProp (JObj (objectAssign [] [l])) ''source'' = lookupProp l ''source''
         \<and> lookupProp (JObj (objectAssign [] [l])) ''target'' = lookupProp l ''target''"
    using linkPasses_copy[OF vn] lp by (auto simp: list_all_iff)
  have h: "\<forall>l \<in> set dl. \<not> truthy (lookupProp (JObj (objectAssign [] [l])) ''isHidden'')"
    using nh lp by (auto simp: list_all_iff linkPasses_def plainObject_copy notHidden_def)
  from ord have o: "\<forall>l \<in> set dl. ordinaryName (toStr (lookupProp l ''source''))
                      \<and> ordinaryName (toStr (lookupProp l ''target''))"
    by (auto simp: linkEndpoints_def list_all_iff)
  from c h o have "list_all (\<lambda>l. primitiveId (lookupProp (JObj l) ''source'')
                       \<and> primitiveId (lookupProp (JObj l) ''target'')
                       \<and> ordinaryName (toStr (lookupProp (JObj l) ''source''))
                       \<and> ordinaryName (toStr (lookupProp (JObj l) ''target''))
                       \<and> \<not> truthy (lookupProp (JObj l) ''isHidden'')) gl"
    by (auto simp: gl list_all_iff)
  from initializeLinksLoop_entries[OF this, of "[]" "objectAssign [] [merged]"] il
  have d: "distinct (map fst lm)" and nz: "nonzeroRows lm"
    and e: "\<And>a b. hasEntry lm a b \<longleftrightarrow>
                (\<exists>l \<in> set gl.
                      (a = toStr (lookupProp (JObj l) ''source'') \<and> b = toStr (lookupProp (JObj l) ''target''))
                      \<or> (\<not> truthy (lookupProp (JObj (objectAssign [] [merged])) ''directed'')
                          \<and> a = toStr (lookupProp (JObj l) ''target'')
                          \<and> b = toStr (lookupProp (JObj l) ''source'')))"
    by (auto simp: initializeLinks_def nonzeroRows_def hasEntry_def)
  have "(\<exists>a. hasEntry lm a k) \<or> (\<exists>b. hasEntry lm k b)
          \<longleftrightarrow> (\<exists>l \<in> set gl. k = toStr (lookupProp (JObj l) ''source'')
                             \<or> k = toStr (lookupProp (JObj l) ''target''))"
    unfolding e by blast
  also have "\<dots> \<longleftrightarrow> (\<exists>l \<in> set dl. k = toStr (lookupProp l ''source'')
                             \<or> k = toStr (lookupProp l ''target''))"
    using c by (auto simp: gl)
  also have "\<dots> \<longleftrightarrow> k \<in> set (linkEndpoints dl)"
    by (auto simp: linkEndpoints_def)
  finally show ?thesis
    unfolding l degree_zero_iff[OF d nz] by blast
qed

lemma orphan_degree:
  assumes r: "initializeGraphState same dc (Some ns) dl gid cfg state = Inr st"
    and no: "list_all (\<lambda>n. \<not> hasOwn n ''_orphan'') ns"
    and k: "k \<in> fst ` set (nodes st)"
  shows "(lookupProp (lookupProp (JObj (nodes st)) k) ''_orphan'' = JBool True
            \<longleftrightarrow> computeNodeDegree k (links st) = (0, 0))
         \<and> (computeNodeDegree k (links st) \<noteq> (0, 0)
              \<longrightarrow> \<not> hasOwn (lookupProp (JObj (nodes st)) k) ''_orphan'')"
proof -
  from r obtain ns' gn gl lm nm where
    "Some ns = Some ns'"
    and g: "buildGraph same ns' dl cfg state = Inr (gn, gl)"
    and i: "initializeNodes gn = Inr nm"
    and n: "nodes st = tagOrphanNodes nm lm"
    and l: "links st = lm"
    by (rule initializeGraphState_Inr)
  then have g: "buildGraph same ns dl cfg state = Inr (gn, gl)" by simp
  from k n have "k \<in> fst ` set nm" by simp
  then obtain v where v: "map_of nm k = Some v"
    by (metis domD dom_map_of_conv_image_fst)
  from initializeNodesLoop_values[of gn "[]" nm k v] i v obtain g' where
    g': "g' \<in> set gn" "v = JObj (initializeNode g')"
    by (auto simp: initializeNodes_def)
  from graph_node_no_orphan[OF g g'(1) no] have "''_orphan'' \<notin> fst ` set (initializeNode g')"
    by simp
  then have a: "map_of (initializeNode g') ''_orphan'' = None"
    by (simp add: map_of_eq_None_iff)
  have t: "lookupProp (JObj (nodes st)) k =
         (if computeNodeDegree k lm = (0, 0)
          then JObj (objectAssign [] [v, JObj [(''_orphan'', JBool True)]]) else v)"
    by (simp add: lookupProp_JObj n tagOrphanNodes_lookup v)
  show ?thesis
  proof (cases "computeNodeDegree k lm = (0, 0)")
    case True
    with t have "lookupProp (JObj (nodes st)) k
                   = JObj (objectAssign [] [v, JObj [(''_orphan'', JBool True)]])" by simp
    with True l show ?thesis by (simp add: lookupProp_JObj)
  next
    case False
    with t g'(2) have e: "lookupProp (JObj (nodes st)) k = JObj (initializeNode g')" by simp
    from a have "lookupProp (JObj (initializeNode g')) ''_orphan'' = JUndefined"
      by (simp add: lookupProp_JObj)
    moreover from a have "\<not> hasOwn (JObj (initializeNode g')) ''_orphan''"
      by (simp add: hasOwn_def map_of_eq_None_iff)
    ultimately show ?thesis using False l e by simp
  qed
qed

lemma zeroRow_empty [simp]: "zeroRow k a []"
  by (simp add: zeroRow_def)

lemma zeroRow_rowOf:
  assumes "zeroEntries m k"
  shows "zeroRow k a (rowOf m a)"
proof (cases "map_of m a")
  case None
  then show ?thesis by (simp add: rowOf_def)
next
  case (Some row)
  then have "(a, row) \<in> set m" by (rule map_of_SomeD)
  with assms have "zeroRow k a row" by (auto simp: zeroEntries_def list_all_iff)
  with Some show ?thesis by (simp add: rowOf_def)
qed

lemma zeroRow_setProp:
  assumes "zeroRow k a row" "k = a \<or> k = b \<longrightarrow> v = JNum 0"
  shows "zeroRow k a (setProp row b v)"
proof -
  have "set (setProp row b v) \<subseteq> insert (b, v) (set row)"
    unfolding setProp_def by (rule set_update_subset)
  with assms show ?thesis
    by (auto simp: zeroRow_def list_all_iff split: option.splits if_splits)
qed

lemma zeroEntries_update:
  assumes "zeroEntries m k" "zeroRow k a row"
  shows "zeroEntries (AList.update a row m) k"
  using assms set_update_subset[of a row m]
  by (auto simp: zeroEntries_def list_all_iff)

lemma truthy_jsAnd: "truthy (jsAnd a b) \<longleftrightarrow> truthy a \<and> truthy b"
  by (simp add: jsAnd_def)

lemma initializeLinksStep_zero:
  assumes s: "primitiveId (lookupProp (JObj l) ''source'')"
    and t: "primitiveId (lookupProp (JObj l) ''target'')"
    and os: "ordinaryName (toStr (lookupProp (JObj l) ''source''))"
    and ot: "ordinaryName (toStr (lookupProp (JObj l) ''target''))"
    and col: "truthy (lookupProp (JObj c) ''collapsible'')"
    and hid: "toStr (lookupProp (JObj l) ''source'') = k \<or> toStr (lookupProp (JObj l) ''target'') = k
                \<longrightarrow> truthy (lookupProp (JObj l) ''isHidden'')"
    and z: "zeroEntries lm k"
  shows "\<exists>lm'. initializeLinksStep (JObj c) lm (JObj l) = Inr lm' \<and> zeroEntries lm' k"
proof -
  define S where "S = toStr (lookupProp (JObj l) ''source'')"
  define T where "T = toStr (lookupProp (JObj l) ''target'')"
  define v where "v = (if truthy (jsAnd (lookupProp (JObj c) ''collapsible'') (lookupProp (JObj l) ''isHidden''))
               then JNum 0 else jsOr (lookupProp (JObj l) ''value'') (JNum 1))"
  define lm1 where "lm1 = (if map_of lm S = None then AList.update S [] lm else lm)"
  define lm2 where "lm2 = (if map_of lm1 T = None then AList.update T [] lm1 else lm1)"
  define lm3 where "lm3 = AList.update S (setProp (rowOf lm2 S) T v) lm2"
  define lm4 where "lm4 = AList.update T (setProp (rowOf lm3 T) S v) lm3"
  have step: "initializeLinksStep (JObj c) lm (JObj l)
                = Inr (if \<not> truthy (lookupProp (JObj c) ''directed'') then lm4 else lm3)"
    unfolding initializeLinksStep_ordinary[OF s t os ot] Let_def
      lm1_def lm2_def lm3_def lm4_def S_def T_def v_def by simp
  from col hid have v: "k = S \<or> k = T \<longrightarrow> v = JNum 0"
    by (auto simp: v_def S_def T_def truthy_jsAnd)
  have z1: "zeroEntries lm1 k" using z by (simp add: lm1_def zeroEntries_update)
  have z2: "zeroEntries lm2 k" using z1 by (simp add: lm2_def zeroEntries_update)
  have "zeroRow k S (setProp (rowOf lm2 S) T v)"
    using zeroRow_rowOf[OF z2, of S] v by (intro zeroRow_setProp) auto
  with z2 have z3: "zeroEntries lm3 k" by (simp add: lm3_def zeroEntries_update)
  have "zeroRow k T (setProp (rowOf lm3 T) S v)"
    using zeroRow_rowOf[OF z3, of T] v by (intro zeroRow_setProp) auto
  with z3 have z4: "zeroEntries lm4 k" by (simp add: lm4_def zeroEntries_update)
  from step z3 z4 show ?thesis by simp
qed

lemma initializeLinksLoop_zero:
  assumes "list_all (\<lambda>l. primitiveId (lookupProp (JObj l) ''source'')
                       \<and> primitiveId (lookupProp (JObj l) ''target'')
                       \<and> ordinaryName (toStr (lookupProp (JObj l) ''source''))
                       \<and> ordinaryName (toStr (lookupProp (JObj l) ''target''))
                       \<and> (toStr (lookupProp (JObj l) ''source'') = k
                            \<or> toStr (lookupProp (JObj l) ''target'') = k
                           \<longrightarrow> truthy (lookupProp (JObj l) ''isHidden''))) gl"
    and "truthy (lookupProp (JObj c) ''collapsible'')"
    and "zeroEntries lm k"
  shows "\<exists>lm'. initializeLinksLoop (JObj c) (map JObj gl) lm = Inr lm' \<and> zeroEntries lm' k"
  using assms
proof (induction gl arbitrary: lm)
  case Nil
  then show ?case by simp
next
  case (Cons l gl)
  from Cons.prems(1) have p: "primitiveId (lookupProp (JObj l) ''source'')"
    "primitiveId (lookupProp (JObj l) ''target'')"
    "ordinaryName (toStr (lookupProp (JObj l) ''source''))"
    "ordinaryName (toStr (lookupProp (JObj l) ''target''))"
    "toStr (lookupProp (JObj l) ''source'') = k \<or> toStr (lookupProp (JObj l) ''target'') = k
       \<longrightarrow> truthy (lookupProp (JObj l) ''isHidden'')"
    by simp_all
  from initializeLinksStep_zero[OF p(1,2,3,4) Cons.prems(2) p(5) Cons.prems(3)] obtain lm1 where
    1: "initializeLinksStep (JObj c) lm (JObj l) = Inr lm1" "zeroEntries lm1 k"
    by blast
  from Cons.prems(1) have "list_all (\<lambda>l. primitiveId (lookupProp (JObj l) ''source'')
                       \<and> primitiveId (lookupProp (JObj l) ''target'')
                       \<and> ordinaryName (toStr (lookupProp (JObj l) ''source''))
                       \<and> ordinaryName (toStr (lookupProp (JObj l) ''target''))
                       \<and> (toStr (lookupProp (JObj l) ''source'') = k
                            \<or> toStr (lookupProp (JObj l) ''target'') = k
                           \<longrightarrow> truthy (lookupProp (JObj l) ''isHidden''))) gl"
    by simp
  from Cons.IH[OF this Cons.prems(2) 1(2)] obtain lm' where
    "initializeLinksLoop (JObj c) (map JObj gl) lm1 = Inr lm'" "zeroEntries lm' k"
    by blast
  with 1(1) show ?case by (simp add: bindE_def)
qed

lemma degree_of_zeroEntries:
  assumes "zeroEntries m k"
  shows "computeNodeDegree k m = (0, 0)"
proof -
  have "\<not> (case map_of row k of Some w \<Rightarrow> nonzero w | None \<Rightarrow> False)" if "(a, row) \<in> set m" for a row
    using assms that
    by (auto simp: zeroEntries_def zeroRow_def list_all_iff nonzero_def split: option.splits)
  then have i: "filter (\<lambda>(src, row). case map_of row k of Some w \<Rightarrow> nonzero w | None \<Rightarrow> False) m = []"
    by (auto simp: filter_empty_conv)
  from zeroRow_rowOf[OF assms, of k] have "list_all (\<lambda>(b, w). w = JNum 0) (rowOf m k)"
    by (simp add: zeroRow_def)
  then have o: "filter (\<lambda>(tgt, w). nonzero w) (rowOf m k) = []"
    by (auto simp: filter_empty_conv list_all_iff nonzero_def)
  show ?thesis
    unfolding computeNodeDegree_def by (simp add: i o)
qed

lemma lookupProp_clampFocusZoom:
  "k \<noteq> ''focusZoom'' \<Longrightarrow> lookupProp (JObj (clampFocusZoom c)) k = lookupProp (JObj c) k"
  by (simp add: clampFocusZoom_def Let_def lookupProp_JObj)

lemma hidden_links_degree:
  assumes r: "initializeGraphState same dc (Some ns) dl gid cfg state = Inr st"
    and fi: "firstInitialization state"
    and vn: "list_all validNode ns"
    and lp: "list_all (linkPasses same ns) dl"
    and ord: "list_all ordinaryName (linkEndpoints dl)"
    and col: "truthy (lookupProp (JObj (config st)) ''collapsible'')"
    and ih: "incidentHidden k dl"
  shows "computeNodeDegree k (links st) = (0, 0)"
proof -
  from r obtain ns' gn gl merged lm where
    "Some ns = Some ns'"
    and g: "buildGraph same ns' dl cfg state = Inr (gn, gl)"
    and il: "initializeLinks (map JObj gl) (JObj (objectAssign [] [merged])) = Inr lm"
    and l: "links st = lm"
    and c: "config st = clampFocusZoom (objectAssign [] [merged])"
    by (rule initializeGraphState_Inr)
  from g fi have gl: "gl = map (\<lambda>l. objectAssign [] [l]) dl"
    by (simp add: buildGraph_def firstInitialization_def)
  from col c have col': "truthy (lookupProp (JObj (objectAssign [] [merged])) ''collapsible'')"
    by (simp add: lookupProp_clampFocusZoom)
  have "primitiveId (lookupProp (JObj (objectAssign [] [l])) ''source'')
         \<and> primitiveId (lookupProp (JObj (objectAssign [] [l])) ''target'')
         \<and> ordinaryName (toStr (lookupProp (JObj (objectAssign [] [l])) ''source''))
         \<and> ordinaryName (toStr (lookupProp (JObj (objectAssign [] [l])) ''target''))
         \<and> (toStr (lookupProp (JObj (objectAssign [] [l])) ''source'') = k
              \<or> toStr (lookupProp (JObj (objectAssign [] [l])) ''target'') = k
             \<longrightarrow> truthy (lookupProp (JObj (objectAssign [] [l])) ''isHidden''))"
    if "l \<in> set dl" for l
  proof -
    from that lp have p: "linkPasses same ns l" by (simp add: list_all_iff)
    then have po: "plainObject l" by (simp add: linkPasses_def)
    from that ord have o: "ordinaryName (toStr (lookupProp l ''source''))"
      "ordinaryName (toStr (lookupProp l ''target''))"
      by (auto simp: linkEndpoints_def list_all_iff)
    from that ih have h: "toStr (lookupProp l ''source'') = k \<or> toStr (lookupProp l ''target'') = k
                            \<longrightarrow> truthy (lookupProp l ''isHidden'')"
      by (auto simp: incidentHidden_def list_all_iff split: if_splits)
    from linkPasses_copy[OF vn p] o h show ?thesis
      by (simp add: plainObject_copy[OF po])
  qed
  then have "list_all (\<lambda>l. primitiveId (lookupProp (JObj l) ''source'')
                       \<and> primitiveId (lookupProp (JObj l) ''target'')
                       \<and> ordinaryName (toStr (lookupProp (JObj l) ''source''))
                       \<and> ordinaryName (toStr (lookupProp (JObj l) ''target''))
                       \<and> (toStr (lookupProp (JObj l) ''source'') = k
                            \<or> toStr (lookupProp (JObj l) ''target'') = k
                           \<longrightarrow> truthy (lookupProp (JObj l) ''isHidden''))) gl"
    by (simp add: gl list_all_iff)
  from initializeLinksLoop_zero[OF this col', of "[]"] il have "zeroEntries lm k"
    by (auto simp: initializeLinks_def zeroEntries_def)
  then show ?thesis unfolding l by (rule degree_of_zeroEntries)
qed

text \<open>
  Claim C4, as amended. When no input node has a property \<open>_orphan\<close> of its own, a node of
  the returned node map (under a key other than \<open>__proto__\<close>, which the node map of the
  code never has) carries \<open>_orphan = true\<close> if and only if its in-degree and its
  out-degree in the returned adjacency matrix are both zero, and a node of nonzero degree
  has no property \<open>_orphan\<close> at all. The degree counts the nonzero entries. On the first
  initialization of a valid input whose link endpoints are ordinary names: when no link
  is hidden, the nodes that carry \<open>_orphan = true\<close> are exactly those that are neither
  source nor target of a link; and when the returned configuration is collapsible, a
  node all of whose incident links are hidden carries \<open>_orphan = true\<close>.
\<close>

theorem initializeGraphState_orphan_tagging:
  assumes r: "initializeGraphState same dc (Some ns) dl gid cfg state = Inr st"
    and no: "list_all (\<lambda>n. \<not> hasOwn n ''_orphan'') ns"
    and k: "k \<in> fst ` set (nodes st)"
    and np: "k \<noteq> ''__proto__''"
  shows "(orphanFlag st k = JBool True \<longleftrightarrow> computeNodeDegree k (links st) = (0, 0))
         \<and> (computeNodeDegree k (links st) \<noteq> (0, 0)
              \<longrightarrow> \<not> hasOwn (lookupProp (JObj (nodes st)) k) ''_orphan'')
         \<and> (firstInitialization state \<and> list_all validNode ns
              \<and> list_all (linkPasses same ns) dl \<and> list_all ordinaryName (linkEndpoints dl)
              \<and> list_all notHidden dl
              \<longrightarrow> (orphanFlag st k = JBool True \<longleftrightarrow> k \<notin> set (linkEndpoints dl)))
         \<and> (firstInitialization state \<and> list_all validNode ns
              \<and> list_all (linkPasses same ns) dl \<and> list_all ordinaryName (linkEndpoints dl)
              \<and> truthy (lookupProp (JObj (config st)) ''collapsible'') \<and> incidentHidden k dl
              \<longrightarrow> orphanFlag st k = JBool True)"
proof -
  from orphan_degree[OF r no k] have
    a: "orphanFlag st k = JBool True \<longleftrightarrow> computeNodeDegree k (links st) = (0, 0)"
    and b: "computeNodeDegree k (links st) \<noteq> (0, 0)
              \<longrightarrow> \<not> hasOwn (lookupProp (JObj (nodes st)) k) ''_orphan''"
    unfolding orphanFlag_def by blast+
  have c: "orphanFlag st k = JBool True \<longleftrightarrow> k \<notin> set (linkEndpoints dl)"
    if "firstInitialization state" "list_all validNode ns"
      "list_all (linkPasses same ns) dl" "list_all ordinaryName (linkEndpoints dl)"
      "list_all notHidden dl"
    using a first_initialization_degree[OF r that, of k] by simp
  have d: "orphanFlag st k = JBool True"
    if "firstInitialization state" "list_all validNode ns"
      "list_all (linkPasses same ns) dl" "list_all ordinaryName (linkEndpoints dl)"
      "truthy (lookupProp (JObj (config st)) ''collapsible'')" "incidentHidden k dl"
    using a hidden_links_degree[OF r that] by simp
  from a b c d show ?thesis by blast
qed

text \<open>
  The theorem on the nodes A, B and C with the single link A-B: C carries
  \<open>_orphan = true\<close>, A does not. And with the link A-B hidden, under the collapsible
  example configuration: A carries \<open>_orphan = true\<close>.
\<close>

theorem initializeGraphState_orphan_tagging_witness:
  "(\<exists>st. initializeGraphState noSharing exampleConfig
           (Some [JObj [(''id'', JStr ''A'')], JObj [(''id'', JStr ''B'')], JObj [(''id'', JStr ''C'')]])
           [JObj [(''source'', JStr ''A''), (''target'', JStr ''B'')]]
           ''g'' JUndefined JUndefined = Inr st
        \<and> orphanFlag st ''C'' = JBool True
        \<and> computeNodeDegree ''C'' (links st) = (0, 0)
        \<and> orphanFlag st ''A'' \<noteq> JBool True
        \<and> \<not> hasOwn (lookupProp (JObj (nodes st)) ''A'') ''_orphan'')
   \<and> (\<exists>st. initializeGraphState noSharing exampleConfig
           (Some [JObj [(''id'', JStr ''A'')], JObj [(''id'', JStr ''B'')], JObj [(''id'', JStr ''C'')]])
           [JObj [(''source'', JStr ''A''), (''target'', JStr ''B''), (''isHidden'', JBool True)]]
           ''g'' JUndefined JUndefined = Inr st
        \<and> orphanFlag st ''A'' = JBool True)"
proof -
  let ?ns = "[JObj [(''id'', JStr ''A'')], JObj [(''id'', JStr ''B'')], JObj [(''id'', JStr ''C'')]]"
  let ?dl = "[JObj [(''source'', JStr ''A''), (''target'', JStr ''B'')]]"
  let ?hl = "[JObj [(''source'', JStr ''A''), (''target'', JStr ''B''), (''isHidden'', JBool True)]]"
  let ?call = "initializeGraphState noSharing exampleConfig (Some ?ns) ?dl ''g'' JUndefined JUndefined"
  let ?hall = "initializeGraphState noSharing exampleConfig (Some ?ns) ?hl ''g'' JUndefined JUndefined"
  have "\<not> isl ?call" by code_simp
  then obtain st where r: "?call = Inr st" by (cases ?call) auto
  have "''C'' \<in> fst ` set (nodes (projr ?call))" "''A'' \<in> fst ` set (nodes (projr ?call))"
    by code_simp+
  with r have k: "''C'' \<in> fst ` set (nodes st)" "''A'' \<in> fst ` set (nodes st)" by simp_all
  have no: "list_all (\<lambda>n. \<not> hasOwn n ''_orphan'') ?ns" by (simp add: hasOwn_def)
  have fi: "firstInitialization JUndefined"
    by (simp add: firstInitialization_def jsAnd_def)
  have vn: "list_all validNode ?ns"
    by (simp add: validNode_def plainObject_def primitiveId_def lookupProp_def)
  have lp: "list_all (linkPasses noSharing ?ns) ?dl" "list_all (linkPasses noSharing ?ns) ?hl"
    by (simp_all add: linkPasses_def plainObject_def matchesNode_def lookupProp_def
        numericIfDeclared_def)
  have nh: "list_all notHidden ?dl"
    by (simp add: notHidden_def lookupProp_def)
  have ord: "list_all ordinaryName (linkEndpoints ?dl)" "list_all ordinaryName (linkEndpoints ?hl)"
    by code_simp+
  have le: "set (linkEndpoints ?dl) = {''A'', ''B''}"
    by (auto simp: linkEndpoints_def lookupProp_def)
  from initializeGraphState_orphan_tagging[OF r no k(1)] fi vn lp(1) nh ord(1) le
  have c: "orphanFlag st ''C'' = JBool True" "computeNodeDegree ''C'' (links st) = (0, 0)"
    by auto
  from initializeGraphState_orphan_tagging[OF r no k(2)] fi vn lp(1) nh ord(1) le
  have a: "orphanFlag st ''A'' \<noteq> JBool True"
    "\<not> hasOwn (lookupProp (JObj (nodes st)) ''A'') ''_orphan''"
    by auto
  have "\<not> isl ?hall" by code_simp
  then obtain ht where hr: "?hall = Inr ht" by (cases ?hall) auto
  have "''A'' \<in> fst ` set (nodes (projr ?hall))"
    "truthy (lookupProp (JObj (config (projr ?hall))) ''collapsible'')"
    by code_simp+
  with hr have hk: "''A'' \<in> fst ` set (nodes ht)"
    and col: "truthy (lookupProp (JObj (config ht)) ''collapsible'')" by simp_all
  have ih: "incidentHidden ''A'' ?hl" by code_simp
  from initializeGraphState_orphan_tagging[OF hr no hk] fi vn lp(2) ord(2) col ih
  have h: "orphanFlag ht ''A'' = JBool True" by auto
  from r c a hr h show ?thesis by blast
qed

text \<open>
  The claim as stated fails in both directions of its reading. An input node that
  already has \<open>_orphan: true\<close> keeps it although its degree in the matrix is not zero;
  and with a collapsible configuration a hidden link enters the matrix with the weight
  0, so that its endpoints are tagged although they have an incident link. What the
  amended claim leaves out fails too. An endpoint named as a property of
  \<open>Object.prototype\<close> gets no row: with a directed configuration and the link from
  \<open>constructor\<close> to B the matrix is the empty row B, and B is tagged although it is the
  target of a link. And a re-initialization takes the links of the previous state, by
  their index: on the state of the nodes A, B, C with the link A-B, the same nodes with
  the single link B-C leave C tagged and A not.
\<close>

theorem initializeGraphState_orphan_counterexample:
  "\<not> isl (initializeGraphState noSharing exampleConfig
           (Some [JObj [(''id'', JStr ''A''), (''_orphan'', JBool True)], JObj [(''id'', JStr ''B'')]])
           [JObj [(''source'', JStr ''A''), (''target'', JStr ''B'')]]
           ''g'' JUndefined JUndefined)
   \<and> orphanFlag (projr (initializeGraphState noSharing exampleConfig
           (Some [JObj [(''id'', JStr ''A''), (''_orphan'', JBool True)], JObj [(''id'', JStr ''B'')]])
           [JObj [(''source'', JStr ''A''), (''target'', JStr ''B'')]]
           ''g'' JUndefined JUndefined)) ''A'' = JBool True
   \<and> computeNodeDegree ''A'' (links (projr (initializeGraphState noSharing exampleConfig
           (Some [JObj [(''id'', JStr ''A''), (''_orphan'', JBool True)], JObj [(''id'', JStr ''B'')]])
           [JObj [(''source'', JStr ''A''), (''target'', JStr ''B'')]]
           ''g'' JUndefined JUndefined))) = (1, 1)
   \<and> \<not> isl (initializeGraphState noSharing exampleConfig
           (Some [JObj [(''id'', JStr ''A'')], JObj [(''id'', JStr ''B'')]])
           [JObj [(''source'', JStr ''A''), (''target'', JStr ''B''), (''isHidden'', JBool True)]]
           ''g'' JUndefined JUndefined)
   \<and> map_of (rowOf (links (projr (initializeGraphState noSharing exampleConfig
           (Some [JObj [(''id'', JStr ''A'')], JObj [(''id'', JStr ''B'')]])
           [JObj [(''source'', JStr ''A''), (''target'', JStr ''B''), (''isHidden'', JBool True)]]
           ''g'' JUndefined JUndefined))) ''A'') ''B'' = Some (JNum 0)
   \<and> orphanFlag (projr (initializeGraphState noSharing exampleConfig
           (Some [JObj [(''id'', JStr ''A'')], JObj [(''id'', JStr ''B'')]])
           [JObj [(''source'', JStr ''A''), (''target'', JStr ''B''), (''isHidden'', JBool True)]]
           ''g'' JUndefined JUndefined)) ''A'' = JBool True
   \<and> \<not> isl (initializeGraphState noSharing exampleConfig
           (Some [JObj [(''id'', JStr ''constructor'')], JObj [(''id'', JStr ''B'')]])
           [JObj [(''source'', JStr ''constructor''), (''target'', JStr ''B'')]]
           ''g'' (JObj [(''directed'', JBool True)]) JUndefined)
   \<and> links (projr (initializeGraphState noSharing exampleConfig
           (Some [JObj [(''id'', JStr ''constructor'')], JObj [(''id'', JStr ''B'')]])
           [JObj [(''source'', JStr ''constructor''), (''target'', JStr ''B'')]]
           ''g'' (JObj [(''directed'', JBool True)]) JUndefined)) = [(''B'', [])]
   \<and> orphanFlag (projr (initializeGraphState noSharing exampleConfig
           (Some [JObj [(''id'', JStr ''constructor'')], JObj [(''id'', JStr ''B'')]])
           [JObj [(''source'', JStr ''constructor''), (''target'', JStr ''B'')]]
           ''g'' (JObj [(''directed'', JBool True)]) JUndefined)) ''B'' = JBool True
   \<and> \<not> isl (initializeGraphState noSharing exampleConfig
           (Some [JObj [(''id'', JStr ''A'')], JObj [(''id'', JStr ''B'')], JObj [(''id'', JStr ''C'')]])
           [JObj [(''source'', JStr ''B''), (''target'', JStr ''C'')]]
           ''g'' (JObj [])
           (stateToJs (projr (initializeGraphState noSharing exampleConfig
              (Some [JObj [(''id'', JStr ''A'')], JObj [(''id'', JStr ''B'')], JObj [(''id'', JStr ''C'')]])
              [JObj [(''source'', JStr ''A''), (''target'', JStr ''B'')]]
              ''g'' JUndefined JUndefined))))
   \<and> orphanFlag (projr (initializeGraphState noSharing exampleConfig
           (Some [JObj [(''id'', JStr ''A'')], JObj [(''id'', JStr ''B'')], JObj [(''id'', JStr ''C'')]])
           [JObj [(''source'', JStr ''B''), (''target'', JStr ''C'')]]
           ''g'' (JObj [])
           (stateToJs (projr (initializeGraphState noSharing exampleConfig
              (Some [JObj [(''id'', JStr ''A'')], JObj [(''id'', JStr ''B'')], JObj [(''id'', JStr ''C'')]])
              [JObj [(''source'', JStr ''A''), (''target'', JStr ''B'')]]
              ''g'' JUndefined JUndefined))))) ''C'' = JBool True
   \<and> orphanFlag (projr (initializeGraphState noSharing exampleConfig
           (Some [JObj [(''id'', JStr ''A'')], JObj [(''id'', JStr ''B'')], JObj [(''id'', JStr ''C'')]])
           [JObj [(''source'', JStr ''B''), (''target'', JStr ''C'')]]
           ''g'' (JObj [])
           (stateToJs (projr (initializeGraphState noSharing exampleConfig
              (Some [JObj [(''id'', JStr ''A'')], JObj [(''id'', JStr ''B'')], JObj [(''id'', JStr ''C'')]])
              [JObj [(''source'', JStr ''A''), (''target'', JStr ''B'')]]
              ''g'' JUndefined JUndefined))))) ''A'' = JUndefined"
  by code_simp


section \<open>Re-initialization\<close>

lemma distinct_setProp: "distinct (map fst ps) \<Longrightarrow> distinct (map fst (setProp ps k v))"
  by (simp add: setProp_def distinct_update)

lemma distinct_assignFrom: "distinct (map fst t) \<Longrightarrow> distinct (map fst (assignFrom t s))"
proof -
  have "distinct (map fst t) \<Longrightarrow> distinct (map fst (foldl (\<lambda>t (k, v). setProp t k v) t ps))" for ps
    by (induction ps arbitrary: t) (auto simp: split_beta distinct_setProp)
  then show "distinct (map fst t) \<Longrightarrow> distinct (map fst (assignFrom t s))"
    by (simp add: assignFrom_def)
qed

lemma distinct_objectAssign: "distinct (map fst t) \<Longrightarrow> distinct (map fst (objectAssign t ss))"
  unfolding objectAssign_def
  by (induction ss arbitrary: t) (auto simp: distinct_assignFrom)

lemma pickLoop_lookup:
  assumes "\<not> nullish v" "distinct (map fst acc)"
  shows "\<exists>r. pickLoop v ks acc = Inr r \<and> distinct (map fst r)
            \<and> (\<forall>k. map_of r k = (if k \<in> set ks \<and> hasOwn v k then Some (lookupProp v k)
                                  else map_of acc k))"
  using assms(2)
proof (induction ks arbitrary: acc)
  case Nil
  then show ?case by simp
next
  case (Cons a ks)
  let ?acc1 = "if hasOwn v a then setProp acc a (lookupProp v a) else acc"
  from Cons.prems have "distinct (map fst ?acc1)" by (simp add: distinct_setProp)
  from Cons.IH[OF this] obtain r where
    r: "pickLoop v ks ?acc1 = Inr r" "distinct (map fst r)"
    "\<And>k. map_of r k = (if k \<in> set ks \<and> hasOwn v k then Some (lookupProp v k) else map_of ?acc1 k)"
    by blast
  have "pickLoop v (a # ks) acc = Inr r"
    using r(1) assms(1) by (simp add: hasOwnProperty_def bindE_def)
  moreover have "map_of r k = (if k \<in> set (a # ks) \<and> hasOwn v k then Some (lookupProp v k)
                               else map_of acc k)" for k
    unfolding r(3) by auto
  ultimately show ?case using r(2) by blast
qed

lemma truthy_not_nullish: "truthy v \<Longrightarrow> \<not> nullish v"
  by (cases v) (auto simp: nullish_def)

lemma carryOverNode_lookup:
  assumes "validNode n"
  shows "\<exists>g. carryOverNode state n = Inr g \<and> distinct (map fst g)
           \<and> (\<forall>k. map_of g k =
                  (if truthy (stateNode state n) \<and> k \<in> set NODE_PROPS_WHITELIST
                        \<and> hasOwn (stateNode state n) k
                   then Some (lookupProp (stateNode state n) k)
                   else map_of (ownProps n) k))"
proof -
  from assms obtain ps where n: "n = JObj ps" "distinct (map fst ps)"
    by (auto simp: validNode_def plainObject_def split: jsval.splits)
  have g: "getProp n ''id'' = Inr (lookupProp n ''id'')"
    using n by (simp add: getProp_JObj)
  let ?sn = "stateNode state n"
  show ?thesis
  proof (cases "truthy ?sn")
    case False
    then have "carryOverNode state n = Inr (objectAssign [] [n])"
      by (simp add: carryOverNode_def g bindE_def Let_def stateNode_def nodeKey_def)
    moreover have "map_of (objectAssign [] [n]) = map_of ps"
      using n by (simp add: map_of_objectAssign_one distinct_map_of_rev)
    moreover have "distinct (map fst (objectAssign [] [n]))"
      by (simp add: distinct_objectAssign)
    ultimately show ?thesis using False n by simp
  next
    case True
    then have "\<not> nullish ?sn" by (rule truthy_not_nullish)
    from pickLoop_lookup[OF this, of "[]" NODE_PROPS_WHITELIST] obtain picked where
      p: "pick ?sn NODE_PROPS_WHITELIST = Inr picked" "distinct (map fst picked)"
      "\<And>k. map_of picked k = (if k \<in> set NODE_PROPS_WHITELIST \<and> hasOwn ?sn k
                                then Some (lookupProp ?sn k) else None)"
      by (auto simp: pick_def)
    from True p(1) have c: "carryOverNode state n = Inr (objectAssign [] [n, JObj picked])"
      by (simp add: carryOverNode_def g bindE_def Let_def stateNode_def nodeKey_def)
    have "map_of (objectAssign [] [n, JObj picked]) = map_of ps ++ map_of picked"
      using n p(2) by (simp add: map_of_objectAssign_two distinct_map_of_rev)
    then have "map_of (objectAssign [] [n, JObj picked]) k =
                 (if k \<in> set NODE_PROPS_WHITELIST \<and> hasOwn ?sn k
                  then Some (lookupProp ?sn k) else map_of ps k)" for k
      by (simp add: map_add_def p(3))
    moreover have "distinct (map fst (objectAssign [] [n, JObj picked]))"
      by (simp add: distinct_objectAssign)
    ultimately show ?thesis using c True n by simp
  qed
qed

lemma lengthOf_cases: "lengthOf v = None \<or> (\<exists>i. lengthOf v = Some (JNum i))"
  by (cases v) auto

lemma lookupProp_not_own:
  assumes "map_of (ownProps v) k = None"
  shows "lookupProp v k = JUndefined \<or> (\<exists>i. lookupProp v k = JNum i)"
  using assms lengthOf_cases[of v] by (auto simp: lookupProp_def)

lemma consistent_stateNode:
  assumes "consistentState state" "truthy (stateNode state n)" "hasOwn (stateNode state n) ''id''"
  shows "primitiveId (lookupProp (stateNode state n) ''id'')
         \<and> toStr (lookupProp (stateNode state n) ''id'') = nodeKey n"
proof -
  let ?m = "lookupProp state ''nodes''"
  let ?sn = "stateNode state n"
  show ?thesis
  proof (cases "map_of (ownProps ?m) (nodeKey n)")
    case None
    then have "?sn = JUndefined \<or> (\<exists>i. ?sn = JNum i)"
      unfolding stateNode_def by (rule lookupProp_not_own)
    with assms(2,3) show ?thesis by (auto simp: hasOwn_def)
  next
    case (Some v)
    then have "?sn = v" by (simp add: stateNode_def lookupProp_def)
    moreover from Some have "(nodeKey n, v) \<in> set (ownProps ?m)" by (rule map_of_SomeD)
    ultimately show ?thesis
      using assms by (auto simp: consistentState_def list_all_iff)
  qed
qed

text \<open>The id of a graph node that has been carried over.\<close>

lemma carryOverNode_id:
  assumes v: "validNode n" and c: "consistentState state"
    and g: "carryOverNode state n = Inr g"
  shows "primitiveId (lookupProp (JObj g) ''id'') \<and> toStr (lookupProp (JObj g) ''id'') = nodeKey n"
proof -
  from carryOverNode_lookup[OF v, of state] g have
    m: "map_of g ''id'' =
          (if truthy (stateNode state n) \<and> ''id'' \<in> set NODE_PROPS_WHITELIST
                \<and> hasOwn (stateNode state n) ''id''
           then Some (lookupProp (stateNode state n) ''id'')
           else map_of (ownProps n) ''id'')"
    by auto
  show ?thesis
  proof (cases "truthy (stateNode state n) \<and> hasOwn (stateNode state n) ''id''")
    case True
    with m have "lookupProp (JObj g) ''id'' = lookupProp (stateNode state n) ''id''"
      by (simp add: lookupProp_JObj NODE_PROPS_WHITELIST_def)
    with consistent_stateNode[OF c] True show ?thesis by simp
  next
    case False
    with m have "map_of g ''id'' = map_of (ownProps n) ''id''" by auto
    moreover from v obtain ps where "n = JObj ps"
      by (auto simp: validNode_def plainObject_def split: jsval.splits)
    ultimately have "lookupProp (JObj g) ''id'' = lookupProp n ''id''"
      by (simp add: lookupProp_JObj)
    with v show ?thesis by (simp add: validNode_def nodeKey_def)
  qed
qed

lemma initializeNodesLoop_keys_Inr:
  assumes "initializeNodesLoop gs acc = Inr nm"
  shows "fst ` set nm = fst ` set acc \<union> (\<lambda>g. toStr (lookupProp (JObj g) ''id'')) ` set gs"
  using assms
proof (induction gs arbitrary: acc)
  case Nil
  then show ?case by simp
next
  case (Cons g gs)
  from Cons.prems obtain key where
    key: "toStringMethod (lookupProp (JObj g) ''id'') = Inr key"
    and r: "initializeNodesLoop gs (setProp acc key (JObj (initializeNode g))) = Inr nm"
    by (auto simp: Let_def bindE_Inr_iff)
  from key have k: "key = toStr (lookupProp (JObj g) ''id'')"
    by (auto simp: toStringMethod_def split: if_splits)
  from Cons.IH[OF r] k show ?case by auto
qed

lemma initializeNode_lookup:
  "map_of (initializeNode g) k =
     (if k = ''highlighted'' then Some (JBool False)
      else if (k = ''x'' \<or> k = ''y'') \<and> k \<notin> fst ` set g then Some (JNum 0)
      else map_of g k)"
  by (auto simp: initializeNode_def Let_def hasOwn_def)

lemma distinct_initializeNode: "distinct (map fst g) \<Longrightarrow> distinct (map fst (initializeNode g))"
  by (simp add: initializeNode_def Let_def distinct_setProp)

lemma orphan_copy_other:
  assumes "distinct (map fst m)" "k \<noteq> ''_orphan''"
  shows "map_of (objectAssign [] [JObj m, JObj [(''_orphan'', w)]]) k = map_of m k"
  using assms by (simp add: map_of_objectAssign_two distinct_map_of_rev map_add_def)

lemma stateNode_cong: "nodeKey n' = nodeKey n \<Longrightarrow> stateNode state n' = stateNode state n"
  by (simp add: stateNode_def)

lemma reinit_node:
  assumes r: "initializeGraphState same dc (Some ns) dl gid cfg state = Inr st"
    and hm: "\<not> firstInitialization state"
    and cs: "consistentState state"
    and vn: "list_all validNode ns"
    and n: "n \<in> set ns"
    and t: "truthy (stateNode state n)"
  shows "\<exists>g. lookupProp (JObj (nodes st)) (nodeKey n) = JObj g
            \<and> map_of g ''highlighted'' = Some (JBool False)
            \<and> (\<forall>p \<in> set positionFields. hasOwn (stateNode state n) p \<longrightarrow>
                  map_of g p = Some (lookupProp (stateNode state n) p))"
proof -
  from r obtain ns' gn gl lm nm where
    "Some ns = Some ns'"
    and g: "buildGraph same ns' dl cfg state = Inr (gn, gl)"
    and i: "initializeNodes gn = Inr nm"
    and ns: "nodes st = tagOrphanNodes nm lm"
    by (rule initializeGraphState_Inr)
  then have g: "buildGraph same ns dl cfg state = Inr (gn, gl)" by simp
  let ?K = "nodeKey n"
  let ?sn = "stateNode state n"
  from buildGraph_node'[OF g n] hm obtain g0 where
    g0: "g0 \<in> set gn" "carryOverNode state n = Inr g0" by auto
  from n vn have v: "validNode n" by (simp add: list_all_iff)
  from carryOverNode_id[OF v cs g0(2)] have "?K = toStr (lookupProp (JObj g0) ''id'')" by simp
  from this g0(1) have "?K \<in> (\<lambda>g. toStr (lookupProp (JObj g) ''id'')) ` set gn"
    by (rule image_eqI)
  moreover from i have "initializeNodesLoop gn [] = Inr nm" by (simp add: initializeNodes_def)
  ultimately have "?K \<in> fst ` set nm"
    using initializeNodesLoop_keys_Inr[of gn "[]" nm] by simp
  then obtain val where val: "map_of nm ?K = Some val"
    by (metis domD dom_map_of_conv_image_fst)
  from initializeNodesLoop_values[of gn "[]" nm ?K val] i val obtain g' where
    g': "g' \<in> set gn" "val = JObj (initializeNode g')" "toStr (lookupProp (JObj g') ''id'') = ?K"
    by (auto simp: initializeNodes_def)
  from buildGraph_node[OF g g'(1)] hm obtain n' where
    n': "n' \<in> set ns" "carryOverNode state n' = Inr g'" by auto
  from n' vn have v': "validNode n'" by (simp add: list_all_iff)
  from carryOverNode_id[OF v' cs n'(2)] g'(3) have "nodeKey n' = ?K" by simp
  then have sn: "stateNode state n' = ?sn" by (rule stateNode_cong)
  from carryOverNode_lookup[OF v', of state] n'(2) sn have
    dg: "distinct (map fst g')"
    and lg: "\<And>k. map_of g' k =
                  (if truthy ?sn \<and> k \<in> set NODE_PROPS_WHITELIST \<and> hasOwn ?sn k
                   then Some (lookupProp ?sn k) else map_of (ownProps n') k)"
    by auto
  have pg: "map_of g' p = Some (lookupProp ?sn p)"
    if "p \<in> set positionFields" "hasOwn ?sn p" for p
    using that t unfolding lg by (auto simp: positionFields_def NODE_PROPS_WHITELIST_def)
  let ?m = "initializeNode g'"
  have dm: "distinct (map fst ?m)" using dg by (rule distinct_initializeNode)
  have hm': "map_of ?m ''highlighted'' = Some (JBool False)"
    by (simp add: initializeNode_lookup)
  have pm: "map_of ?m p = Some (lookupProp ?sn p)"
    if "p \<in> set positionFields" "hasOwn ?sn p" for p
  proof -
    from pg[OF that] have "p \<in> fst ` set g'"
      by (metis domI dom_map_of_conv_image_fst)
    moreover from that(1) have "p \<noteq> ''highlighted''" by (auto simp: positionFields_def)
    ultimately show ?thesis using pg[OF that] by (simp add: initializeNode_lookup)
  qed
  have tl: "lookupProp (JObj (nodes st)) ?K =
         (if computeNodeDegree ?K lm = (0, 0)
          then JObj (objectAssign [] [val, JObj [(''_orphan'', JBool True)]]) else val)"
    by (simp add: lookupProp_JObj ns tagOrphanNodes_lookup val)
  show ?thesis
  proof (cases "computeNodeDegree ?K lm = (0, 0)")
    case False
    with tl g'(2) have "lookupProp (JObj (nodes st)) ?K = JObj ?m" by simp
    with hm' pm show ?thesis by blast
  next
    case True
    let ?c = "objectAssign [] [JObj ?m, JObj [(''_orphan'', JBool True)]]"
    from True tl g'(2) have e: "lookupProp (JObj (nodes st)) ?K = JObj ?c" by simp
    have "map_of ?c ''highlighted'' = Some (JBool False)"
      using hm' by (simp add: orphan_copy_other[OF dm])
    moreover have "map_of ?c p = Some (lookupProp ?sn p)"
      if "p \<in> set positionFields" "hasOwn ?sn p" for p
    proof -
      from that(1) have "p \<noteq> ''_orphan''" by (auto simp: positionFields_def)
      with pm[OF that] show ?thesis by (simp add: orphan_copy_other[OF dm])
    qed
    ultimately show ?thesis using e by blast
  qed
qed

lemma sequenceE_map_total:
  assumes "\<forall>x \<in> set xs. \<exists>y. f x = Inr y"
  shows "\<exists>ys. sequenceE (map f xs) = Inr ys"
  using assms
proof (induction xs)
  case Nil
  then show ?case by simp
next
  case (Cons x xs)
  then obtain y ys where "f x = Inr y" "sequenceE (map f xs) = Inr ys" by auto
  then show ?case by simp
qed

lemma no_links_returns:
  assumes ne: "ns \<noteq> []" and vn: "list_all validNode ns" and cs: "consistentState state"
    and mg: "merge dc (jsOr cfg (JObj [])) 0 = Inr merged"
  shows "\<exists>st. initializeGraphState same dc (Some ns) [] gid cfg state = Inr st"
proof -
  have v: "validateGraphData same (Some ns) [] = Inr ()"
    using ne by (simp add: validateGraphData_def)
  have "\<exists>gn. buildGraph same ns [] cfg state = Inr (gn, [])
            \<and> list_all (\<lambda>g. \<not> nullish (lookupProp (JObj g) ''id'')) gn"
  proof (cases "firstInitialization state")
    case True
    have "\<not> nullish (lookupProp (JObj (objectAssign [] [n])) ''id'')" if "n \<in> set ns" for n
      using that vn
      by (auto simp: list_all_iff validNode_def plainObject_copy primitiveId_not_nullish)
    with True show ?thesis
      by (auto simp: buildGraph_def firstInitialization_def list_all_iff)
  next
    case False
    have "\<forall>n \<in> set ns. \<exists>g. carryOverNode state n = Inr g"
    proof
      fix n assume "n \<in> set ns"
      with vn have "validNode n" by (simp add: list_all_iff)
      from carryOverNode_lookup[OF this, of state]
      show "\<exists>g. carryOverNode state n = Inr g" by blast
    qed
    from sequenceE_map_total[OF this] obtain gn where
      gn: "sequenceE (map (carryOverNode state) ns) = Inr gn" by blast
    have "\<not> nullish (lookupProp (JObj g) ''id'')" if "g \<in> set gn" for g
    proof -
      from sequenceE_map_mem[OF gn that] obtain n where
        "n \<in> set ns" "carryOverNode state n = Inr g" by blast
      with vn carryOverNode_id[OF _ cs, of n g] show ?thesis
        by (auto simp: list_all_iff primitiveId_not_nullish)
    qed
    with False gn show ?thesis
      by (auto simp: buildGraph_def firstInitialization_def bindE_def list_all_iff)
  qed
  then obtain gn where g: "buildGraph same ns [] cfg state = Inr (gn, [])"
    and ids: "list_all (\<lambda>g. \<not> nullish (lookupProp (JObj g) ''id'')) gn" by blast
  from initializeNodesLoop_keys[OF ids, of "[]"] obtain nm where
    nm: "initializeNodes gn = Inr nm" by (auto simp: initializeNodes_def)
  show ?thesis
    using v g mg nm
    by (simp add: initializeGraphState_def bindE_def Let_def initializeLinks_def)
qed

text \<open>
  Claim C3, as amended. On a consistent previous state and valid input nodes: a
  re-initialization that returns gives every input node that the previous state holds
  the \<open>x\<close>, \<open>y\<close>, \<open>vx\<close> and \<open>vy\<close> that its previous node has, and the value \<open>false\<close>
  for \<open>highlighted\<close>, whatever the previous node has there. And with no links the call
  returns a state, for every non-empty sequence of valid nodes and every configuration
  that merges over the default one.
\<close>

theorem initializeGraphState_reinitialization:
  assumes cs: "consistentState state" and vn: "list_all validNode ns"
  shows "(initializeGraphState same dc (Some ns) dl gid cfg state = Inr st
            \<and> \<not> firstInitialization state \<and> n \<in> set ns \<and> truthy (stateNode state n)
          \<longrightarrow> highlightedFlag (nodes st) (nodeKey n) = JBool False
              \<and> (\<forall>p \<in> set positionFields. hasOwn (stateNode state n) p \<longrightarrow>
                   lookupProp (lookupProp (JObj (nodes st)) (nodeKey n)) p
                     = lookupProp (stateNode state n) p))
         \<and> (ns \<noteq> [] \<and> merge dc (jsOr cfg (JObj [])) 0 = Inr merged
          \<longrightarrow> (\<exists>st'. initializeGraphState same dc (Some ns) [] gid cfg state = Inr st'))"
proof (intro conjI impI)
  assume a: "initializeGraphState same dc (Some ns) dl gid cfg state = Inr st
            \<and> \<not> firstInitialization state \<and> n \<in> set ns \<and> truthy (stateNode state n)"
  then have r: "initializeGraphState same dc (Some ns) dl gid cfg state = Inr st"
    and hm: "\<not> firstInitialization state" and n: "n \<in> set ns"
    and t: "truthy (stateNode state n)" by blast+
  from reinit_node[OF r hm cs vn n t] obtain g where
    g: "lookupProp (JObj (nodes st)) (nodeKey n) = JObj g"
      "map_of g ''highlighted'' = Some (JBool False)"
      "\<forall>p \<in> set positionFields. hasOwn (stateNode state n) p \<longrightarrow>
          map_of g p = Some (lookupProp (stateNode state n) p)"
    by blast
  from g(1,2) show "highlightedFlag (nodes st) (nodeKey n) = JBool False"
    unfolding highlightedFlag_def by (simp add: lookupProp_JObj)
  from g(1,3) show "\<forall>p \<in> set positionFields. hasOwn (stateNode state n) p \<longrightarrow>
                   lookupProp (lookupProp (JObj (nodes st)) (nodeKey n)) p
                     = lookupProp (stateNode state n) p"
    by (simp add: lookupProp_JObj)
next
  assume "ns \<noteq> [] \<and> merge dc (jsOr cfg (JObj [])) 0 = Inr merged"
  then show "\<exists>st'. initializeGraphState same dc (Some ns) [] gid cfg state = Inr st'"
    using no_links_returns[OF _ vn cs] by blast
qed

text \<open>
  The theorem on a previous state that holds the node A at (10, 20), highlighted, and
  the input node A with no links: the call returns, A is at (10, 20) again and is no
  longer highlighted.
\<close>

theorem initializeGraphState_reinitialization_witness:
  "\<exists>st. initializeGraphState noSharing exampleConfig (Some [JObj [(''id'', JStr ''A'')]]) []
           ''g'' JUndefined
           (JObj [(''nodes'', JObj [(''A'', JObj [(''id'', JStr ''A''), (''highlighted'', JBool True),
                                                   (''x'', JNum 10), (''y'', JNum 20)])])]) = Inr st
        \<and> lookupProp (lookupProp (JObj (nodes st)) ''A'') ''x'' = JNum 10
        \<and> lookupProp (lookupProp (JObj (nodes st)) ''A'') ''y'' = JNum 20
        \<and> highlightedFlag (nodes st) ''A'' = JBool False"
proof -
  let ?n = "JObj [(''id'', JStr ''A'')]"
  let ?state = "JObj [(''nodes'', JObj [(''A'', JObj [(''id'', JStr ''A''), (''highlighted'', JBool True),
                                                   (''x'', JNum 10), (''y'', JNum 20)])])]"
  have cs: "consistentState ?state" by code_simp
  have vn: "list_all validNode [?n]"
    by (simp add: validNode_def plainObject_def primitiveId_def lookupProp_def)
  have "\<not> isl (merge exampleConfig (jsOr JUndefined (JObj [])) 0)"
    by code_simp
  then obtain merged where mg: "merge exampleConfig (jsOr JUndefined (JObj [])) 0 = Inr merged"
    by (cases "merge exampleConfig (jsOr JUndefined (JObj [])) 0") auto
  from initializeGraphState_reinitialization[OF cs vn, of noSharing exampleConfig "[]" "''g''" JUndefined
      _ _ merged, THEN conjunct2] mg
  have "\<exists>st. initializeGraphState noSharing exampleConfig (Some [?n]) [] ''g'' JUndefined ?state = Inr st"
    by simp
  then obtain st where r: "initializeGraphState noSharing exampleConfig (Some [?n]) [] ''g'' JUndefined ?state = Inr st"
    by blast
  have hm: "\<not> firstInitialization ?state" by code_simp
  have t: "truthy (stateNode ?state ?n)" by code_simp
  have k: "nodeKey ?n = ''A''" by code_simp
  have sn: "stateNode ?state ?n = JObj [(''id'', JStr ''A''), (''highlighted'', JBool True),
                                                   (''x'', JNum 10), (''y'', JNum 20)]"
    by code_simp
  from initializeGraphState_reinitialization[OF cs vn, of noSharing exampleConfig "[]" "''g''" JUndefined
      st ?n, THEN conjunct1] r hm t
  have "highlightedFlag (nodes st) (nodeKey ?n) = JBool False
              \<and> (\<forall>p \<in> set positionFields. hasOwn (stateNode ?state ?n) p \<longrightarrow>
                   lookupProp (lookupProp (JObj (nodes st)) (nodeKey ?n)) p
                     = lookupProp (stateNode ?state ?n) p)"
    by simp
  then have "highlightedFlag (nodes st) ''A'' = JBool False"
    "lookupProp (lookupProp (JObj (nodes st)) ''A'') ''x'' = JNum 10"
    "lookupProp (lookupProp (JObj (nodes st)) ''A'') ''y'' = JNum 20"
    unfolding k sn by (simp_all add: positionFields_def hasOwn_def lookupProp_def)
  with r show ?thesis by blast
qed

text \<open>
  The claim as stated fails on the same call: the previous state holds A with
  \<open>highlighted = true\<close>, the returned state holds it with \<open>highlighted = false\<close>.
\<close>

theorem initializeGraphState_highlight_reset_counterexample:
  "\<not> isl (initializeGraphState noSharing exampleConfig (Some [JObj [(''id'', JStr ''A'')]]) []
           ''g'' JUndefined
           (JObj [(''nodes'', JObj [(''A'', JObj [(''id'', JStr ''A''), (''highlighted'', JBool True),
                                                   (''x'', JNum 10), (''y'', JNum 20)])])]))
   \<and> highlightedFlag [(''A'', JObj [(''id'', JStr ''A''), (''highlighted'', JBool True),
                                    (''x'', JNum 10), (''y'', JNum 20)])] ''A'' = JBool True
   \<and> highlightedFlag (nodes (projr (initializeGraphState noSharing exampleConfig
           (Some [JObj [(''id'', JStr ''A'')]]) [] ''g'' JUndefined
           (JObj [(''nodes'', JObj [(''A'', JObj [(''id'', JStr ''A''), (''highlighted'', JBool True),
                                                   (''x'', JNum 10), (''y'', JNum 20)])])])))) ''A''
       = JBool False"
  by code_simp

section \<open>The keys of the node map and of the adjacency matrix\<close>

lemma graph_node_keys:
  assumes g: "buildGraph same ns dl cfg state = Inr (gn, gl)"
    and vn: "list_all validNode ns"
    and fc: "firstInitialization state \<or> consistentState state"
  shows "(\<lambda>g. toStr (lookupProp (JObj g) ''id'')) ` set gn = nodeKey ` set ns"
proof -
  have key: "toStr (lookupProp (JObj g') ''id'') = nodeKey n"
    if "n \<in> set ns"
      "if firstInitialization state then g' = objectAssign [] [n] else carryOverNode state n = Inr g'"
    for n g'
  proof -
    from that(1) vn have v: "validNode n" by (simp add: list_all_iff)
    show ?thesis
    proof (cases "firstInitialization state")
      case True
      with that(2) v show ?thesis
        by (simp add: validNode_def plainObject_copy nodeKey_def)
    next
      case False
      with fc have cs: "consistentState state" by simp
      from False that(2) have "carryOverNode state n = Inr g'" by simp
      from carryOverNode_id[OF v cs this] show ?thesis by simp
    qed
  qed
  show ?thesis
  proof (intro equalityI subsetI)
    fix x assume "x \<in> (\<lambda>g. toStr (lookupProp (JObj g) ''id'')) ` set gn"
    then obtain g' where g': "g' \<in> set gn" "x = toStr (lookupProp (JObj g') ''id'')" by blast
    from buildGraph_node[OF g g'(1)] obtain n where
      n: "n \<in> set ns"
      "if firstInitialization state then g' = objectAssign [] [n] else carryOverNode state n = Inr g'"
      by blast
    from key[OF n] g'(2) have "x = nodeKey n" by simp
    with n(1) show "x \<in> nodeKey ` set ns" by blast
  next
    fix x assume "x \<in> nodeKey ` set ns"
    then obtain n where n: "n \<in> set ns" "x = nodeKey n" by blast
    from buildGraph_node'[OF g n(1)] obtain g' where
      g': "g' \<in> set gn"
      "if firstInitialization state then g' = objectAssign [] [n] else carryOverNode state n = Inr g'"
      by blast
    from key[OF n(1) g'(2)] n(2) have "x = toStr (lookupProp (JObj g') ''id'')" by simp
    with g'(1) show "x \<in> (\<lambda>g. toStr (lookupProp (JObj g) ''id'')) ` set gn" by blast
  qed
qed

lemma node_map_keys:
  assumes r: "initializeGraphState same dc (Some ns) dl gid cfg state = Inr st"
    and vn: "list_all validNode ns"
    and fc: "firstInitialization state \<or> consistentState state"
  shows "fst ` set (nodes st) = nodeKey ` set ns"
proof -
  from r obtain ns' gn gl lm nm where
    "Some ns = Some ns'"
    and g: "buildGraph same ns' dl cfg state = Inr (gn, gl)"
    and i: "initializeNodes gn = Inr nm"
    and n: "nodes st = tagOrphanNodes nm lm"
    by (rule initializeGraphState_Inr)
  then have g: "buildGraph same ns dl cfg state = Inr (gn, gl)" by simp
  from i have "initializeNodesLoop gn [] = Inr nm" by (simp add: initializeNodes_def)
  from initializeNodesLoop_keys_Inr[OF this]
  have "fst ` set nm = (\<lambda>g. toStr (lookupProp (JObj g) ''id'')) ` set gn" by simp
  with graph_node_keys[OF g vn fc] n show ?thesis by simp
qed

text \<open>
  Claim C1, as amended. Let the input nodes be objects with a string or number id other
  than \<open>__proto__\<close>. Whenever \<open>initializeGraphState\<close> returns a state, on the first
  initialization or on a consistent previous state, the keys of its node map are the
  input node ids as strings. On the first initialization of a valid input (a non-empty
  sequence of nodes, links that are objects whose endpoints match a node and are ordinary
  names and whose value, if declared, is a number, a configuration that merges over the
  default configuration) the call returns a state, and its adjacency matrix has a row for
  exactly those ids that are the source or target of some link. A node that no link
  touches has no row.
\<close>

theorem initializeGraphState_keys:
  assumes vn: "list_all validNode ns"
    and np: "list_all (\<lambda>n. nodeKey n \<noteq> ''__proto__'') ns"
  shows "(initializeGraphState same dc (Some ns) dl gid cfg state = Inr st
            \<and> (firstInitialization state \<or> consistentState state)
          \<longrightarrow> fst ` set (nodes st) = nodeKey ` set ns)
         \<and> (firstInitialization state \<and> ns \<noteq> [] \<and> list_all (linkPasses same ns) dl
              \<and> list_all ordinaryName (linkEndpoints dl)
              \<and> merge dc (jsOr cfg (JObj [])) 0 = Inr merged
          \<longrightarrow> (\<exists>st'. initializeGraphState same dc (Some ns) dl gid cfg state = Inr st'
                  \<and> fst ` set (nodes st') = nodeKey ` set ns
                  \<and> fst ` set (links st') = set (linkEndpoints dl)))"
proof (intro conjI impI)
  assume "initializeGraphState same dc (Some ns) dl gid cfg state = Inr st
            \<and> (firstInitialization state \<or> consistentState state)"
  then show "fst ` set (nodes st) = nodeKey ` set ns"
    using node_map_keys[OF _ vn] by blast
next
  assume a: "firstInitialization state \<and> ns \<noteq> [] \<and> list_all (linkPasses same ns) dl
              \<and> list_all ordinaryName (linkEndpoints dl)
              \<and> merge dc (jsOr cfg (JObj [])) 0 = Inr merged"
  then have fi: "firstInitialization state" and ne: "ns \<noteq> []"
    and lp: "list_all (linkPasses same ns) dl"
    and ord: "list_all ordinaryName (linkEndpoints dl)"
    and mg: "merge dc (jsOr cfg (JObj [])) 0 = Inr merged" by blast+
  from vn have po: "list_all plainObject ns"
    by (auto simp: list_all_iff validNode_def)
  from ne po lp have v: "validateGraphData same (Some ns) dl = Inr ()"
    by (simp add: validateGraphData_def validateLinks_all_pass)
  let ?gn = "map (\<lambda>n. objectAssign [] [n]) ns"
  let ?gl = "map (\<lambda>l. objectAssign [] [l]) dl"
  from fi have g: "buildGraph same ns dl cfg state = Inr (?gn, ?gl)"
    by (simp add: buildGraph_def firstInitialization_def)
  have c: "\<forall>l \<in> set dl.
         primitiveId (lookupProp (JObj (objectAssign [] [l])) ''source'')
         \<and> primitiveId (lookupProp (JObj (objectAssign [] [l])) ''target'')
         \<and> lookupProp (JObj (objectAssign [] [l])) ''source'' = lookupProp l ''source''
         \<and> lookupProp (JObj (objectAssign [] [l])) ''target'' = lookupProp l ''target''"
    using linkPasses_copy[OF vn] lp by (auto simp: list_all_iff)
  from ord have o: "\<forall>l \<in> set dl. ordinaryName (toStr (lookupProp l ''source''))
                      \<and> ordinaryName (toStr (lookupProp l ''target''))"
    by (auto simp: linkEndpoints_def list_all_iff)
  from c o have "list_all (\<lambda>l. primitiveId (lookupProp (JObj l) ''source'')
                        \<and> primitiveId (lookupProp (JObj l) ''target'')
                        \<and> ordinaryName (toStr (lookupProp (JObj l) ''source''))
                        \<and> ordinaryName (toStr (lookupProp (JObj l) ''target''))) ?gl"
    by (auto simp: list_all_iff)
  from initializeLinksLoop_keys[OF this, of "objectAssign [] [merged]" "[]"] obtain lm where
    lm: "initializeLinks (map JObj ?gl) (JObj (objectAssign [] [merged])) = Inr lm"
        "fst ` set lm = set (linkEndpoints (map JObj ?gl))"
    by (auto simp: initializeLinks_def)
  have le: "linkEndpoints (map JObj ?gl) = linkEndpoints dl"
    using c by (auto simp: linkEndpoints_def intro!: arg_cong[where f=concat])
  have ids: "\<forall>n \<in> set ns. lookupProp (JObj (objectAssign [] [n])) ''id'' = lookupProp n ''id''
                \<and> primitiveId (lookupProp n ''id'')"
    using vn by (auto simp: list_all_iff validNode_def plainObject_copy)
  then have "list_all (\<lambda>g. \<not> nullish (lookupProp (JObj g) ''id'')) ?gn"
    by (auto simp: list_all_iff primitiveId_not_nullish)
  from initializeNodesLoop_keys[OF this, of "[]"] obtain nm where
    nm: "initializeNodes ?gn = Inr nm"
        "fst ` set nm = (\<lambda>g. toStr (lookupProp (JObj g) ''id'')) ` set ?gn"
    by (auto simp: initializeNodes_def)
  have nk: "(\<lambda>g. toStr (lookupProp (JObj g) ''id'')) ` set ?gn = nodeKey ` set ns"
    using ids by (auto simp: nodeKey_def image_iff)
  show "\<exists>st'. initializeGraphState same dc (Some ns) dl gid cfg state = Inr st'
                  \<and> fst ` set (nodes st') = nodeKey ` set ns
                  \<and> fst ` set (links st') = set (linkEndpoints dl)"
    using v g mg lm nm nk le
    by (simp add: initializeGraphState_def bindE_def Let_def)
qed

text \<open>
  The theorem on the nodes A, B and C with the single link A-B: the first initialization
  returns a state whose node map has the keys A, B and C and whose matrix has the rows A
  and B. And on that state as the previous one, with the nodes A, B and D: the node map
  has the keys A, B and D.
\<close>

theorem initializeGraphState_keys_witness:
  "\<not> isl (initializeGraphState noSharing exampleConfig
           (Some [JObj [(''id'', JStr ''A'')], JObj [(''id'', JStr ''B'')], JObj [(''id'', JStr ''C'')]])
           [JObj [(''source'', JStr ''A''), (''target'', JStr ''B'')]]
           ''g'' JUndefined JUndefined)
   \<and> fst ` set (nodes (projr (initializeGraphState noSharing exampleConfig
           (Some [JObj [(''id'', JStr ''A'')], JObj [(''id'', JStr ''B'')], JObj [(''id'', JStr ''C'')]])
           [JObj [(''source'', JStr ''A''), (''target'', JStr ''B'')]]
           ''g'' JUndefined JUndefined))) = {''A'', ''B'', ''C''}
   \<and> fst ` set (links (projr (initializeGraphState noSharing exampleConfig
           (Some [JObj [(''id'', JStr ''A'')], JObj [(''id'', JStr ''B'')], JObj [(''id'', JStr ''C'')]])
           [JObj [(''source'', JStr ''A''), (''target'', JStr ''B'')]]
           ''g'' JUndefined JUndefined))) = {''A'', ''B''}
   \<and> \<not> isl (initializeGraphState noSharing exampleConfig
           (Some [JObj [(''id'', JStr ''A'')], JObj [(''id'', JStr ''B'')], JObj [(''id'', JStr ''D'')]])
           [JObj [(''source'', JStr ''A''), (''target'', JStr ''B'')]]
           ''g'' (JObj [])
           (stateToJs (projr (initializeGraphState noSharing exampleConfig
              (Some [JObj [(''id'', JStr ''A'')], JObj [(''id'', JStr ''B'')], JObj [(''id'', JStr ''C'')]])
              [JObj [(''source'', JStr ''A''), (''target'', JStr ''B'')]]
              ''g'' JUndefined JUndefined))))
   \<and> fst ` set (nodes (projr (initializeGraphState noSharing exampleConfig
           (Some [JObj [(''id'', JStr ''A'')], JObj [(''id'', JStr ''B'')], JObj [(''id'', JStr ''D'')]])
           [JObj [(''source'', JStr ''A''), (''target'', JStr ''B'')]]
           ''g'' (JObj [])
           (stateToJs (projr (initializeGraphState noSharing exampleConfig
              (Some [JObj [(''id'', JStr ''A'')], JObj [(''id'', JStr ''B'')], JObj [(''id'', JStr ''C'')]])
              [JObj [(''source'', JStr ''A''), (''target'', JStr ''B'')]]
              ''g'' JUndefined JUndefined)))))) = {''A'', ''B'', ''D''}"
proof -
  let ?ns = "[JObj [(''id'', JStr ''A'')], JObj [(''id'', JStr ''B'')], JObj [(''id'', JStr ''C'')]]"
  let ?ms = "[JObj [(''id'', JStr ''A'')], JObj [(''id'', JStr ''B'')], JObj [(''id'', JStr ''D'')]]"
  let ?dl = "[JObj [(''source'', JStr ''A''), (''target'', JStr ''B'')]]"
  let ?first = "initializeGraphState noSharing exampleConfig (Some ?ns) ?dl ''g'' JUndefined JUndefined"
  let ?state = "stateToJs (projr ?first)"
  let ?second = "initializeGraphState noSharing exampleConfig (Some ?ms) ?dl ''g'' (JObj []) ?state"
  have 1: "firstInitialization JUndefined"
    by (simp add: firstInitialization_def jsAnd_def)
  have 2: "?ns \<noteq> []" by simp
  have 3: "list_all validNode ?ns" "list_all validNode ?ms"
    by (simp_all add: validNode_def plainObject_def primitiveId_def lookupProp_def)
  have 4: "list_all (linkPasses noSharing ?ns) ?dl"
    by (simp add: linkPasses_def plainObject_def matchesNode_def lookupProp_def
        numericIfDeclared_def)
  have "\<not> isl (merge exampleConfig (jsOr JUndefined (JObj [])) 0)"
    by code_simp
  then obtain merged where 5: "merge exampleConfig (jsOr JUndefined (JObj [])) 0 = Inr merged"
    by (cases "merge exampleConfig (jsOr JUndefined (JObj [])) 0") auto
  have 6: "nodeKey ` set ?ns = {''A'', ''B'', ''C''}" "set (linkEndpoints ?dl) = {''A'', ''B''}"
    "nodeKey ` set ?ms = {''A'', ''B'', ''D''}"
    by (auto simp: nodeKey_def linkEndpoints_def lookupProp_def)
  have 7: "list_all (\<lambda>n. nodeKey n \<noteq> ''__proto__'') ?ns" "list_all (\<lambda>n. nodeKey n \<noteq> ''__proto__'') ?ms"
    by (simp_all add: nodeKey_def lookupProp_def)
  have 8: "list_all ordinaryName (linkEndpoints ?dl)" by code_simp
  note first = initializeGraphState_keys[OF 3(1) 7(1), of noSharing exampleConfig ?dl "''g''" JUndefined
      JUndefined _ merged, THEN conjunct2, rule_format]
  have "\<exists>st'. ?first = Inr st' \<and> fst ` set (nodes st') = nodeKey ` set ?ns
           \<and> fst ` set (links st') = set (linkEndpoints ?dl)"
    by (rule first) (intro conjI 1 2 4 5 8)
  then obtain st0 where r0: "?first = Inr st0" and k0: "fst ` set (nodes st0) = nodeKey ` set ?ns"
    "fst ` set (links st0) = set (linkEndpoints ?dl)" by blast
  from r0 have p0: "\<not> isl ?first" "projr ?first = st0" by simp_all
  from k0 have "fst ` set (nodes st0) = {''A'', ''B'', ''C''}" "fst ` set (links st0) = {''A'', ''B''}"
    unfolding 6 by blast+
  then have a: "\<not> isl ?first" "fst ` set (nodes (projr ?first)) = {''A'', ''B'', ''C''}"
    "fst ` set (links (projr ?first)) = {''A'', ''B''}"
    unfolding p0(2) using p0(1) by blast+
  have "\<not> isl ?second" by code_simp
  then obtain st where r: "?second = Inr st" by (cases ?second) auto
  have cs: "consistentState ?state" by code_simp
  note second = initializeGraphState_keys[OF 3(2) 7(2), of noSharing exampleConfig ?dl "''g''" "JObj []"
      ?state st, THEN conjunct1, rule_format]
  have "fst ` set (nodes st) = nodeKey ` set ?ms"
    by (rule second) (intro conjI disjI2 r cs)
  then have "fst ` set (nodes st) = {''A'', ''B'', ''D''}" unfolding 6 .
  moreover from r have "\<not> isl ?second" "projr ?second = st" by simp_all
  ultimately have b: "\<not> isl ?second" "fst ` set (nodes (projr ?second)) = {''A'', ''B'', ''D''}"
    by simp_all
  from a b show ?thesis by blast
qed

text \<open>
  The claim as stated fails on the first input, which is valid: C is a key of the node
  map, and the adjacency matrix has no entry for C. What the amended claim leaves out
  fails too. An endpoint named as a property of \<open>Object.prototype\<close> gets no row: for the
  nodes \<open>constructor\<close> and B and the link between them the matrix has the row B alone.
  And a re-initialization takes the links of the previous state, by their index: on the
  state of the first input, the nodes A, B, C with the single link B-C give a matrix
  with the rows A and B again.
\<close>

theorem initializeGraphState_isolated_node_counterexample:
  "\<not> isl (initializeGraphState noSharing exampleConfig
           (Some [JObj [(''id'', JStr ''A'')], JObj [(''id'', JStr ''B'')], JObj [(''id'', JStr ''C'')]])
           [JObj [(''source'', JStr ''A''), (''target'', JStr ''B'')]]
           ''g'' JUndefined JUndefined)
   \<and> map_of (nodes (projr (initializeGraphState noSharing exampleConfig
           (Some [JObj [(''id'', JStr ''A'')], JObj [(''id'', JStr ''B'')], JObj [(''id'', JStr ''C'')]])
           [JObj [(''source'', JStr ''A''), (''target'', JStr ''B'')]]
           ''g'' JUndefined JUndefined))) ''C'' \<noteq> None
   \<and> map_of (links (projr (initializeGraphState noSharing exampleConfig
           (Some [JObj [(''id'', JStr ''A'')], JObj [(''id'', JStr ''B'')], JObj [(''id'', JStr ''C'')]])
           [JObj [(''source'', JStr ''A''), (''target'', JStr ''B'')]]
           ''g'' JUndefined JUndefined))) ''C'' = None
   \<and> \<not> isl (initializeGraphState noSharing exampleConfig
           (Some [JObj [(''id'', JStr ''constructor'')], JObj [(''id'', JStr ''B'')]])
           [JObj [(''source'', JStr ''constructor''), (''target'', JStr ''B'')]]
           ''g'' JUndefined JUndefined)
   \<and> links (projr (initializeGraphState noSharing exampleConfig
           (Some [JObj [(''id'', JStr ''constructor'')], JObj [(''id'', JStr ''B'')]])
           [JObj [(''source'', JStr ''constructor''), (''target'', JStr ''B'')]]
           ''g'' JUndefined JUndefined)) = [(''B'', [(''constructor'', JNum 1)])]
   \<and> \<not> isl (initializeGraphState noSharing exampleConfig
           (Some [JObj [(''id'', JStr ''A'')], JObj [(''id'', JStr ''B'')], JObj [(''id'', JStr ''C'')]])
           [JObj [(''source'', JStr ''B''), (''target'', JStr ''C'')]]
           ''g'' (JObj [])
           (stateToJs (projr (initializeGraphState noSharing exampleConfig
              (Some [JObj [(''id'', JStr ''A'')], JObj [(''id'', JStr ''B'')], JObj [(''id'', JStr ''C'')]])
              [JObj [(''source'', JStr ''A''), (''target'', JStr ''B'')]]
              ''g'' JUndefined JUndefined))))
   \<and> map fst (links (projr (initializeGraphState noSharing exampleConfig
           (Some [JObj [(''id'', JStr ''A'')], JObj [(''id'', JStr ''B'')], JObj [(''id'', JStr ''C'')]])
           [JObj [(''source'', JStr ''B''), (''target'', JStr ''C'')]]
           ''g'' (JObj [])
           (stateToJs (projr (initializeGraphState noSharing exampleConfig
              (Some [JObj [(''id'', JStr ''A'')], JObj [(''id'', JStr ''B'')], JObj [(''id'', JStr ''C'')]])
              [JObj [(''source'', JStr ''A''), (''target'', JStr ''B'')]]
              ''g'' JUndefined JUndefined)))))) = [''A'', ''B'']"
  by code_simp


end
